(* ===== verification/CP_Prelude.thy ===== *)
theory CP_Prelude
  imports Main "HOL-Library.State_Monad" "HOL-Library.Sublist"
begin

text \<open>
  What every component uses.
  \<^item> \<open>goerror\<close>: the values of Go's \<open>error\<close> interface that the program builds
    (\<open>fmt.Errorf\<close> with and without \<open>%w\<close>, \<open>errors.Join\<close>, the sentinels it
    compares with, the one error struct of the repository), with \<open>Error()\<close> and
    \<open>errors.Is\<close>.  A nil error is \<open>None\<close>.
  \<^item> Effects: a method of a Go interface is a value of the state monad over a world
    \<open>'w\<close> that the caller of a definition chooses; the definitions thread that world
    through every call in the order the code makes them.
  \<^item> A small Hoare calculus for the monad and the locale of a status machine, which the
    application and the resume packages share.
\<close>

section \<open>Prelude: Go errors, effects and shared lemmas\<close>

named_theorems hoare_rules \<open>Hoare rules of the state monad, one per combinator\<close>
named_theorems zero_defs \<open>zero values of the Go structs\<close>

subsection \<open>Errors\<close>

datatype goerror =
    ErrorString string
  | WrapError string goerror
  | WrapErrorTail string goerror string
  | JoinError "goerror list"
  | ErrNotConfigured
  | DeadlineExceeded
  | Canceled
  | InvalidTransitionError string string

type_synonym error = "goerror option"

abbreviation nil_err :: error where "nil_err \<equiv> None"

text \<open>
  \<open>Errorf\<close> is \<open>fmt.Errorf(prefix + "%w", err)\<close> for a non-nil \<open>err\<close>; the one message
  of the repository with text after the \<open>%w\<close> is a \<open>WrapErrorTail\<close>.
\<close>

abbreviation Errorf :: "string \<Rightarrow> goerror \<Rightarrow> error" where
  "Errorf pre e \<equiv> Some (WrapError pre e)"

abbreviation NewError :: "string \<Rightarrow> error" where
  "NewError msg \<equiv> Some (ErrorString msg)"

fun join_lines :: "string list \<Rightarrow> string" where
  "join_lines [] = []"
| "join_lines [s] = s"
| "join_lines (s # t # ss) = s @ CHR 0x0A # join_lines (t # ss)"

fun Error_msg :: "goerror \<Rightarrow> string" where
  "Error_msg (ErrorString s) = s"
| "Error_msg (WrapError pre e) = pre @ Error_msg e"
| "Error_msg (WrapErrorTail pre e post) = pre @ Error_msg e @ post"
| "Error_msg (JoinError es) = join_lines (map Error_msg es)"
| "Error_msg ErrNotConfigured = ''modelprovider: provider not configured''"
| "Error_msg DeadlineExceeded = ''context deadline exceeded''"
| "Error_msg Canceled = ''context canceled''"
| "Error_msg (InvalidTransitionError from to) =
     ''application: invalid transition from '' @ from @ '' to '' @ to"

text \<open>
  \<open>errors.Is\<close> for the sentinel errors, which are compared by identity: a walk down
  the \<open>Unwrap\<close> chain and into every branch of a joined error.
\<close>

fun errors_Is :: "goerror \<Rightarrow> goerror \<Rightarrow> bool" where
  "errors_Is (WrapError pre e) target = (WrapError pre e = target \<or> errors_Is e target)"
| "errors_Is (WrapErrorTail pre e post) target =
     (WrapErrorTail pre e post = target \<or> errors_Is e target)"
| "errors_Is (JoinError es) target =
     (JoinError es = target \<or> list_ex (\<lambda>e. errors_Is e target) es)"
| "errors_Is e target = (e = target)"

text \<open>\<open>errors.Join\<close> drops the nil errors, and is nil when nothing is left.\<close>

definition errors_Join :: "error list \<Rightarrow> error" where
  "errors_Join errs =
     (case List.map_filter id errs of [] \<Rightarrow> None | es \<Rightarrow> Some (JoinError es))"

lemma errors_Join_simps [simp]:
  "errors_Join [None, Some e] = Some (JoinError [e])"
  "errors_Join [Some d, Some e] = Some (JoinError [d, e])"
  "errors_Join [None, None] = None"
  "errors_Join [Some e, None] = Some (JoinError [e])"
  by (simp_all add: errors_Join_def List.map_filter_simps)

subsection \<open>The state monad and its Hoare triples\<close>

abbreviation ret :: "'a \<Rightarrow> ('w, 'a) state" where
  "ret \<equiv> State_Monad.return"

definition hoare :: "('w \<Rightarrow> bool) \<Rightarrow> ('w, 'a) state \<Rightarrow> ('a \<Rightarrow> 'w \<Rightarrow> bool) \<Rightarrow> bool" where
  "hoare P m Q \<longleftrightarrow> (\<forall>w. P w \<longrightarrow> Q (fst (run_state m w)) (snd (run_state m w)))"

lemma hoareI: "(\<And>w a w'. P w \<Longrightarrow> run_state m w = (a, w') \<Longrightarrow> Q a w') \<Longrightarrow> hoare P m Q"
  by (auto simp: hoare_def)

lemma hoareD: "hoare P m Q \<Longrightarrow> P w \<Longrightarrow> run_state m w = (a, w') \<Longrightarrow> Q a w'"
  by (auto simp: hoare_def dest!: spec [of _ w])

lemma hoareE: "hoare P m Q \<Longrightarrow> P w \<Longrightarrow> Q (fst (run_state m w)) (snd (run_state m w))"
  by (simp add: hoare_def)

lemma hoare_return [hoare_rules]: "(\<And>w. P w \<Longrightarrow> Q x w) \<Longrightarrow> hoare P (ret x) Q"
  by (simp add: hoare_def)

lemma hoare_bind:
  "hoare P m R \<Longrightarrow> (\<And>a. hoare (R a) (f a) Q) \<Longrightarrow> hoare P (State_Monad.bind m f) Q"
  by (simp add: hoare_def split: prod.splits) (metis fst_conv snd_conv)

lemma hoare_weaken:
  "hoare P' m Q' \<Longrightarrow> (\<And>w. P w \<Longrightarrow> P' w) \<Longrightarrow> (\<And>a w. Q' a w \<Longrightarrow> Q a w) \<Longrightarrow> hoare P m Q"
  by (auto simp: hoare_def)

lemma hoare_if [hoare_rules]:
  "(b \<Longrightarrow> hoare P m Q) \<Longrightarrow> (\<not> b \<Longrightarrow> hoare P n Q) \<Longrightarrow> hoare P (if b then m else n) Q"
  by simp

lemma hoare_option [hoare_rules]:
  "(x = None \<Longrightarrow> hoare P m Q) \<Longrightarrow> (\<And>e. x = Some e \<Longrightarrow> hoare P (f e) Q) \<Longrightarrow>
   hoare P (case x of None \<Rightarrow> m | Some e \<Rightarrow> f e) Q"
  by (cases x) auto

lemma hoare_sum [hoare_rules]:
  "(\<And>e. x = Inl e \<Longrightarrow> hoare P (f e) Q) \<Longrightarrow> (\<And>v. x = Inr v \<Longrightarrow> hoare P (g v) Q) \<Longrightarrow>
   hoare P (case x of Inl e \<Rightarrow> f e | Inr v \<Rightarrow> g v) Q"
  by (cases x) auto

lemma hoare_Let [hoare_rules]: "hoare P (f x) Q \<Longrightarrow> hoare P (let a = x in f a) Q"
  by simp

lemma hoare_pre: "hoare P m Q \<Longrightarrow> (\<And>w. P' w \<Longrightarrow> P w) \<Longrightarrow> hoare P' m Q"
  by (auto simp: hoare_def)

lemma hoare_prod [hoare_rules]:
  "(\<And>a b. x = (a, b) \<Longrightarrow> hoare P (f a b) Q) \<Longrightarrow> hoare P (case x of (a, b) \<Rightarrow> f a b) Q"
  by (cases x) auto

subsection \<open>Steps that keep a relation on the world\<close>

text \<open>
  \<open>keeps I m\<close>: running \<open>m\<close> keeps the predicate \<open>I\<close> of the world.  The rules are
  the ones a program built from \<open>bind\<close> and \<open>return\<close> needs; a client lemma names the
  predicates its interface keeps and applies them.
\<close>

definition keeps :: "('w \<Rightarrow> bool) \<Rightarrow> ('w, 'a) state \<Rightarrow> bool" where
  "keeps I m \<longleftrightarrow> (\<forall>w. I w \<longrightarrow> I (snd (run_state m w)))"

named_theorems keeps_rules \<open>closure of an invariant of the world under the monad\<close>

lemma keepsD: "keeps I m \<Longrightarrow> I w \<Longrightarrow> run_state m w = (a, w') \<Longrightarrow> I w'"
  by (auto simp: keeps_def dest!: spec [of _ w])

lemma keeps_return [keeps_rules]: "keeps I (ret x)"
  by (simp add: keeps_def)

lemma keeps_bind [keeps_rules]:
  "keeps I m \<Longrightarrow> (\<And>a. keeps I (f a)) \<Longrightarrow> keeps I (State_Monad.bind m f)"
  by (simp add: keeps_def split: prod.splits) (metis snd_conv)

lemma keeps_if [keeps_rules]: "keeps I m \<Longrightarrow> keeps I n \<Longrightarrow> keeps I (if b then m else n)"
  by simp

lemma keeps_option [keeps_rules]:
  "keeps I m \<Longrightarrow> (\<And>e. keeps I (f e)) \<Longrightarrow> keeps I (case x of None \<Rightarrow> m | Some e \<Rightarrow> f e)"
  by (cases x) auto

lemma keeps_sum [keeps_rules]:
  "(\<And>e. keeps I (f e)) \<Longrightarrow> (\<And>v. keeps I (g v)) \<Longrightarrow> keeps I (case x of Inl e \<Rightarrow> f e | Inr v \<Rightarrow> g v)"
  by (cases x) auto

lemma keeps_prod [keeps_rules]:
  "(\<And>a b. keeps I (f a b)) \<Longrightarrow> keeps I (case x of (a, b) \<Rightarrow> f a b)"
  by (cases x) auto

lemma keeps_Let [keeps_rules]: "(\<And>a. keeps I (f a)) \<Longrightarrow> keeps I (let a = x in f a)"
  by simp

text \<open>\<open>leaves f m\<close>: running \<open>m\<close> does not change the part \<open>f\<close> of the world.\<close>

definition leaves :: "('w \<Rightarrow> 'p) \<Rightarrow> ('w, 'a) state \<Rightarrow> bool" where
  "leaves f m \<longleftrightarrow> (\<forall>w. f (snd (run_state m w)) = f w)"

named_theorems leaves_rules \<open>parts of the world that the combinators leave alone\<close>

lemma leavesI: "(\<And>w a w'. run_state m w = (a, w') \<Longrightarrow> f w' = f w) \<Longrightarrow> leaves f m"
  unfolding leaves_def by (metis prod.collapse)

lemma leavesD: "leaves f m \<Longrightarrow> run_state m w = (a, w') \<Longrightarrow> f w' = f w"
  by (auto simp: leaves_def dest!: spec [of _ w])

lemma leaves_return [leaves_rules]: "leaves f (ret x)"
  by (simp add: leaves_def)

lemma leaves_bind [leaves_rules]:
  "leaves f m \<Longrightarrow> (\<And>a. leaves f (g a)) \<Longrightarrow> leaves f (State_Monad.bind m g)"
  by (simp add: leaves_def split: prod.splits) (metis snd_conv)

lemma leaves_if [leaves_rules]: "leaves f m \<Longrightarrow> leaves f n \<Longrightarrow> leaves f (if b then m else n)"
  by simp

lemma leaves_option [leaves_rules]:
  "leaves f m \<Longrightarrow> (\<And>e. leaves f (g e)) \<Longrightarrow> leaves f (case x of None \<Rightarrow> m | Some e \<Rightarrow> g e)"
  by (cases x) auto

lemma leaves_sum [leaves_rules]:
  "(\<And>e. leaves f (g e)) \<Longrightarrow> (\<And>v. leaves f (h v)) \<Longrightarrow>
   leaves f (case x of Inl e \<Rightarrow> g e | Inr v \<Rightarrow> h v)"
  by (cases x) auto

lemma leaves_prod [leaves_rules]:
  "(\<And>a b. leaves f (g a b)) \<Longrightarrow> leaves f (case x of (a, b) \<Rightarrow> g a b)"
  by (cases x) auto

lemma leaves_Let [leaves_rules]: "(\<And>a. leaves f (g a)) \<Longrightarrow> leaves f (let a = x in g a)"
  by simp

lemma leaves_hoare: "leaves f m \<Longrightarrow> hoare (\<lambda>w. P (f w)) m (\<lambda>_ w. P (f w))"
  by (rule hoareI) (drule (1) leavesD, simp)

lemma keeps_hoare: "keeps I m \<longleftrightarrow> hoare I m (\<lambda>_. I)"
  by (simp add: keeps_def hoare_def)

lemma leaves_keeps: "leaves f m \<Longrightarrow> keeps (\<lambda>w. P (f w)) m"
  by (simp add: leaves_def keeps_def)

lemma hoare_pure: "(A \<Longrightarrow> hoare P m Q) \<Longrightarrow> hoare (\<lambda>w. A \<and> P w) m Q"
  by (auto simp: hoare_def)

subsection \<open>Operations on one part of a world\<close>

text \<open>
  A world is often a pair: what the environment keeps, and the state of one in-memory
  implementation of an interface.  \<open>on_fst\<close> and \<open>on_snd\<close> run an operation on one part
  and leave the other alone.
\<close>

definition on_fst :: "('w, 'a) state \<Rightarrow> ('w \<times> 't, 'a) state" where
  "on_fst m = State (\<lambda>(w, t). case run_state m w of (a, w') \<Rightarrow> (a, (w', t)))"

definition on_snd :: "('t, 'a) state \<Rightarrow> ('w \<times> 't, 'a) state" where
  "on_snd m = State (\<lambda>(w, t). case run_state m t of (a, t') \<Rightarrow> (a, (w, t')))"

lemma run_on_fst [simp]:
  "run_state (on_fst m) (w, t) = (case run_state m w of (a, w') \<Rightarrow> (a, (w', t)))"
  by (simp add: on_fst_def)

lemma run_on_snd [simp]:
  "run_state (on_snd m) (w, t) = (case run_state m t of (a, t') \<Rightarrow> (a, (w, t')))"
  by (simp add: on_snd_def)

definition on_part :: "('w \<Rightarrow> 't) \<Rightarrow> ('t \<Rightarrow> 'w \<Rightarrow> 'w) \<Rightarrow> ('t, 'a) state \<Rightarrow> ('w, 'a) state" where
  "on_part get put m = State (\<lambda>w. case run_state m (get w) of (a, t) \<Rightarrow> (a, put t w))"

lemma run_on_part [simp]:
  "run_state (on_part get put m) w = (case run_state m (get w) of (a, t) \<Rightarrow> (a, put t w))"
  by (simp add: on_part_def)

lemma leaves_on_part: "(\<And>t w. f (put t w) = f w) \<Longrightarrow> leaves f (on_part get put m)"
  by (simp add: leaves_def split: prod.splits)

subsection \<open>Status machines\<close>

text \<open>
  Both \<open>internal/application/state.go\<close> and \<open>internal/resume/resume.go\<close> keep a
  table of allowed edges and a function that walks the table.  The locale is their shared
  contract: the function is membership in the table.
\<close>

locale status_machine =
  fixes edges :: "'s \<Rightarrow> 's list"
    and valid :: "'s \<Rightarrow> 's \<Rightarrow> bool"
  assumes valid_iff: "valid s t \<longleftrightarrow> t \<in> set (edges s)"
begin

lemma closed_reach:
  assumes "valid\<^sup>*\<^sup>* s t" and "P s" and "\<And>u v. P u \<Longrightarrow> v \<in> set (edges u) \<Longrightarrow> P v"
  shows "P t"
  using assms(1,2) by (induction rule: rtranclp_induct) (auto simp: valid_iff intro: assms(3))

lemma terminal_stuck: "edges s = [] \<Longrightarrow> valid\<^sup>*\<^sup>* s t \<longleftrightarrow> t = s"
  by (auto simp: valid_iff elim: converse_rtranclpE)

lemma edge_reach: "t \<in> set (edges s) \<Longrightarrow> valid\<^sup>*\<^sup>* s t"
  by (simp add: valid_iff r_into_rtranclp)

lemma edge_reach_trans: "t \<in> set (edges s) \<Longrightarrow> valid\<^sup>*\<^sup>* t u \<Longrightarrow> valid\<^sup>*\<^sup>* s u"
  by (simp add: valid_iff converse_rtranclp_into_rtranclp)

text \<open>A path is a list of statuses each of which is an edge away from the one before.\<close>

lemma path_closed:
  "successively valid (s # ss) \<Longrightarrow> P s \<Longrightarrow>
   (\<And>u v. P u \<Longrightarrow> v \<in> set ss \<Longrightarrow> v \<in> set (edges u) \<Longrightarrow> P v) \<Longrightarrow> P (last (s # ss))"
proof (induction ss arbitrary: s)
  case Nil
  then show ?case by simp
next
  case (Cons t ts)
  from Cons.prems(1) have "t \<in> set (edges s)" and succ: "successively valid (t # ts)"
    by (simp_all add: valid_iff)
  with Cons.prems(2,3) have "P t" by simp
  with succ have "P (last (t # ts))"
    by (rule Cons.IH) (simp add: Cons.prems(3))
  then show ?case by simp
qed

end

text \<open>The walk over the table of edges (the same loop in both packages).\<close>

fun for_edges :: "'s list \<Rightarrow> 's \<Rightarrow> bool" where
  "for_edges [] to = False"
| "for_edges (allowed # rest) to = (if allowed = to then True else for_edges rest to)"

lemma for_edges_iff: "for_edges es to \<longleftrightarrow> to \<in> set es"
  by (induction es) auto

end
