(* ===== verification/Go_Lib.thy ===== *)
theory Go_Lib
  imports CP_Prelude "HOL-Library.Signed_Division"
begin

text \<open>
  Strings are byte sequences (\<open>string\<close> is a list of 8-bit characters), as in Go.
  \<open>strings.Fields\<close> and \<open>strings.TrimSpace\<close> recognise every Unicode white-space rune by
  its UTF-8 encoding, so they are exact on every byte sequence: a lead byte never occurs
  inside the encoding of another rune.  \<open>strings.ToLower\<close> has Go's own two paths: the
  ASCII path is written out, the Unicode tables of the other path are a field of
  \<open>golib\<close>, and so is \<open>sha256.Sum256\<close>.  Integers are \<open>int\<close>, with \<open>wrap64\<close> where the
  code can overflow.  A \<open>time.Time\<close> is an instant in nanoseconds since the zero time and
  the UTC offset of its location (a fixed-offset location, as in a container without
  zone data).
\<close>

section \<open>The Go standard library, as far as the program uses it\<close>

record golib =
  Sum256 :: "string \<Rightarrow> string"
  UniLower :: "string \<Rightarrow> string"

subsection \<open>Integers\<close>

definition wrap64 :: "int \<Rightarrow> int" where
  "wrap64 x = (x + 2 ^ 63) mod 2 ^ 64 - 2 ^ 63"

definition int64 :: "int \<Rightarrow> bool" where
  "int64 x \<longleftrightarrow> - (2 ^ 63) \<le> x \<and> x < 2 ^ 63"

lemma wrap64_int64: "int64 (wrap64 x)"
  by (auto simp: int64_def wrap64_def)

lemma wrap64_id: "int64 x \<Longrightarrow> wrap64 x = x"
  by (simp add: int64_def wrap64_def)

subsection \<open>Decimal notation\<close>

definition digit_char :: "nat \<Rightarrow> char" where
  "digit_char d = char_of (48 + d)"

fun nat_Itoa :: "nat \<Rightarrow> string" where
  "nat_Itoa n = (if n < 10 then [digit_char n] else nat_Itoa (n div 10) @ [digit_char (n mod 10)])"

declare nat_Itoa.simps [simp del]

definition strconv_Itoa :: "int \<Rightarrow> string" where
  "strconv_Itoa i = (if i < 0 then CHR ''-'' # nat_Itoa (nat (- i)) else nat_Itoa (nat i))"

definition is_digit :: "char \<Rightarrow> bool" where
  "is_digit c \<longleftrightarrow> 48 \<le> (of_char c :: nat) \<and> (of_char c :: nat) \<le> 57"

definition digits_val :: "string \<Rightarrow> nat" where
  "digits_val s = foldl (\<lambda>n c. 10 * n + (of_char c - 48)) 0 s"

text \<open>
  \<open>strconv.Quote\<close>, for the messages: the quote, the backslash and the named control
  characters are escaped, every other byte is copied.
\<close>

definition quote_char :: "char \<Rightarrow> string" where
  "quote_char c =
     (if c = CHR 0x22 then [CHR 0x5C, CHR 0x22]
      else if c = CHR 0x5C then [CHR 0x5C, CHR 0x5C]
      else if c = CHR 0x0A then [CHR 0x5C, CHR ''n'']
      else if c = CHR 0x0D then [CHR 0x5C, CHR ''r'']
      else if c = CHR 0x09 then [CHR 0x5C, CHR ''t'']
      else [c])"

definition strconv_Quote :: "string \<Rightarrow> string" where
  "strconv_Quote s = CHR 0x22 # concat (map quote_char s) @ [CHR 0x22]"

definition NumError :: "string \<Rightarrow> string \<Rightarrow> goerror" where
  "NumError s reason = ErrorString (''strconv.Atoi: parsing '' @ strconv_Quote s @ '': '' @ reason)"

text \<open>\<open>strconv.Atoi\<close>: an optional sign, then at least one decimal digit, in 64 bits.\<close>

definition atoi_sign :: "string \<Rightarrow> bool \<times> string" where
  "atoi_sign s =
     (case s of [] \<Rightarrow> (False, [])
      | c # r \<Rightarrow> if c = CHR ''-'' then (True, r) else if c = CHR ''+'' then (False, r) else (False, s))"

definition strconv_Atoi :: "string \<Rightarrow> goerror + int" where
  "strconv_Atoi s =
     (case atoi_sign s of (neg, ds) \<Rightarrow>
        if ds = [] \<or> \<not> list_all is_digit ds then Inl (NumError s ''invalid syntax'')
        else let v = (if neg then - int (digits_val ds) else int (digits_val ds))
             in if int64 v then Inr v else Inl (NumError s ''value out of range''))"

lemma digit_char_of: "d < 10 \<Longrightarrow> (of_char (digit_char d) :: nat) = 48 + d"
  by (simp add: digit_char_def)

lemma is_digit_digit_char: "d < 10 \<Longrightarrow> is_digit (digit_char d)"
  by (simp add: is_digit_def digit_char_of)

lemma digits_val_snoc: "d < 10 \<Longrightarrow> digits_val (s @ [digit_char d]) = 10 * digits_val s + d"
  by (simp add: digits_val_def digit_char_of)

lemma nat_Itoa_digits: "list_all is_digit (nat_Itoa n) \<and> nat_Itoa n \<noteq> []"
proof (induction n rule: nat_Itoa.induct)
  case (1 n)
  then show ?case
    by (subst (1 2) nat_Itoa.simps) (auto simp: is_digit_digit_char)
qed

lemma digits_val_nat_Itoa: "digits_val (nat_Itoa n) = n"
proof (induction n rule: nat_Itoa.induct)
  case (1 n)
  show ?case
  proof (cases "n < 10")
    case True
    then show ?thesis
      by (subst nat_Itoa.simps) (simp add: digits_val_def digit_char_of)
  next
    case False
    with 1 show ?thesis
      by (subst nat_Itoa.simps) (simp add: digits_val_snoc)
  qed
qed

lemma digit_not_sign: "is_digit c \<Longrightarrow> c \<noteq> CHR ''-'' \<and> c \<noteq> CHR ''+''"
  by (auto simp: is_digit_def)

lemma atoi_sign_Itoa:
  "atoi_sign (strconv_Itoa i) = (i < 0, nat_Itoa (nat \<bar>i\<bar>))"
proof (cases "i < 0")
  case True
  then show ?thesis by (simp add: strconv_Itoa_def atoi_sign_def)
next
  case False
  obtain c r where cr: "nat_Itoa (nat i) = c # r"
    using nat_Itoa_digits [of "nat i"] by (cases "nat_Itoa (nat i)") auto
  with nat_Itoa_digits [of "nat i"] have "is_digit c" by simp
  with False cr show ?thesis
    by (auto simp: strconv_Itoa_def atoi_sign_def dest: digit_not_sign)
qed

lemma Atoi_Itoa: "int64 i \<Longrightarrow> strconv_Atoi (strconv_Itoa i) = Inr i"
  using nat_Itoa_digits [of "nat \<bar>i\<bar>"]
  by (auto simp: strconv_Atoi_def atoi_sign_Itoa digits_val_nat_Itoa Let_def)

lemma Atoi_int64: "strconv_Atoi s = Inr v \<Longrightarrow> int64 v"
  by (auto simp: strconv_Atoi_def Let_def split: prod.splits if_splits)

lemma Itoa_inj: "strconv_Itoa i = strconv_Itoa j \<Longrightarrow> i = j"
  using atoi_sign_Itoa [of i] atoi_sign_Itoa [of j]
  by (metis digits_val_nat_Itoa prod.inject abs_if nat_eq_iff2 abs_ge_zero add.inverse_inverse)

subsection \<open>White space\<close>

text \<open>The number of bytes of the white-space rune a byte sequence starts with, 0 if none.\<close>

definition ascii_space :: "nat \<Rightarrow> bool" where
  "ascii_space a \<longleftrightarrow> 9 \<le> a \<and> a \<le> 13 \<or> a = 32"

definition space2 :: "nat \<Rightarrow> nat \<Rightarrow> bool" where
  "space2 a b \<longleftrightarrow> a = 0xC2 \<and> (b = 0x85 \<or> b = 0xA0)"

definition space3 :: "nat \<Rightarrow> nat \<Rightarrow> nat \<Rightarrow> bool" where
  "space3 a b c \<longleftrightarrow>
     a = 0xE1 \<and> b = 0x9A \<and> c = 0x80
   \<or> a = 0xE2 \<and> b = 0x80 \<and> (0x80 \<le> c \<and> c \<le> 0x8A \<or> c = 0xA8 \<or> c = 0xA9 \<or> c = 0xAF)
   \<or> a = 0xE2 \<and> b = 0x81 \<and> c = 0x9F
   \<or> a = 0xE3 \<and> b = 0x80 \<and> c = 0x80"

fun space_len :: "string \<Rightarrow> nat" where
  "space_len [] = 0"
| "space_len [a] = (if ascii_space (of_char a) then 1 else 0)"
| "space_len [a, b] =
     (if ascii_space (of_char a) then 1 else if space2 (of_char a) (of_char b) then 2 else 0)"
| "space_len (a # b # c # s) =
     (if ascii_space (of_char a) then 1 else if space2 (of_char a) (of_char b) then 2
      else if space3 (of_char a) (of_char b) (of_char c) then 3 else 0)"

function fields_from :: "string \<Rightarrow> string \<Rightarrow> string list" where
  "fields_from cur [] = (if cur = [] then [] else [cur])"
| "fields_from cur (c # s) =
     (if 0 < space_len (c # s)
      then (if cur = [] then [] else [cur]) @ fields_from [] (drop (space_len (c # s)) (c # s))
      else fields_from (cur @ [c]) s)"
  by pat_completeness auto
termination
  by (relation "measure (\<lambda>(cur, s). length s)") auto

definition strings_Fields :: "string \<Rightarrow> string list" where
  "strings_Fields s = fields_from [] s"

fun strings_Join :: "string list \<Rightarrow> string \<Rightarrow> string" where
  "strings_Join [] sep = []"
| "strings_Join [s] sep = s"
| "strings_Join (s # t # ss) sep = s @ sep @ strings_Join (t # ss) sep"

text \<open>A word with no white space at any of its positions.\<close>

fun space_free :: "string \<Rightarrow> bool" where
  "space_free [] = True"
| "space_free (c # s) = (space_len (c # s) = 0 \<and> space_free s)"

lemma space_len_append: "0 < space_len u \<Longrightarrow> space_len (u @ s) = space_len u"
  by (induction u rule: space_len.induct; cases s rule: space_len.cases)
     (auto split: if_splits)

lemma space_len_append_0: "space_len (u @ s) = 0 \<Longrightarrow> space_len u = 0"
  using space_len_append by (cases "space_len u") auto

lemma space_len_blank: "space_len (CHR '' '' # s) = 1"
  by (cases s rule: space_len.cases) (auto simp: ascii_space_def)

lemma space_len_before_blank:
  "u \<noteq> [] \<Longrightarrow> space_len u = 0 \<Longrightarrow> space_len (u @ CHR '' '' # s) = 0"
  by (cases u rule: space_len.cases; cases s rule: space_len.cases)
     (auto simp: space2_def space3_def split: if_splits)

text \<open>
  \<open>open_word cur s\<close>: no white-space rune starts inside \<open>cur\<close> when \<open>s\<close> follows it.
\<close>

fun open_word :: "string \<Rightarrow> string \<Rightarrow> bool" where
  "open_word [] s = True"
| "open_word (c # w) s = (space_len (c # w @ s) = 0 \<and> open_word w s)"

lemma open_word_free: "open_word w s \<Longrightarrow> space_free w"
proof (induction w)
  case (Cons c w)
  then show ?case using space_len_append_0 [of "c # w" s] by simp
qed simp

lemma open_word_snoc:
  "open_word w (c # s) \<Longrightarrow> space_len (c # s) = 0 \<Longrightarrow> open_word (w @ [c]) s"
  by (induction w) auto

lemma fields_from_words:
  "open_word cur s \<Longrightarrow> w \<in> set (fields_from cur s) \<Longrightarrow> w \<noteq> [] \<and> space_free w"
proof (induction cur s rule: fields_from.induct)
  case (1 cur)
  then show ?case by (auto split: if_splits dest: open_word_free)
next
  case (2 cur c s)
  show ?case
  proof (cases "0 < space_len (c # s)")
    case True
    with 2 show ?thesis by (auto split: if_splits dest: open_word_free)
  next
    case False
    with 2 open_word_snoc [of cur c s] show ?thesis by auto
  qed
qed

lemma Fields_words: "w \<in> set (strings_Fields s) \<Longrightarrow> w \<noteq> [] \<and> space_free w"
  using fields_from_words [of "[]" s w] by (simp add: strings_Fields_def)

lemma fields_from_word:
  "space_free w \<Longrightarrow> fields_from cur w = (if cur @ w = [] then [] else [cur @ w])"
  by (induction w arbitrary: cur) auto

lemma fields_from_word_blank:
  "space_free w \<Longrightarrow> cur @ w \<noteq> [] \<Longrightarrow>
   fields_from cur (w @ CHR '' '' # s) = (cur @ w) # fields_from [] s"
proof (induction w arbitrary: cur)
  case Nil
  then show ?case by (simp add: space_len_blank)
next
  case (Cons c w)
  then have "space_len (c # w @ CHR '' '' # s) = 0"
    using space_len_before_blank [of "c # w" s] by simp
  with Cons show ?case by simp
qed

lemma Fields_Join:
  "(\<And>w. w \<in> set ws \<Longrightarrow> w \<noteq> [] \<and> space_free w) \<Longrightarrow> strings_Fields (strings_Join ws '' '') = ws"
proof (induction ws rule: induct_list012)
  case (3 w v ws)
  then have "strings_Fields (strings_Join (v # ws) '' '') = v # ws" by simp
  with 3 show ?case by (simp add: strings_Fields_def fields_from_word_blank)
qed (simp_all add: strings_Fields_def fields_from_word)

lemma Fields_Join_Fields: "strings_Fields (strings_Join (strings_Fields s) '' '') = strings_Fields s"
  by (rule Fields_Join) (rule Fields_words)

subsection \<open>Trimming, splitting, searching, case\<close>

function trim_left :: "string \<Rightarrow> string" where
  "trim_left s = (if 0 < space_len s then trim_left (drop (space_len s) s) else s)"
  by pat_completeness auto
termination
  by (relation "measure length") (auto, metis drop_0 gr_implies_not0 length_drop list.size(3)
      diff_less length_greater_0_conv space_len.simps(1))

declare trim_left.simps [simp del]

text \<open>The number of bytes of the white-space rune a byte sequence ends with.\<close>

definition space_suffix_len :: "string \<Rightarrow> nat" where
  "space_suffix_len s =
     (let n = length s
      in if 1 \<le> n \<and> space_len (drop (n - 1) s) = 1 then 1
         else if 2 \<le> n \<and> space_len (drop (n - 2) s) = 2 then 2
         else if 3 \<le> n \<and> space_len (drop (n - 3) s) = 3 then 3
         else 0)"

function trim_right :: "string \<Rightarrow> string" where
  "trim_right s =
     (if 0 < space_suffix_len s then trim_right (take (length s - space_suffix_len s) s) else s)"
  by pat_completeness auto
termination
  by (relation "measure length") (auto simp: space_suffix_len_def Let_def split: if_splits)

declare trim_right.simps [simp del]

definition strings_TrimSpace :: "string \<Rightarrow> string" where
  "strings_TrimSpace s = trim_right (trim_left s)"

fun strings_Contains :: "string \<Rightarrow> string \<Rightarrow> bool" where
  "strings_Contains [] sub = (sub = [])"
| "strings_Contains (c # s) sub = (prefix sub (c # s) \<or> strings_Contains s sub)"

lemma strings_Contains_sublist: "strings_Contains s sub \<longleftrightarrow> sublist sub s"
  by (induction s) (auto simp: sublist_Cons_right)

text \<open>\<open>strings.Split\<close> with a one-byte separator.\<close>

fun split_from :: "char \<Rightarrow> string \<Rightarrow> string \<Rightarrow> string list" where
  "split_from sep cur [] = [cur]"
| "split_from sep cur (c # s) =
     (if c = sep then cur # split_from sep [] s else split_from sep (cur @ [c]) s)"

definition strings_Split :: "string \<Rightarrow> char \<Rightarrow> string list" where
  "strings_Split s sep = split_from sep [] s"

definition strings_CutPrefix :: "string \<Rightarrow> string \<Rightarrow> string option" where
  "strings_CutPrefix s pre = (if prefix pre s then Some (drop (length pre) s) else None)"

definition is_ascii :: "char \<Rightarrow> bool" where
  "is_ascii c \<longleftrightarrow> (of_char c :: nat) < 128"

definition ascii_lower :: "char \<Rightarrow> char" where
  "ascii_lower c =
     (let n = (of_char c :: nat) in if 65 \<le> n \<and> n \<le> 90 then char_of (n + 32) else c)"

definition strings_ToLower :: "golib \<Rightarrow> string \<Rightarrow> string" where
  "strings_ToLower lib s = (if list_all is_ascii s then map ascii_lower s else UniLower lib s)"

lemma of_char_ascii_lower:
  "(of_char (ascii_lower c) :: nat) =
   (if 65 \<le> (of_char c :: nat) \<and> (of_char c :: nat) \<le> 90 then of_char c + 32 else of_char c)"
  by (auto simp: ascii_lower_def Let_def)

lemma ascii_lower_idem: "ascii_lower (ascii_lower c) = ascii_lower c"
proof -
  have "(of_char (ascii_lower (ascii_lower c)) :: nat) = of_char (ascii_lower c)"
    by (simp add: of_char_ascii_lower)
  then show ?thesis by (simp only: of_char_eq_iff)
qed

lemma is_ascii_lower: "is_ascii c \<Longrightarrow> is_ascii (ascii_lower c)"
  by (auto simp: is_ascii_def of_char_ascii_lower)

lemma ToLower_ascii: "list_all is_ascii s \<Longrightarrow> strings_ToLower lib s = map ascii_lower s"
  by (simp add: strings_ToLower_def)

lemma ToLower_ascii_idem:
  "list_all is_ascii s \<Longrightarrow> strings_ToLower lib (strings_ToLower lib s) = strings_ToLower lib s"
  by (simp add: strings_ToLower_def list_all_iff is_ascii_lower ascii_lower_idem)

subsection \<open>Hexadecimal and base64 text\<close>

definition hex_char :: "nat \<Rightarrow> char" where
  "hex_char d = char_of (if d < 10 then 48 + d else 87 + d)"

definition hex_EncodeToString :: "string \<Rightarrow> string" where
  "hex_EncodeToString s =
     concat (map (\<lambda>c. [hex_char (of_char c div 16), hex_char (of_char c mod 16)]) s)"

lemma length_hex: "length (hex_EncodeToString s) = 2 * length s"
  by (induction s) (simp_all add: hex_EncodeToString_def)

lemma hex_char_inj: "hex_char i = hex_char j \<Longrightarrow> i < 16 \<Longrightarrow> j < 16 \<Longrightarrow> i = j"
  by (drule arg_cong [where f = "of_char :: char \<Rightarrow> nat"])
     (auto simp: hex_char_def split: if_splits)

lemma of_char_less_256: "(of_char c :: nat) < 256"
  using of_char_mod_256 [of c, where ?'a = nat] by (metis mod_less_divisor zero_less_numeral)

lemma hex_inj: "hex_EncodeToString s = hex_EncodeToString t \<Longrightarrow> s = t"
proof (induction s arbitrary: t)
  case Nil
  then show ?case by (cases t) (simp_all add: hex_EncodeToString_def)
next
  case (Cons c s)
  then obtain d u where t: "t = d # u"
    by (cases t) (simp_all add: hex_EncodeToString_def)
  have "(of_char c :: nat) div 16 < 16" "(of_char d :: nat) div 16 < 16"
    using of_char_less_256 [of c] of_char_less_256 [of d] by (simp_all add: less_mult_imp_div_less)
  with Cons.prems t have "(of_char c :: nat) div 16 = of_char d div 16"
    and "(of_char c :: nat) mod 16 = of_char d mod 16"
    by (auto simp: hex_EncodeToString_def intro: hex_char_inj)
  then have "(of_char c :: nat) = of_char d"
    by (metis div_mult_mod_eq)
  with Cons t show ?case by (simp add: hex_EncodeToString_def)
qed

definition b64_char :: "nat \<Rightarrow> char" where
  "b64_char n = char_of
     (if n < 26 then 65 + n else if n < 52 then 71 + n else if n < 62 then n - 4
      else if n = 62 then 45 else 95)"

text \<open>\<open>base64.RawURLEncoding.EncodeToString\<close>: the URL alphabet, without padding.\<close>

fun b64_RawURL :: "string \<Rightarrow> string" where
  "b64_RawURL [] = []"
| "b64_RawURL [a] = [b64_char (of_char a div 4), b64_char ((of_char a mod 4) * 16)]"
| "b64_RawURL [a, b] =
     [b64_char (of_char a div 4), b64_char ((of_char a mod 4) * 16 + of_char b div 16),
      b64_char ((of_char b mod 16) * 4)]"
| "b64_RawURL (a # b # c # s) =
     b64_char (of_char a div 4) # b64_char ((of_char a mod 4) * 16 + of_char b div 16) #
     b64_char ((of_char b mod 16) * 4 + of_char c div 64) # b64_char (of_char c mod 64) #
     b64_RawURL s"

lemma b64_char_inj: "b64_char i = b64_char j \<Longrightarrow> i < 64 \<Longrightarrow> j < 64 \<Longrightarrow> i = j"
  by (drule arg_cong [where f = "of_char :: char \<Rightarrow> nat"])
     (auto simp: b64_char_def split: if_splits)

text \<open>The six-bit groups determine the bytes they are cut from.\<close>

lemma b64_group1: "b64_char (a div 4) = b64_char (a' div 4) \<Longrightarrow> a < 256 \<Longrightarrow> a' < 256 \<Longrightarrow>
  a div 4 = a' div 4"
  by (rule b64_char_inj) (simp_all add: less_mult_imp_div_less)

lemma split_digits:
  fixes k :: nat
  assumes "x * k + r = y * k + s" and "r < k" and "s < k"
  shows "x = y \<and> r = s"
proof -
  have "(x * k + r) div k = x" and "(y * k + s) div k = y"
    using assms(2,3) by simp_all
  with assms(1) show ?thesis by simp
qed

lemma b64_group2:
  fixes a a' b b' :: nat
  assumes "b64_char ((a mod 4) * 16 + b div 16) = b64_char ((a' mod 4) * 16 + b' div 16)"
    and "b < 256" and "b' < 256"
  shows "a mod 4 = a' mod 4 \<and> b div 16 = b' div 16"
proof -
  have *: "x mod 4 * 16 + y div 16 < 64 \<and> y div 16 < 16" if "y < 256" for x y :: nat
  proof -
    have "y div 16 < 16" using that by (simp add: less_mult_imp_div_less)
    moreover have "x mod 4 < 4" by simp
    ultimately show ?thesis by linarith
  qed
  have "(a mod 4) * 16 + b div 16 = (a' mod 4) * 16 + b' div 16"
    using assms(1) * [OF assms(2), of a] * [OF assms(3), of a'] by (blast intro: b64_char_inj)
  then show ?thesis
    by (rule split_digits) (simp_all add: * [OF assms(2)] * [OF assms(3)])
qed

lemma b64_group3:
  fixes b b' c c' :: nat
  assumes "b64_char ((b mod 16) * 4 + c div 64) = b64_char ((b' mod 16) * 4 + c' div 64)"
    and "c < 256" and "c' < 256"
  shows "b mod 16 = b' mod 16 \<and> c div 64 = c' div 64"
proof -
  have *: "x mod 16 * 4 + y div 64 < 64 \<and> y div 64 < 4" if "y < 256" for x y :: nat
  proof -
    have "y div 64 < 4" using that by (simp add: less_mult_imp_div_less)
    moreover have "x mod 16 < 16" by simp
    ultimately show ?thesis by linarith
  qed
  have "(b mod 16) * 4 + c div 64 = (b' mod 16) * 4 + c' div 64"
    using assms(1) * [OF assms(2), of b] * [OF assms(3), of b'] by (blast intro: b64_char_inj)
  then show ?thesis
    by (rule split_digits) (simp_all add: * [OF assms(2)] * [OF assms(3)])
qed

lemma b64_group4: "b64_char (c mod 64) = b64_char (c' mod 64) \<Longrightarrow> c mod 64 = c' mod 64"
  by (rule b64_char_inj) simp_all

lemma of_char_div_mod_eq:
  "(of_char a :: nat) div n = of_char b div n \<Longrightarrow> (of_char a :: nat) mod n = of_char b mod n \<Longrightarrow> a = b"
  by (metis div_mult_mod_eq of_char_eq_iff)

lemma length_b64: "length (b64_RawURL s) = (4 * length s + 2) div 3"
  by (induction s rule: b64_RawURL.induct) simp_all

lemmas b64_groups = b64_group1 b64_group2 b64_group3 b64_group4

lemma b64_inj: "b64_RawURL s = b64_RawURL t \<Longrightarrow> length s = length t \<Longrightarrow> s = t"
proof (induction s arbitrary: t rule: b64_RawURL.induct)
  case 1
  then show ?case by simp
next
  case (2 a)
  then obtain a' where t: "t = [a']" by (cases t) auto
  with 2 b64_group1 [of "of_char a" "of_char a'"] b64_group2 [of "of_char a" 0 "of_char a'" 0]
  show ?case by (auto simp: of_char_less_256 intro: of_char_div_mod_eq [where n = 4])
next
  case (3 a b)
  then obtain a' b' where t: "t = [a', b']" by (cases t rule: b64_RawURL.cases) auto
  with 3 b64_group1 [of "of_char a" "of_char a'"]
    b64_group2 [of "of_char a" "of_char b" "of_char a'" "of_char b'"]
    b64_group3 [of "of_char b" 0 "of_char b'" 0]
  show ?case by (auto simp: of_char_less_256 intro: of_char_div_mod_eq)
next
  case (4 a b c s)
  then obtain a' b' c' u where t: "t = a' # b' # c' # u"
    by (cases t rule: b64_RawURL.cases) auto
  with 4 b64_group1 [of "of_char a" "of_char a'"]
    b64_group2 [of "of_char a" "of_char b" "of_char a'" "of_char b'"]
    b64_group3 [of "of_char b" "of_char c" "of_char b'" "of_char c'"]
    b64_group4 [of "of_char c" "of_char c'"]
  show ?case by (auto simp: of_char_less_256 intro: of_char_div_mod_eq)
qed

text \<open>\<open>string(rune(n))\<close>: the UTF-8 encoding of a code point below \<open>0x10000\<close>.\<close>

definition rune_string :: "nat \<Rightarrow> string" where
  "rune_string n =
     (if n < 0x80 then [char_of n]
      else if n < 0x800 then [char_of (0xC0 + n div 64), char_of (0x80 + n mod 64)]
      else [char_of (0xE0 + n div 4096), char_of (0x80 + (n div 64) mod 64), char_of (0x80 + n mod 64)])"

subsection \<open>Time\<close>

record Time =
  nsec :: int
  zone_off :: int

definition zeroTime :: Time where
  "zeroTime = \<lparr>nsec = 0, zone_off = 0\<rparr>"

definition day_ns :: int where "day_ns = 86400 * 1000000000"
definition time_Minute :: int where "time_Minute = 60 * 1000000000"

definition time_IsZero :: "Time \<Rightarrow> bool" where "time_IsZero t \<longleftrightarrow> nsec t = 0"
definition time_After :: "Time \<Rightarrow> Time \<Rightarrow> bool" where "time_After t u \<longleftrightarrow> nsec u < nsec t"
definition time_Before :: "Time \<Rightarrow> Time \<Rightarrow> bool" where "time_Before t u \<longleftrightarrow> nsec t < nsec u"
definition time_Add :: "Time \<Rightarrow> int \<Rightarrow> Time" where "time_Add t d = t\<lparr>nsec := nsec t + d\<rparr>"

text \<open>\<open>t.Sub(u)\<close> saturates at the 64-bit durations.\<close>

definition time_Sub :: "Time \<Rightarrow> Time \<Rightarrow> int" where
  "time_Sub t u = max (- (2 ^ 63)) (min (2 ^ 63 - 1) (nsec t - nsec u))"

definition duration_Milliseconds :: "int \<Rightarrow> int" where
  "duration_Milliseconds d = d sdiv 1000000"

text \<open>
  \<open>time.Date(now.Year(), now.Month(), now.Day(), 0, 0, 0, 0, now.Location())\<close>: midnight of
  the civil day of \<open>now\<close> in its own location, the body of the \<open>startOfToday\<close> methods.
\<close>

definition startOfDay :: "Time \<Rightarrow> Time" where
  "startOfDay now = now\<lparr>nsec := nsec now - (nsec now + zone_off now) mod day_ns\<rparr>"

lemmas time_defs = time_IsZero_def time_After_def time_Before_def time_Add_def zeroTime_def

lemma startOfDay_bounds:
  "nsec (startOfDay now) \<le> nsec now \<and> nsec now < nsec (startOfDay now) + day_ns"
  by (auto simp: startOfDay_def day_ns_def)

lemma startOfDay_zone [simp]: "zone_off (startOfDay now) = zone_off now"
  by (simp add: startOfDay_def)

lemma startOfDay_idem: "startOfDay (startOfDay now) = startOfDay now"
  by (simp add: startOfDay_def day_ns_def algebra_simps mod_diff_right_eq)

end
