(* ===== verification/Browser.thy ===== *)
theory Browser
  imports Go_Lib
begin

text \<open>
  The package \<open>internal/browser\<close>, first half: the driver interface with its two
  implementations (the scripted \<open>FakeDriver\<close>, which keeps a state, and the
  \<open>PlaywrightDriver\<close> over the third-party library, which is a parameter), and the session,
  checkpoint and store types.  Contexts are passed on unread by all this code and are left
  out.
\<close>

section \<open>Browser drivers and sessions\<close>

subsection \<open>The driver interface\<close>

record FieldValue =
  field_Selector :: string
  field_Value :: string

datatype PageState =
    StateNormal | StateCaptcha | StateLoginWall | StateUnknown | StateSubmitted | StateNavigateErr
  | PageStateOther string

fun string_of_PageState :: "PageState \<Rightarrow> string" where
  "string_of_PageState StateNormal = ''normal''"
| "string_of_PageState StateCaptcha = ''captcha''"
| "string_of_PageState StateLoginWall = ''login_wall''"
| "string_of_PageState StateUnknown = ''unknown''"
| "string_of_PageState StateSubmitted = ''submitted''"
| "string_of_PageState StateNavigateErr = ''navigate_error''"
| "string_of_PageState (PageStateOther s) = s"

record Screenshot =
  shot_Data :: string
  shot_MimeType :: string

definition zeroScreenshot :: Screenshot where
  [zero_defs]: "zeroScreenshot = \<lparr>shot_Data = [], shot_MimeType = []\<rparr>"

record 'w Driver =
  drv_Launch :: "('w, error) state"
  drv_Navigate :: "string \<Rightarrow> ('w, PageState \<times> error) state"
  drv_Fill :: "FieldValue list \<Rightarrow> ('w, error) state"
  drv_DetectState :: "('w, PageState \<times> error) state"
  drv_Screenshot :: "('w, Screenshot \<times> error) state"
  drv_CurrentURL :: "('w, string \<times> error) state"
  drv_Submit :: "string \<Rightarrow> ('w, PageState \<times> error) state"
  drv_Close :: "('w, error) state"

subsection \<open>The scripted driver\<close>

record FakeDriver =
  fd_LaunchErr :: error
  fd_NavigateStates :: "PageState list"
  fd_NavigateErr :: error
  fd_navigateCalls :: nat
  fd_DetectStates :: "PageState list"
  fd_detectCalls :: nat
  fd_FillErr :: error
  fd_SubmitState :: PageState
  fd_SubmitErr :: error
  fd_Screenshots :: "Screenshot list"
  fd_screenshotCalls :: nat
  fd_CurrentURLValue :: string
  fd_Closed :: bool
  fd_FilledFields :: "FieldValue list list"
  fd_NavigatedURLs :: "string list"

definition FakeDriver_Launch :: "(FakeDriver, error) state" where
  "FakeDriver_Launch = State (\<lambda>f. (fd_LaunchErr f, f))"

definition FakeDriver_Navigate :: "string \<Rightarrow> (FakeDriver, PageState \<times> error) state" where
  "FakeDriver_Navigate url = State (\<lambda>f.
     let f = f\<lparr>fd_NavigatedURLs := fd_NavigatedURLs f @ [url]\<rparr>;
         f = f\<lparr>fd_CurrentURLValue := url\<rparr>
     in if fd_NavigateErr f \<noteq> None then ((StateNavigateErr, fd_NavigateErr f), f)
        else if length (fd_NavigateStates f) = 0 then ((StateUnknown, None), f)
        else (let idx = fd_navigateCalls f;
                  idx = (if idx \<ge> length (fd_NavigateStates f) then length (fd_NavigateStates f) - 1 else idx);
                  f = f\<lparr>fd_navigateCalls := fd_navigateCalls f + 1\<rparr>
              in ((fd_NavigateStates f ! idx, None), f)))"

definition FakeDriver_Fill :: "FieldValue list \<Rightarrow> (FakeDriver, error) state" where
  "FakeDriver_Fill fvs = State (\<lambda>f.
     let f = f\<lparr>fd_FilledFields := fd_FilledFields f @ [fvs]\<rparr> in (fd_FillErr f, f))"

definition FakeDriver_DetectState :: "(FakeDriver, PageState \<times> error) state" where
  "FakeDriver_DetectState = State (\<lambda>f.
     if length (fd_DetectStates f) = 0 then ((StateUnknown, None), f)
     else (let idx = fd_detectCalls f;
               idx = (if idx \<ge> length (fd_DetectStates f) then length (fd_DetectStates f) - 1 else idx);
               f = f\<lparr>fd_detectCalls := fd_detectCalls f + 1\<rparr>
           in ((fd_DetectStates f ! idx, None), f)))"

definition FakeDriver_Screenshot :: "(FakeDriver, Screenshot \<times> error) state" where
  "FakeDriver_Screenshot = State (\<lambda>f.
     if fd_screenshotCalls f < length (fd_Screenshots f) then
       (let s = fd_Screenshots f ! fd_screenshotCalls f
        in ((s, None), f\<lparr>fd_screenshotCalls := fd_screenshotCalls f + 1\<rparr>))
     else ((\<lparr>shot_Data = ''fake-screenshot'', shot_MimeType = ''image/png''\<rparr>, None),
           f\<lparr>fd_screenshotCalls := fd_screenshotCalls f + 1\<rparr>))"

definition FakeDriver_CurrentURL :: "(FakeDriver, string \<times> error) state" where
  "FakeDriver_CurrentURL = State (\<lambda>f. ((fd_CurrentURLValue f, None), f))"

definition FakeDriver_Submit :: "string \<Rightarrow> (FakeDriver, PageState \<times> error) state" where
  "FakeDriver_Submit selector = State (\<lambda>f.
     if fd_SubmitErr f \<noteq> None then ((StateUnknown, fd_SubmitErr f), f)
     else ((fd_SubmitState f, None), f))"

definition FakeDriver_Close :: "(FakeDriver, error) state" where
  "FakeDriver_Close = State (\<lambda>f. (None, f\<lparr>fd_Closed := True\<rparr>))"

definition FakeDriver_as_Driver :: "FakeDriver Driver" where
  "FakeDriver_as_Driver =
     \<lparr>drv_Launch = FakeDriver_Launch, drv_Navigate = FakeDriver_Navigate, drv_Fill = FakeDriver_Fill,
      drv_DetectState = FakeDriver_DetectState, drv_Screenshot = FakeDriver_Screenshot,
      drv_CurrentURL = FakeDriver_CurrentURL, drv_Submit = FakeDriver_Submit, drv_Close = FakeDriver_Close\<rparr>"

subsection \<open>The Playwright driver\<close>

text \<open>
  The library \<open>playwright-go\<close> is a parameter: \<open>'pw\<close>, \<open>'br\<close> and \<open>'pg\<close> are its handles
  for the process, the browser and the page.
\<close>

record ('w, 'pw, 'br, 'pg) playwright_pkg =
  playwright_Run :: "('w, 'pw \<times> error) state"
  Chromium_Launch :: "'pw \<Rightarrow> bool \<Rightarrow> ('w, 'br \<times> error) state"
  Browser_NewPage :: "'br \<Rightarrow> ('w, 'pg \<times> error) state"
  Browser_Close :: "'br \<Rightarrow> ('w, error) state"
  Playwright_Stop :: "'pw \<Rightarrow> ('w, error) state"
  Page_Goto :: "'pg \<Rightarrow> string \<Rightarrow> ('w, error) state"
  Locator_Fill :: "'pg \<Rightarrow> string \<Rightarrow> string \<Rightarrow> ('w, error) state"
  Locator_Click :: "'pg \<Rightarrow> string \<Rightarrow> ('w, error) state"
  Page_Content :: "'pg \<Rightarrow> ('w, string \<times> error) state"
  Page_Screenshot :: "'pg \<Rightarrow> ('w, string \<times> error) state"
  Page_URL :: "'pg \<Rightarrow> ('w, string) state"

record ('pw, 'br, 'pg) PlaywrightDriver =
  pwd_Headless :: bool
  pwd_pw :: "'pw option"
  pwd_browser :: "'br option"
  pwd_page :: "'pg option"

definition NewPlaywrightDriver :: "bool \<Rightarrow> ('pw, 'br, 'pg) PlaywrightDriver" where
  "NewPlaywrightDriver headless =
     \<lparr>pwd_Headless = headless, pwd_pw = None, pwd_browser = None, pwd_page = None\<rparr>"

text \<open>\<open>Launch\<close> assigns the driver's fields; it returns the driver after the call.\<close>

definition Playwright_Launch ::
    "('w, 'pw, 'br, 'pg) playwright_pkg \<Rightarrow> ('pw, 'br, 'pg) PlaywrightDriver
     \<Rightarrow> ('w, error \<times> ('pw, 'br, 'pg) PlaywrightDriver) state" where
  "Playwright_Launch lib d = do {
     (pw, err) \<leftarrow> playwright_Run lib;
     case err of
       Some e \<Rightarrow> ret (Errorf ''browser: start playwright: '' e, d)
     | None \<Rightarrow> do {
         (browser, err) \<leftarrow> Chromium_Launch lib pw (pwd_Headless d);
         case err of
           Some e \<Rightarrow> do {
             _ \<leftarrow> Playwright_Stop lib pw;
             ret (Errorf ''browser: launch chromium: '' e, d)
           }
         | None \<Rightarrow> do {
             (page, err) \<leftarrow> Browser_NewPage lib browser;
             case err of
               Some e \<Rightarrow> do {
                 _ \<leftarrow> Browser_Close lib browser;
                 _ \<leftarrow> Playwright_Stop lib pw;
                 ret (Errorf ''browser: new page: '' e, d)
               }
             | None \<Rightarrow>
                 ret (None, d\<lparr>pwd_pw := Some pw, pwd_browser := Some browser, pwd_page := Some page\<rparr>)
           }
       }
   }"

definition captchaSignals :: "string list" where
  "captchaSignals = [''g-recaptcha'', ''h-captcha'', ''cf-turnstile'', ''captcha'']"

definition loginSignals :: "string list" where
  "loginSignals = [''sign in'', ''log in'', ''login'']"

fun any_signal :: "string \<Rightarrow> string list \<Rightarrow> bool" where
  "any_signal text [] = False"
| "any_signal text (signal # signals) =
     (if strings_Contains text signal then True else any_signal text signals)"

definition classify_content :: "golib \<Rightarrow> string \<Rightarrow> PageState" where
  "classify_content lib content =
     (let lower = strings_ToLower lib content
      in if any_signal lower captchaSignals then StateCaptcha
         else if length (strings_TrimSpace content) < 2000 \<and> any_signal lower loginSignals
         then StateLoginWall
         else StateNormal)"

text \<open>The methods on the page, for the page of a launched driver.\<close>

definition Playwright_DetectState ::
    "golib \<Rightarrow> ('w, 'pw, 'br, 'pg) playwright_pkg \<Rightarrow> 'pg \<Rightarrow> ('w, PageState \<times> error) state" where
  "Playwright_DetectState glib lib page = do {
     (content, err) \<leftarrow> Page_Content lib page;
     case err of
       Some e \<Rightarrow> ret (StateUnknown, Errorf ''browser: read page content: '' e)
     | None \<Rightarrow> ret (classify_content glib content, None)
   }"

definition Playwright_Navigate ::
    "golib \<Rightarrow> ('w, 'pw, 'br, 'pg) playwright_pkg \<Rightarrow> 'pg \<Rightarrow> string \<Rightarrow> ('w, PageState \<times> error) state" where
  "Playwright_Navigate glib lib page url = do {
     err \<leftarrow> Page_Goto lib page url;
     case err of
       Some e \<Rightarrow> ret (StateNavigateErr, Errorf (''browser: navigate to '' @ url @ '': '') e)
     | None \<Rightarrow> Playwright_DetectState glib lib page
   }"

fun Playwright_Fill ::
    "('w, 'pw, 'br, 'pg) playwright_pkg \<Rightarrow> 'pg \<Rightarrow> FieldValue list \<Rightarrow> ('w, error) state" where
  "Playwright_Fill lib page [] = ret None"
| "Playwright_Fill lib page (f # fvs) = do {
     err \<leftarrow> Locator_Fill lib page (field_Selector f) (field_Value f);
     case err of
       Some e \<Rightarrow> ret (Errorf (''browser: fill '' @ field_Selector f @ '': '') e)
     | None \<Rightarrow> Playwright_Fill lib page fvs
   }"

definition Playwright_Screenshot ::
    "('w, 'pw, 'br, 'pg) playwright_pkg \<Rightarrow> 'pg \<Rightarrow> ('w, Screenshot \<times> error) state" where
  "Playwright_Screenshot lib page = do {
     (data, err) \<leftarrow> Page_Screenshot lib page;
     case err of
       Some e \<Rightarrow> ret (zeroScreenshot, Errorf ''browser: screenshot: '' e)
     | None \<Rightarrow> ret (\<lparr>shot_Data = data, shot_MimeType = ''image/png''\<rparr>, None)
   }"

definition Playwright_CurrentURL ::
    "('w, 'pw, 'br, 'pg) playwright_pkg \<Rightarrow> 'pg \<Rightarrow> ('w, string \<times> error) state" where
  "Playwright_CurrentURL lib page = do { url \<leftarrow> Page_URL lib page; ret (url, None) }"

definition Playwright_Submit ::
    "golib \<Rightarrow> ('w, 'pw, 'br, 'pg) playwright_pkg \<Rightarrow> 'pg \<Rightarrow> string \<Rightarrow> ('w, PageState \<times> error) state" where
  "Playwright_Submit glib lib page selector = do {
     err \<leftarrow> Locator_Click lib page selector;
     case err of
       Some e \<Rightarrow> ret (StateUnknown, Errorf (''browser: click submit '' @ selector @ '': '') e)
     | None \<Rightarrow> Playwright_DetectState glib lib page
   }"

text \<open>\<open>%v\<close> of a slice of errors: their messages between brackets.\<close>

definition fmt_errors :: "goerror list \<Rightarrow> string" where
  "fmt_errors errs = ''['' @ strings_Join (map Error_msg errs) '' '' @ '']''"

definition close_one :: "('a \<Rightarrow> ('w, error) state) \<Rightarrow> 'a option \<Rightarrow> goerror list \<Rightarrow> ('w, goerror list) state" where
  "close_one closer handle errs =
     (case handle of
        None \<Rightarrow> ret errs
      | Some h \<Rightarrow> do { err \<leftarrow> closer h; ret (case err of Some e \<Rightarrow> errs @ [e] | None \<Rightarrow> errs) })"

definition Playwright_Close ::
    "('w, 'pw, 'br, 'pg) playwright_pkg \<Rightarrow> ('pw, 'br, 'pg) PlaywrightDriver \<Rightarrow> ('w, error) state" where
  "Playwright_Close lib d = do {
     errs \<leftarrow> close_one (Browser_Close lib) (pwd_browser d) [];
     errs \<leftarrow> close_one (Playwright_Stop lib) (pwd_pw d) errs;
     ret (if length errs > 0 then NewError (''browser: close errors: '' @ fmt_errors errs) else None)
   }"

text \<open>
  The driver as a \<open>Driver\<close>: its world is that of the library together with the fields of the
  driver, which \<open>Launch\<close> sets, and a flag for a panic.  A method on the page before a
  successful \<open>Launch\<close> is a nil dereference in Go: it panics, which the flag records, and
  nothing else happens.  A run that ends with the flag set is one the program does not
  survive, and what the model returns then (the first argument of \<open>with_page\<close>) means nothing.
\<close>

type_synonym ('w, 'pw, 'br, 'pg) pwd_world = "'w \<times> ('pw, 'br, 'pg) PlaywrightDriver \<times> bool"

abbreviation panicked :: "('w, 'pw, 'br, 'pg) pwd_world \<Rightarrow> bool" where
  "panicked v \<equiv> snd (snd v)"

definition launch_driver ::
    "(('pw, 'br, 'pg) PlaywrightDriver \<Rightarrow> ('w, error \<times> ('pw, 'br, 'pg) PlaywrightDriver) state)
     \<Rightarrow> (('w, 'pw, 'br, 'pg) pwd_world, error) state" where
  "launch_driver launch = State (\<lambda>(w, d, p). case run_state (launch d) w of ((err, d'), w') \<Rightarrow> (err, (w', d', p)))"

definition with_driver ::
    "(('pw, 'br, 'pg) PlaywrightDriver \<Rightarrow> ('w, 'a) state) \<Rightarrow> (('w, 'pw, 'br, 'pg) pwd_world, 'a) state" where
  "with_driver f = State (\<lambda>(w, d, p). case run_state (f d) w of (a, w') \<Rightarrow> (a, (w', d, p)))"

definition with_page :: "'a \<Rightarrow> ('pg \<Rightarrow> ('w, 'a) state) \<Rightarrow> (('w, 'pw, 'br, 'pg) pwd_world, 'a) state" where
  "with_page x f = State (\<lambda>(w, d, p).
     case pwd_page d of
       None \<Rightarrow> (x, (w, d, True))
     | Some page \<Rightarrow> (case run_state (f page) w of (a, w') \<Rightarrow> (a, (w', d, p))))"

definition Playwright_as_Driver ::
    "golib \<Rightarrow> ('w, 'pw, 'br, 'pg) playwright_pkg \<Rightarrow> ('w, 'pw, 'br, 'pg) pwd_world Driver" where
  "Playwright_as_Driver glib lib =
     \<lparr>drv_Launch = launch_driver (Playwright_Launch lib),
      drv_Navigate = (\<lambda>url. with_page (StateUnknown, None) (\<lambda>page. Playwright_Navigate glib lib page url)),
      drv_Fill = (\<lambda>fvs. case fvs of [] \<Rightarrow> ret None | _ \<Rightarrow> with_page None (\<lambda>page. Playwright_Fill lib page fvs)),
      drv_DetectState = with_page (StateUnknown, None) (Playwright_DetectState glib lib),
      drv_Screenshot = with_page (zeroScreenshot, None) (Playwright_Screenshot lib),
      drv_CurrentURL = with_page ([], None) (Playwright_CurrentURL lib),
      drv_Submit = (\<lambda>sel. with_page (StateUnknown, None) (\<lambda>page. Playwright_Submit glib lib page sel)),
      drv_Close = with_driver (Playwright_Close lib)\<rparr>"

lemma any_signal_iff: "any_signal text signals \<longleftrightarrow> (\<exists>s \<in> set signals. sublist s text)"
  by (induction signals) (auto simp: strings_Contains_sublist)

lemma run_with_page [simp]:
  "run_state (with_page x f) (w, d, p) = (case pwd_page d of
       None \<Rightarrow> (x, (w, d, True))
     | Some page \<Rightarrow> (case run_state (f page) w of (a, w') \<Rightarrow> (a, (w', d, p))))"
  by (simp add: with_page_def)

text \<open>The state a Playwright method reports is one of the five that its code names.\<close>

lemma DetectState_states:
  "run_state (Playwright_DetectState glib lib page) w = ((st, err), w') \<Longrightarrow>
   (err = None \<longrightarrow> st \<in> {StateNormal, StateCaptcha, StateLoginWall}) \<and> (err \<noteq> None \<longrightarrow> st = StateUnknown)"
  by (auto simp: Playwright_DetectState_def classify_content_def Let_def split: prod.splits option.splits if_splits)

lemma Submit_states:
  "run_state (Playwright_Submit glib lib page sel) w = ((st, err), w') \<Longrightarrow>
   (err = None \<longrightarrow> st \<in> {StateNormal, StateCaptcha, StateLoginWall}) \<and> (err \<noteq> None \<longrightarrow> st = StateUnknown)"
  by (auto simp: Playwright_Submit_def split: prod.splits option.splits dest: DetectState_states)

subsection \<open>What the Playwright driver starts and stops\<close>

text \<open>A log of the processes and browsers started and stopped, beside the world of any library.\<close>

datatype ('pw, 'br) browser_event = Started 'pw | Opened_browser 'br | Closed_browser 'br | Stopped 'pw

definition logged_new :: "('a \<Rightarrow> 'e) \<Rightarrow> ('w, 'a \<times> error) state \<Rightarrow> ('w \<times> 'e list, 'a \<times> error) state" where
  "logged_new ev m = State (\<lambda>(w, log). case run_state m w of
     ((a, None), w') \<Rightarrow> ((a, None), (w', log @ [ev a]))
   | ((a, Some e), w') \<Rightarrow> ((a, Some e), (w', log)))"

definition logged_end :: "'e \<Rightarrow> ('w, error) state \<Rightarrow> ('w \<times> 'e list, error) state" where
  "logged_end ev m = State (\<lambda>(w, log). case run_state m w of (err, w') \<Rightarrow> (err, (w', log @ [ev])))"

definition logged_playwright :: "('w, 'pw, 'br, 'pg) playwright_pkg
    \<Rightarrow> ('w \<times> ('pw, 'br) browser_event list, 'pw, 'br, 'pg) playwright_pkg" where
  "logged_playwright lib =
     \<lparr>playwright_Run = logged_new Started (playwright_Run lib),
      Chromium_Launch = (\<lambda>pw h. logged_new Opened_browser (Chromium_Launch lib pw h)),
      Browser_NewPage = (\<lambda>br. on_fst (Browser_NewPage lib br)),
      Browser_Close = (\<lambda>br. logged_end (Closed_browser br) (Browser_Close lib br)),
      Playwright_Stop = (\<lambda>pw. logged_end (Stopped pw) (Playwright_Stop lib pw)),
      Page_Goto = (\<lambda>pg url. on_fst (Page_Goto lib pg url)),
      Locator_Fill = (\<lambda>pg sel v. on_fst (Locator_Fill lib pg sel v)),
      Locator_Click = (\<lambda>pg sel. on_fst (Locator_Click lib pg sel)),
      Page_Content = (\<lambda>pg. on_fst (Page_Content lib pg)),
      Page_Screenshot = (\<lambda>pg. on_fst (Page_Screenshot lib pg)),
      Page_URL = (\<lambda>pg. on_fst (Page_URL lib pg))\<rparr>"

lemmas logged_playwright_defs = logged_playwright_def logged_new_def logged_end_def

lemma logged_Launch:
  assumes "run_state (Playwright_Launch (logged_playwright lib) d) (w, log) = ((err, d'), (w', log'))"
  shows "if err = None
    then (\<exists>pw br page. pwd_pw d' = Some pw \<and> pwd_browser d' = Some br \<and> pwd_page d' = Some page
      \<and> log' = log @ [Started pw, Opened_browser br])
    else d' = d \<and> (log' = log \<or> (\<exists>pw. log' = log @ [Started pw, Stopped pw])
      \<or> (\<exists>pw br. log' = log @ [Started pw, Opened_browser br, Closed_browser br, Stopped pw]))"
  using assms
  by (auto simp: Playwright_Launch_def logged_playwright_defs split: prod.splits option.splits)

lemma logged_Close:
  assumes "pwd_browser d = Some br" and "pwd_pw d = Some pw"
    and "run_state (Playwright_Close (logged_playwright lib) d) (w, log) = (err, (w', log'))"
  shows "log' = log @ [Closed_browser br, Stopped pw]
    \<and> (err = None \<longleftrightarrow> fst (run_state (Browser_Close lib br) w) = None
         \<and> fst (run_state (Playwright_Stop lib pw) (snd (run_state (Browser_Close lib br) w))) = None)"
  using assms
  by (auto simp: Playwright_Close_def close_one_def logged_playwright_defs split: prod.splits option.splits)

lemma unlaunched_Close:
  assumes "pwd_browser d = None" and "pwd_pw d = None"
  shows "run_state (Playwright_Close lib d) v = (None, v)"
  using assms by (simp add: Playwright_Close_def close_one_def)


text \<open>A library that fails to open a page with the error \<open>newpage\<close>, if there is one.\<close>

definition sample_playwright :: "error \<Rightarrow> (unit, nat, nat, nat) playwright_pkg" where
  "sample_playwright newpage =
     \<lparr>playwright_Run = ret (1, None), Chromium_Launch = (\<lambda>_ _. ret (2, None)),
      Browser_NewPage = (\<lambda>_. ret (3, newpage)), Browser_Close = (\<lambda>_. ret None), Playwright_Stop = (\<lambda>_. ret None),
      Page_Goto = (\<lambda>_ _. ret None), Locator_Fill = (\<lambda>_ _ _. ret None), Locator_Click = (\<lambda>_ _. ret None),
      Page_Content = (\<lambda>_. ret ([], None)), Page_Screenshot = (\<lambda>_. ret ([], None)),
      Page_URL = (\<lambda>_. ret ''/done'')\<rparr>"


subsection \<open>Sessions, checkpoints and their store\<close>

datatype SessionState =
    SessionQueued | SessionStarting | SessionRunning | SessionHumanReq | SessionResumed
  | SessionCompleted | SessionFailed | SessionExpired | SessionStateOther string

record Session =
  sess_ID :: string
  sess_ApplicationID :: string
  sess_Platform :: string
  sess_CurrentURL :: string
  sess_State :: SessionState
  sess_StartedAt :: Time
  sess_LastCheckpointAt :: Time
  sess_ScreenshotRef :: string
  sess_ExpiresAt :: Time
  sess_HumanRequired :: bool
  sess_FailureReason :: string
  sess_BrowserContextRef :: string

definition zeroSession :: Session where
  [zero_defs]: "zeroSession =
     \<lparr>sess_ID = [], sess_ApplicationID = [], sess_Platform = [], sess_CurrentURL = [],
      sess_State = SessionStateOther [], sess_StartedAt = zeroTime, sess_LastCheckpointAt = zeroTime,
      sess_ScreenshotRef = [], sess_ExpiresAt = zeroTime, sess_HumanRequired = False,
      sess_FailureReason = [], sess_BrowserContextRef = []\<rparr>"

definition IsExpired :: "Session \<Rightarrow> Time \<Rightarrow> bool" where
  "IsExpired s now \<longleftrightarrow> \<not> time_IsZero (sess_ExpiresAt s) \<and> time_After now (sess_ExpiresAt s)"

record Checkpoint =
  chk_ID :: string
  chk_SessionID :: string
  chk_Step :: string
  chk_CurrentURL :: string
  chk_ScreenshotRef :: string
  chk_CreatedAt :: Time

record 'w SessionStore =
  GetSession :: "string \<Rightarrow> ('w, Session \<times> error) state"
  SaveSession :: "Session \<Rightarrow> ('w, Session \<times> error) state"
  SaveCheckpoint :: "Checkpoint \<Rightarrow> ('w, Checkpoint \<times> error) state"
  ListCheckpoints :: "string \<Rightarrow> ('w, Checkpoint list \<times> error) state"
  CountStartedSince :: "Time \<Rightarrow> ('w, int \<times> error) state"

text \<open>\<open>sess_of w i\<close> is the stored session, the zero session when there is none.\<close>

locale session_store =
  fixes store :: "'w SessionStore"
    and sess_of :: "'w \<Rightarrow> string \<Rightarrow> Session"
    and checks_of :: "'w \<Rightarrow> Checkpoint list"
  assumes get_session: "run_state (GetSession store i) w = ((sess_of w i, None), w)"
    and save_session: "run_state (SaveSession store s) w = ((saved, err), w') \<Longrightarrow>
      saved = s \<and> err = None \<and> sess_of w' = (sess_of w)(sess_ID s := s) \<and> checks_of w' = checks_of w"
    and save_checkpoint: "run_state (SaveCheckpoint store c) w = ((c', err), w') \<Longrightarrow>
      err = None \<and> sess_of w' = sess_of w \<and> checks_of w' = checks_of w @ [c]"
begin

lemma get_after_save:
  "run_state (SaveSession store s) w = ((saved, err), w') \<Longrightarrow>
   run_state (GetSession store (sess_ID s)) w' = ((s, None), w')"
  by (simp add: get_session save_session)

end

record fakeSessionStore =
  fss_sessions :: "string \<rightharpoonup> Session"
  fss_checkpoints :: "Checkpoint list"
  fss_started :: "Time list"

definition newFakeSessionStore :: fakeSessionStore where
  "newFakeSessionStore = \<lparr>fss_sessions = Map.empty, fss_checkpoints = [], fss_started = []\<rparr>"

definition fss_get :: "fakeSessionStore \<Rightarrow> string \<Rightarrow> Session" where
  "fss_get s i = (case fss_sessions s i of Some sess \<Rightarrow> sess | None \<Rightarrow> zeroSession)"

definition fakeSessionStore_ops :: "fakeSessionStore SessionStore" where
  "fakeSessionStore_ops =
     \<lparr>GetSession = (\<lambda>i. State (\<lambda>s. ((fss_get s i, None), s))),
      SaveSession = (\<lambda>sess. State (\<lambda>s.
        let s1 = (if fss_sessions s (sess_ID sess) = None
                  then s\<lparr>fss_started := fss_started s @ [sess_StartedAt sess]\<rparr> else s)
        in ((sess, None), s1\<lparr>fss_sessions := (fss_sessions s1)(sess_ID sess \<mapsto> sess)\<rparr>))),
      SaveCheckpoint = (\<lambda>c. State (\<lambda>s. ((c, None), s\<lparr>fss_checkpoints := fss_checkpoints s @ [c]\<rparr>))),
      ListCheckpoints = (\<lambda>i. State (\<lambda>s. ((filter (\<lambda>c. chk_SessionID c = i) (fss_checkpoints s), None), s))),
      CountStartedSince = (\<lambda>since. State (\<lambda>s.
        ((int (length (filter (\<lambda>t. \<not> time_Before t since) (fss_started s))), None), s)))\<rparr>"

interpretation fake_sessions: session_store fakeSessionStore_ops fss_get fss_checkpoints
  by unfold_locales
     (auto simp: fakeSessionStore_ops_def fss_get_def fun_eq_iff Let_def split: if_splits)

end
