(* ===== verification/Recovery.thy ===== *)
theory Recovery
  imports Browser
begin

text \<open>
  \<open>internal/browser/recovery.go\<close>: recovery tokens.  A token is 32 random bytes in URL-safe
  base64; the store keeps the hexadecimal SHA-256 of the text.  The hash function is a
  parameter (\<open>Sum256\<close> of \<open>golib\<close>), the random source is an effect.  The locale
  \<open>token_store\<close> is what redemption relies on; the store of \<open>recovery_test.go\<close> provides it.
\<close>

section \<open>Recovery tokens\<close>

record RecoveryToken =
  tok_Raw :: string
  tok_Hash :: string
  tok_SessionID :: string
  tok_ExpiresAt :: Time

definition recoveryTokenBytes :: nat where "recoveryTokenBytes = 32"

definition HashRecoveryToken :: "golib \<Rightarrow> string \<Rightarrow> string" where
  "HashRecoveryToken lib raw = hex_EncodeToString (Sum256 lib raw)"

text \<open>\<open>rand_Read n\<close> is \<open>rand.Read\<close> on a buffer of \<open>n\<close> bytes: the buffer and the error.\<close>

definition NewRecoveryToken ::
    "golib \<Rightarrow> (nat \<Rightarrow> ('w, string \<times> error) state) \<Rightarrow> string \<Rightarrow> Time \<Rightarrow> int
     \<Rightarrow> ('w, goerror + RecoveryToken) state" where
  "NewRecoveryToken lib rand_Read sessionID now ttl = do {
     (buf, err) \<leftarrow> rand_Read recoveryTokenBytes;
     case err of
       Some e \<Rightarrow> ret (Inl (WrapError ''browser: generate recovery token: '' e))
     | None \<Rightarrow>
         ret (Inr (let raw = b64_RawURL buf
                   in \<lparr>tok_Raw = raw, tok_Hash = HashRecoveryToken lib raw, tok_SessionID = sessionID,
                       tok_ExpiresAt = time_Add now ttl\<rparr>))
   }"

record 'w RecoveryTokenStore =
  SaveTokenHash :: "string \<Rightarrow> string \<Rightarrow> Time \<Rightarrow> ('w, error) state"
  LookupByHash :: "string \<Rightarrow> Time \<Rightarrow> ('w, string \<times> bool \<times> error) state"
  RevokeByHash :: "string \<Rightarrow> ('w, error) state"

definition Redeem ::
    "golib \<Rightarrow> 'w RecoveryTokenStore \<Rightarrow> string \<Rightarrow> Time \<Rightarrow> ('w, goerror + string) state" where
  "Redeem lib store rawToken now = do {
     let hash = HashRecoveryToken lib rawToken;
     (sessionID, ok, err) \<leftarrow> LookupByHash store hash now;
     case err of
       Some e \<Rightarrow> ret (Inl (WrapError ''browser: redeem recovery token: '' e))
     | None \<Rightarrow>
         if \<not> ok then ret (Inl (ErrorString ''browser: recovery token invalid or expired''))
         else do {
           rerr \<leftarrow> RevokeByHash store hash;
           case rerr of
             Some e \<Rightarrow> ret (Inl (WrapError ''browser: revoke recovery token after redemption: '' e))
           | None \<Rightarrow> ret (Inr sessionID)
         }
   }"

subsection \<open>The contract of a token store\<close>

record tokenEntry =
  ent_sessionID :: string
  ent_expiresAt :: Time
  ent_revoked :: bool

definition zeroTokenEntry :: tokenEntry where
  [zero_defs]: "zeroTokenEntry = \<lparr>ent_sessionID = [], ent_expiresAt = zeroTime, ent_revoked = False\<rparr>"

definition entry_live :: "tokenEntry \<Rightarrow> Time \<Rightarrow> bool" where
  "entry_live e now \<longleftrightarrow> \<not> ent_revoked e \<and> \<not> time_After now (ent_expiresAt e)"

text \<open>\<open>entry_of w h\<close> is what the store keeps under the hash \<open>h\<close>.\<close>

locale token_store =
  fixes store :: "'w RecoveryTokenStore"
    and entry_of :: "'w \<Rightarrow> string \<Rightarrow> tokenEntry option"
  assumes save_token: "run_state (SaveTokenHash store h sid t) w = (err, w') \<Longrightarrow>
      err = None \<and> entry_of w' = (entry_of w)(h \<mapsto> \<lparr>ent_sessionID = sid, ent_expiresAt = t, ent_revoked = False\<rparr>)"
    and lookup_token: "run_state (LookupByHash store h now) w =
      ((case entry_of w h of
          Some e \<Rightarrow> if entry_live e now then (ent_sessionID e, True, None) else ([], False, None)
        | None \<Rightarrow> ([], False, None)), w)"
    and revoke_token: "run_state (RevokeByHash store h) w = (err, w') \<Longrightarrow> entry_of w h = Some e \<Longrightarrow>
      err = None \<and> entry_of w' = (entry_of w)(h \<mapsto> e\<lparr>ent_revoked := True\<rparr>)"
begin

definition redeemable :: "golib \<Rightarrow> 'w \<Rightarrow> string \<Rightarrow> Time \<Rightarrow> string \<Rightarrow> bool" where
  "redeemable lib w raw now sid \<longleftrightarrow>
     (\<exists>e. entry_of w (HashRecoveryToken lib raw) = Some e \<and> entry_live e now \<and> ent_sessionID e = sid)"

lemma Redeem_fails:
  assumes "\<nexists>sid. redeemable lib w raw now sid"
  shows "run_state (Redeem lib store raw now) w
    = (Inl (ErrorString ''browser: recovery token invalid or expired''), w)"
  using assms
  by (auto simp: Redeem_def lookup_token redeemable_def Let_def split: option.splits)

lemma Redeem_succeeds:
  assumes "redeemable lib w raw now sid"
  shows "\<exists>w' e. run_state (Redeem lib store raw now) w = (Inr sid, w')
    \<and> entry_of w (HashRecoveryToken lib raw) = Some e
    \<and> entry_of w' = (entry_of w)(HashRecoveryToken lib raw \<mapsto> e\<lparr>ent_revoked := True\<rparr>)"
proof -
  from assms obtain e where e: "entry_of w (HashRecoveryToken lib raw) = Some e" "entry_live e now"
    "ent_sessionID e = sid" by (auto simp: redeemable_def)
  obtain err w' where r: "run_state (RevokeByHash store (HashRecoveryToken lib raw)) w = (err, w')" by fastforce
  from revoke_token [OF r e(1)] e r show ?thesis
    by (auto simp: Redeem_def lookup_token Let_def)
qed

lemma Redeem_Inr:
  assumes "run_state (Redeem lib store raw now) w = (Inr sid, w')"
  shows "redeemable lib w raw now sid \<and> (\<nexists>sid'. redeemable lib w' raw now' sid')
    \<and> (HashRecoveryToken lib raw2 \<noteq> HashRecoveryToken lib raw
       \<longrightarrow> (redeemable lib w' raw2 now' sid2 \<longleftrightarrow> redeemable lib w raw2 now' sid2))"
proof -
  have "\<exists>sid. redeemable lib w raw now sid"
    using assms Redeem_fails [of lib w raw now] by fastforce
  then obtain s where s: "redeemable lib w raw now s" ..
  from Redeem_succeeds [OF s] assms s show ?thesis
    by (auto simp: redeemable_def entry_live_def)
qed

lemma Redeem_Inr_iff:
  "fst (run_state (Redeem lib store raw now) w) = Inr sid \<longleftrightarrow> redeemable lib w raw now sid"
proof
  assume "fst (run_state (Redeem lib store raw now) w) = Inr sid"
  then have "run_state (Redeem lib store raw now) w = (Inr sid, snd (run_state (Redeem lib store raw now) w))"
    by (metis prod.collapse)
  then show "redeemable lib w raw now sid" using Redeem_Inr by blast
next
  assume "redeemable lib w raw now sid"
  from Redeem_succeeds [OF this] show "fst (run_state (Redeem lib store raw now) w) = Inr sid" by auto
qed

lemma redeemable_after_save:
  assumes "run_state (SaveTokenHash store (HashRecoveryToken lib raw) sid t) w = (err, w')"
  shows "redeemable lib w' raw now s \<longleftrightarrow> s = sid \<and> \<not> time_After now t"
  using save_token [OF assms] by (auto simp: redeemable_def entry_live_def)

end

subsection \<open>The in-memory token store\<close>

type_synonym fakeTokenStore = "string \<rightharpoonup> tokenEntry"

definition fakeTokenStore_ops :: "fakeTokenStore RecoveryTokenStore" where
  "fakeTokenStore_ops =
     \<lparr>SaveTokenHash = (\<lambda>hash sessionID expiresAt. State (\<lambda>s.
        (None, s(hash \<mapsto> \<lparr>ent_sessionID = sessionID, ent_expiresAt = expiresAt, ent_revoked = False\<rparr>)))),
      LookupByHash = (\<lambda>hash now. State (\<lambda>s.
        (case s hash of
           None \<Rightarrow> ([], False, None)
         | Some entry \<Rightarrow>
             if ent_revoked entry \<or> time_After now (ent_expiresAt entry) then ([], False, None)
             else (ent_sessionID entry, True, None), s))),
      RevokeByHash = (\<lambda>hash. State (\<lambda>s.
        let entry = (case s hash of Some e \<Rightarrow> e | None \<Rightarrow> zeroTokenEntry)
        in (None, s(hash \<mapsto> entry\<lparr>ent_revoked := True\<rparr>))))\<rparr>"

interpretation fake_tokens: token_store fakeTokenStore_ops "\<lambda>s. s"
  by unfold_locales (auto simp: fakeTokenStore_ops_def entry_live_def Let_def split: option.splits)

subsection \<open>Properties\<close>

text \<open>
  C15. Issuing and redeeming: a fresh token has 43 characters and is never stored itself,
  only its hash under the session it was issued for; once saved it is redeemed for exactly
  that session up to and including its expiry \<open>now + ttl\<close>, and not later, whatever the
  store held before.
\<close>

theorem recovery_token_roundtrip:
  assumes "run_state (NewRecoveryToken lib rand_Read sid now ttl) w = (Inr tok, w')"
    and "length (fst (fst (run_state (rand_Read 32) w))) = 32"
    and "run_state (SaveTokenHash fakeTokenStore_ops (tok_Hash tok) (tok_SessionID tok) (tok_ExpiresAt tok)) s = (err, s1)"
  shows "length (tok_Raw tok) = 43 \<and> err = None \<and> tok_SessionID tok = sid
     \<and> s1 = s(tok_Hash tok \<mapsto> \<lparr>ent_sessionID = sid, ent_expiresAt = time_Add now ttl, ent_revoked = False\<rparr>)
     \<and> (fst (run_state (Redeem lib fakeTokenStore_ops (tok_Raw tok) later) s1) = Inr sid
          \<longleftrightarrow> nsec later \<le> nsec now + ttl)"
proof -
  obtain buf e w1 where r: "run_state (rand_Read 32) w = ((buf, e), w1)" by (metis prod.collapse)
  from assms(1) r have e: "e = None" and tok: "tok = \<lparr>tok_Raw = b64_RawURL buf,
      tok_Hash = HashRecoveryToken lib (b64_RawURL buf), tok_SessionID = sid, tok_ExpiresAt = time_Add now ttl\<rparr>"
    by (auto simp: NewRecoveryToken_def recoveryTokenBytes_def Let_def split: option.splits)
  from assms(2) r tok have len: "length (tok_Raw tok) = 43" by (simp add: length_b64)
  from assms(3) tok have s1: "run_state (SaveTokenHash fakeTokenStore_ops
      (HashRecoveryToken lib (tok_Raw tok)) sid (time_Add now ttl)) s = (err, s1)" by simp
  have "fst (run_state (Redeem lib fakeTokenStore_ops (tok_Raw tok) later) s1) = Inr sid
      \<longleftrightarrow> nsec later \<le> nsec now + ttl"
    by (simp add: fake_tokens.Redeem_Inr_iff fake_tokens.redeemable_after_save [OF s1] time_defs not_less)
  with fake_tokens.save_token [OF s1] len tok show ?thesis by simp
qed

definition sample_rand :: "nat \<Rightarrow> (unit, string \<times> error) state" where
  "sample_rand n = ret (replicate n CHR ''k'', None)"

theorem recovery_token_roundtrip_witness:
  "\<forall>lib :: golib. \<exists>tok s1. run_state (NewRecoveryToken lib sample_rand ''s1'' zeroTime 60) () = (Inr tok, ())
     \<and> fst (run_state (Redeem lib fakeTokenStore_ops (tok_Raw tok) zeroTime) s1) = Inr ''s1''
     \<and> fst (run_state (Redeem lib fakeTokenStore_ops (tok_Raw tok) (time_Add zeroTime 61)) s1) \<noteq> Inr ''s1''"
  (is "\<forall>lib. ?P lib")
proof
  fix lib :: golib
  obtain tok where tok: "run_state (NewRecoveryToken lib sample_rand ''s1'' zeroTime 60) () = (Inr tok, ())"
    by (simp add: NewRecoveryToken_def sample_rand_def)
  have len: "length (fst (fst (run_state (sample_rand 32) ()))) = 32" by (simp add: sample_rand_def)
  obtain err s1 where "run_state (SaveTokenHash fakeTokenStore_ops (tok_Hash tok) (tok_SessionID tok)
      (tok_ExpiresAt tok)) Map.empty = (err, s1)" by fastforce
  note rt = recovery_token_roundtrip [OF tok len this]
  have "fst (run_state (Redeem lib fakeTokenStore_ops (tok_Raw tok) zeroTime) s1) = Inr ''s1''"
    using rt [of zeroTime] by auto
  moreover have "fst (run_state (Redeem lib fakeTokenStore_ops (tok_Raw tok) (time_Add zeroTime 61)) s1)
      \<noteq> Inr ''s1''"
  proof -
    have "\<not> nsec (time_Add zeroTime 61) \<le> nsec zeroTime + 60" by (simp add: time_Add_def)
    with rt [of "time_Add zeroTime 61"] show ?thesis by blast
  qed
  ultimately show "?P lib" using tok by blast
qed

text \<open>
  C13. Redemption is single-use and precise: \<open>Redeem\<close> returns a session exactly when the
  store has a live entry under the hash of the token, that entry's session; a second
  redemption of the same text fails at every later or earlier time, tokens with another
  hash are redeemed as before, and a failed redemption changes nothing.
\<close>

theorem Redeem_single_use:
  "(fst (run_state (Redeem lib fakeTokenStore_ops raw now) s) = Inr sid \<longleftrightarrow>
      (\<exists>e. s (HashRecoveryToken lib raw) = Some e \<and> \<not> ent_revoked e
         \<and> \<not> time_After now (ent_expiresAt e) \<and> ent_sessionID e = sid))
   \<and> (run_state (Redeem lib fakeTokenStore_ops raw now) s = (Inl err, s') \<longrightarrow> s' = s)
   \<and> (run_state (Redeem lib fakeTokenStore_ops raw now) s = (Inr sid, s') \<longrightarrow>
        fst (run_state (Redeem lib fakeTokenStore_ops raw now') s')
          = Inl (ErrorString ''browser: recovery token invalid or expired'')
        \<and> (HashRecoveryToken lib raw2 \<noteq> HashRecoveryToken lib raw \<longrightarrow>
             fst (run_state (Redeem lib fakeTokenStore_ops raw2 now') s')
             = fst (run_state (Redeem lib fakeTokenStore_ops raw2 now') s)))"
  by (auto simp: Redeem_def fakeTokenStore_ops_def Let_def split: option.splits if_splits)

theorem Redeem_single_use_witness:
  "\<forall>lib :: golib. \<exists>s'. run_state (Redeem lib fakeTokenStore_ops ''raw'' zeroTime)
         [HashRecoveryToken lib ''raw'' \<mapsto> zeroTokenEntry] = (Inr [], s')
     \<and> fst (run_state (Redeem lib fakeTokenStore_ops ''raw'' zeroTime) s')
        = Inl (ErrorString ''browser: recovery token invalid or expired'')"
  (is "\<forall>lib. ?P lib")
proof
  fix lib :: golib
  let ?s = "[HashRecoveryToken lib ''raw'' \<mapsto> zeroTokenEntry]"
  have "?s (HashRecoveryToken lib ''raw'') = Some zeroTokenEntry \<and> \<not> ent_revoked zeroTokenEntry
      \<and> \<not> time_After zeroTime (ent_expiresAt zeroTokenEntry) \<and> ent_sessionID zeroTokenEntry = []"
    by (simp add: zeroTokenEntry_def time_defs)
  then have "fst (run_state (Redeem lib fakeTokenStore_ops ''raw'' zeroTime) ?s) = Inr []"
    using Redeem_single_use by blast
  then obtain s' where "run_state (Redeem lib fakeTokenStore_ops ''raw'' zeroTime) ?s = (Inr [], s')"
    by (metis prod.collapse)
  with Redeem_single_use show "?P lib" by blast
qed

end
