(* ===== verification/Job.thy ===== *)
theory Job
  imports Go_Lib
begin

text \<open>
  The package \<open>internal/job\<close>, first half: jobs and scores, sources, normalisation with
  the fingerprint, and deduplication against the job store.  The store interface is the
  record \<open>JobStore\<close>; the in-memory store of \<open>dedup_test.go\<close> is its implementation here,
  and the locale \<open>job_store\<close> states what ingestion relies on.
\<close>

section \<open>Jobs, normalisation and deduplication\<close>

datatype JobStatus =
    JobDiscovered | JobNormalized | JobTriaged | JobEvaluated | JobQualified | JobRejected
  | JobDuplicate | JobStatusOther string

record Job =
  job_ID :: string
  job_Source :: string
  job_SourceJobID :: string
  job_URL :: string
  job_Company :: string
  job_Title :: string
  job_Location :: string
  job_Description :: string
  job_RemotePolicy :: string
  job_RawData :: "string \<rightharpoonup> string"
  job_NormalizedHash :: string
  job_DuplicateOfID :: string
  job_Status :: JobStatus
  job_DiscoveredAt :: Time
  job_UpdatedAt :: Time

definition zeroJob :: Job where
  [zero_defs]: "zeroJob =
     \<lparr>job_ID = [], job_Source = [], job_SourceJobID = [], job_URL = [], job_Company = [],
      job_Title = [], job_Location = [], job_Description = [], job_RemotePolicy = [],
      job_RawData = Map.empty, job_NormalizedHash = [], job_DuplicateOfID = [],
      job_Status = JobStatusOther [], job_DiscoveredAt = zeroTime, job_UpdatedAt = zeroTime\<rparr>"

text \<open>A Go result \<open>(Job, bool, error)\<close> is a triple.\<close>

record 'w JobStore =
  GetJob :: "string \<Rightarrow> ('w, Job \<times> error) state"
  FindBySourceJobID :: "string \<Rightarrow> string \<Rightarrow> ('w, Job \<times> bool \<times> error) state"
  FindByNormalizedHash :: "string \<Rightarrow> ('w, Job \<times> bool \<times> error) state"
  SaveJob :: "Job \<Rightarrow> ('w, Job \<times> error) state"
  CountDiscoveredSince :: "Time \<Rightarrow> ('w, int \<times> error) state"

subsection \<open>Scores\<close>

datatype Recommendation =
    RecommendationApply | RecommendationReview | RecommendationReject | RecommendationOther string

fun string_of_Recommendation :: "Recommendation \<Rightarrow> string" where
  "string_of_Recommendation RecommendationApply = ''APPLY''"
| "string_of_Recommendation RecommendationReview = ''REVIEW''"
| "string_of_Recommendation RecommendationReject = ''REJECT''"
| "string_of_Recommendation (RecommendationOther s) = s"

record Score =
  score_Value :: int
  score_Recommendation :: Recommendation
  score_Reasons :: "string list"
  score_Concerns :: "string list"
  score_MatchedSkills :: "string list"
  score_MissingSkills :: "string list"
  score_Confidence :: string
  score_EvaluatedBy :: string

definition zeroScore :: Score where
  [zero_defs]: "zeroScore =
     \<lparr>score_Value = 0, score_Recommendation = RecommendationOther [], score_Reasons = [],
      score_Concerns = [], score_MatchedSkills = [], score_MissingSkills = [],
      score_Confidence = [], score_EvaluatedBy = []\<rparr>"

subsection \<open>Sources\<close>

record RawJob =
  raw_SourceJobID :: string
  raw_URL :: string
  raw_Company :: string
  raw_Title :: string
  raw_Location :: string
  raw_Description :: string
  raw_Fields :: "string \<rightharpoonup> string"

record 'w Source =
  src_Name :: string
  FetchJobs :: "('w, RawJob list \<times> error) state"

record MockSource =
  mock_SourceName :: string
  mock_Jobs :: "RawJob list"
  mock_Err :: error

definition MockSource_FetchJobs :: "MockSource \<Rightarrow> ('w, RawJob list \<times> error) state" where
  "MockSource_FetchJobs m = (if mock_Err m \<noteq> None then ret ([], mock_Err m) else ret (mock_Jobs m, None))"

definition MockSource_as_Source :: "MockSource \<Rightarrow> 'w Source" where
  "MockSource_as_Source m = \<lparr>src_Name = mock_SourceName m, FetchJobs = MockSource_FetchJobs m\<rparr>"

subsection \<open>Normalisation\<close>

definition normalizeText :: "string \<Rightarrow> string" where
  "normalizeText s = strings_Join (strings_Fields s) '' ''"

definition fingerprint_key :: "golib \<Rightarrow> string \<Rightarrow> string \<Rightarrow> string \<Rightarrow> string \<Rightarrow> string" where
  "fingerprint_key lib source company title location =
     strings_ToLower lib (strings_Join [source, company, title, location] ''|'')"

definition Fingerprint :: "golib \<Rightarrow> string \<Rightarrow> string \<Rightarrow> string \<Rightarrow> string \<Rightarrow> string" where
  "Fingerprint lib source company title location =
     hex_EncodeToString (Sum256 lib (fingerprint_key lib source company title location))"

definition inferRemotePolicy :: "golib \<Rightarrow> string \<Rightarrow> string \<Rightarrow> string" where
  "inferRemotePolicy lib location description =
     (let text = strings_ToLower lib (location @ '' '' @ description)
      in if strings_Contains text ''fully remote'' \<or> strings_Contains text ''100% remote''
         then ''remote''
         else if strings_Contains text ''hybrid'' then ''hybrid''
         else if strings_Contains text ''remote'' then ''remote''
         else if strings_Contains text ''on-site'' \<or> strings_Contains text ''onsite''
                 \<or> strings_Contains text ''on site''
         then ''onsite''
         else ''unspecified'')"

text \<open>
  The audit copy of the source fields.  The loop over \<open>raw.Fields\<close> stores every pair in
  the map; the keys of a map are distinct, so the result does not depend on the order.
\<close>

definition raw_data :: "RawJob \<Rightarrow> (string \<rightharpoonup> string)" where
  "raw_data raw =
     [''url'' \<mapsto> raw_URL raw, ''company'' \<mapsto> raw_Company raw, ''title'' \<mapsto> raw_Title raw,
      ''location'' \<mapsto> raw_Location raw, ''description'' \<mapsto> raw_Description raw] ++ raw_Fields raw"

definition Normalize :: "golib \<Rightarrow> string \<Rightarrow> RawJob \<Rightarrow> Job" where
  "Normalize lib source raw =
     (let company = normalizeText (raw_Company raw);
          title = normalizeText (raw_Title raw);
          location = normalizeText (raw_Location raw);
          j = zeroJob\<lparr>job_Source := source,
                      job_SourceJobID := raw_SourceJobID raw,
                      job_URL := raw_URL raw,
                      job_Company := company,
                      job_Title := title,
                      job_Location := location,
                      job_Description := raw_Description raw,
                      job_RemotePolicy := inferRemotePolicy lib location (raw_Description raw),
                      job_RawData := raw_data raw,
                      job_Status := JobNormalized\<rparr>
      in j\<lparr>job_NormalizedHash := Fingerprint lib source company title location\<rparr>)"

subsection \<open>Deduplication and ingestion\<close>

definition Deduplicate :: "'w JobStore \<Rightarrow> Job \<Rightarrow> ('w, Job \<times> bool \<times> error) state" where
  "Deduplicate store j =
     (let by_hash = do {
        (found, ok, err) \<leftarrow> FindByNormalizedHash store (job_NormalizedHash j);
        case err of
          Some e \<Rightarrow> ret (zeroJob, False, Errorf ''job: dedup by fingerprint: '' e)
        | None \<Rightarrow> if ok then ret (found, True, None) else ret (zeroJob, False, None)
      }
      in if job_SourceJobID j \<noteq> [] then do {
           (found, ok, err) \<leftarrow> FindBySourceJobID store (job_Source j) (job_SourceJobID j);
           case err of
             Some e \<Rightarrow> ret (zeroJob, False, Errorf ''job: dedup by source id: '' e)
           | None \<Rightarrow> if ok then ret (found, True, None) else by_hash
         }
         else by_hash)"

definition Ingest :: "golib \<Rightarrow> 'w JobStore \<Rightarrow> string \<Rightarrow> RawJob \<Rightarrow> ('w, goerror + Job) state" where
  "Ingest lib store source raw = do {
     let j = Normalize lib source raw;
     (existing, dup, err) \<leftarrow> Deduplicate store j;
     case err of
       Some e \<Rightarrow> ret (Inl e)
     | None \<Rightarrow>
         ret (Inr (if dup then j\<lparr>job_Status := JobDuplicate, job_DuplicateOfID := job_ID existing\<rparr>
                   else j))
   }"

subsection \<open>The contract of a job store\<close>

text \<open>
  \<open>src_of\<close> and \<open>hash_of\<close> are what a store knows under a source identity and under a
  fingerprint.  Lookups read; saving a job makes it known and forgets nothing.
\<close>

locale job_store =
  fixes store :: "'w JobStore"
    and src_of :: "'w \<Rightarrow> string \<Rightarrow> string \<Rightarrow> Job option"
    and hash_of :: "'w \<Rightarrow> string \<Rightarrow> Job option"
  assumes find_src: "run_state (FindBySourceJobID store s i) w =
      ((case src_of w s i of Some j \<Rightarrow> (j, True, None) | None \<Rightarrow> (zeroJob, False, None)), w)"
    and find_hash: "run_state (FindByNormalizedHash store h) w =
      ((case hash_of w h of Some j \<Rightarrow> (j, True, None) | None \<Rightarrow> (zeroJob, False, None)), w)"
    and save_ok: "snd (fst (run_state (SaveJob store j) w)) = None"
    and save_hash: "hash_of (snd (run_state (SaveJob store j) w)) h \<noteq> None \<longleftrightarrow>
      hash_of w h \<noteq> None \<or> h = job_NormalizedHash j"
    and save_src: "src_of w s i \<noteq> None \<Longrightarrow> src_of (snd (run_state (SaveJob store j) w)) s i \<noteq> None"
begin

definition known :: "'w \<Rightarrow> Job \<Rightarrow> Job option" where
  "known w j =
     (case (if job_SourceJobID j \<noteq> [] then src_of w (job_Source j) (job_SourceJobID j) else None) of
        Some k \<Rightarrow> Some k
      | None \<Rightarrow> hash_of w (job_NormalizedHash j))"

lemma run_Deduplicate:
  "run_state (Deduplicate store j) w =
     ((case known w j of Some k \<Rightarrow> (k, True, None) | None \<Rightarrow> (zeroJob, False, None)), w)"
  by (simp add: Deduplicate_def known_def find_src find_hash Let_def split: option.splits)

lemma run_Ingest:
  "run_state (Ingest lib store source raw) w =
     (Inr (case known w (Normalize lib source raw) of
             Some k \<Rightarrow> (Normalize lib source raw)\<lparr>job_Status := JobDuplicate, job_DuplicateOfID := job_ID k\<rparr>
           | None \<Rightarrow> Normalize lib source raw), w)"
  by (simp add: Ingest_def run_Deduplicate Let_def split: option.splits)

lemma known_saved: "job_NormalizedHash j = job_NormalizedHash k \<Longrightarrow>
    known (snd (run_state (SaveJob store j) w)) k \<noteq> None"
  using save_hash [of j w "job_NormalizedHash k"] by (auto simp: known_def split: option.splits)

lemma known_mono: "known w k \<noteq> None \<Longrightarrow> known (snd (run_state (SaveJob store j) w)) k \<noteq> None"
  using save_hash [of j w "job_NormalizedHash k"] save_src [of w "job_Source k" "job_SourceJobID k" j]
  by (auto simp: known_def split: option.splits if_splits)

end

subsection \<open>The in-memory job store\<close>

record fakeJobStore =
  fjs_bySourceID :: "string \<rightharpoonup> Job"
  fjs_byHash :: "string \<rightharpoonup> Job"
  fjs_saved :: "Job list"

definition newFakeJobStore :: fakeJobStore where
  "newFakeJobStore = \<lparr>fjs_bySourceID = Map.empty, fjs_byHash = Map.empty, fjs_saved = []\<rparr>"

definition map_get :: "(string \<rightharpoonup> Job) \<Rightarrow> string \<Rightarrow> Job \<times> bool \<times> error" where
  "map_get m k = (case m k of Some j \<Rightarrow> (j, True, None) | None \<Rightarrow> (zeroJob, False, None))"

definition fakeJobStore_Save :: "Job \<Rightarrow> fakeJobStore \<Rightarrow> (Job \<times> error) \<times> fakeJobStore" where
  "fakeJobStore_Save j0 s =
     (let j = (if job_ID j0 = [] then j0\<lparr>job_ID := ''job-'' @ strconv_Itoa (int (length (fjs_saved s)) + 1)\<rparr>
               else j0);
          s1 = s\<lparr>fjs_saved := fjs_saved s @ [j]\<rparr>;
          s2 = (if job_SourceJobID j \<noteq> []
                then s1\<lparr>fjs_bySourceID := (fjs_bySourceID s1)(job_Source j @ ''|'' @ job_SourceJobID j \<mapsto> j)\<rparr>
                else s1)
      in ((j, None), s2\<lparr>fjs_byHash := (fjs_byHash s2)(job_NormalizedHash j \<mapsto> j)\<rparr>))"

definition fakeJobStore_ops :: "fakeJobStore JobStore" where
  "fakeJobStore_ops =
     \<lparr>GetJob = (\<lambda>i. State (\<lambda>s. ((case find (\<lambda>j. job_ID j = i) (fjs_saved s) of
                                   Some j \<Rightarrow> j | None \<Rightarrow> zeroJob, None), s))),
      FindBySourceJobID = (\<lambda>src i. State (\<lambda>s. (map_get (fjs_bySourceID s) (src @ ''|'' @ i), s))),
      FindByNormalizedHash = (\<lambda>h. State (\<lambda>s. (map_get (fjs_byHash s) h, s))),
      SaveJob = (\<lambda>j. State (fakeJobStore_Save j)),
      CountDiscoveredSince = (\<lambda>since. State (\<lambda>s.
        ((int (length (filter (\<lambda>j. \<not> time_Before (job_DiscoveredAt j) since) (fjs_saved s))), None), s)))\<rparr>"

definition fjs_source :: "fakeJobStore \<Rightarrow> string \<Rightarrow> string \<Rightarrow> Job option" where
  "fjs_source s src i = fjs_bySourceID s (src @ ''|'' @ i)"

interpretation fake_jobs: job_store fakeJobStore_ops fjs_source fjs_byHash
  by unfold_locales
     (auto simp: fakeJobStore_ops_def fakeJobStore_Save_def map_get_def fjs_source_def Let_def
       split: option.splits)

subsection \<open>Lemmas on normalisation\<close>

lemma map_Join: "map f (strings_Join ws sep) = strings_Join (map (map f) ws) (map f sep)"
  by (induction ws sep rule: strings_Join.induct) auto

lemma set_Join: "set (strings_Join ws sep) \<subseteq> (\<Union>w \<in> set ws. set w) \<union> set sep"
  by (induction ws sep rule: strings_Join.induct) auto

lemma fields_from_set: "w \<in> set (fields_from cur s) \<Longrightarrow> set w \<subseteq> set cur \<union> set s"
proof (induction cur s rule: fields_from.induct)
  case (2 cur c s)
  show ?case
  proof (cases "0 < space_len (c # s)")
    case True
    have "set (drop (space_len (c # s)) (c # s)) \<subseteq> insert c (set s)"
      by (metis set_drop_subset list.simps(15))
    with 2 True show ?thesis by (auto split: if_splits)
  next
    case False
    with 2 show ?thesis by auto
  qed
qed (auto split: if_splits)

lemma Fields_set: "w \<in> set (strings_Fields s) \<Longrightarrow> set w \<subseteq> set s"
  using fields_from_set [of w "[]" s] by (simp add: strings_Fields_def)

lemma normalizeText_ascii: "list_all is_ascii s \<Longrightarrow> list_all is_ascii (normalizeText s)"
  using set_Join [of "strings_Fields s" "'' ''"] Fields_set [of _ s]
  by (fastforce simp: list_all_iff normalizeText_def is_ascii_def)

lemma ascii_lower_sep: "map ascii_lower '' '' = '' ''" "map ascii_lower ''|'' = ''|''"
  by (simp_all add: ascii_lower_def)

lemma lower_normalizeText:
  "map ascii_lower (normalizeText s) = strings_Join (map (map ascii_lower) (strings_Fields s)) '' ''"
  by (simp only: normalizeText_def map_Join ascii_lower_sep)

lemma fingerprint_key_ascii:
  assumes "list_all is_ascii source" "list_all is_ascii company" "list_all is_ascii title"
    "list_all is_ascii location"
  shows "fingerprint_key lib source company title location =
    strings_Join (map (map ascii_lower) [source, company, title, location]) ''|''"
proof -
  have "list_all is_ascii (strings_Join [source, company, title, location] ''|'')"
    using assms by (auto simp: list_all_iff is_ascii_def)
  then show ?thesis
    by (simp only: fingerprint_key_def ToLower_ascii map_Join ascii_lower_sep)
qed

lemma ascii_lower_pipe: "ascii_lower c = CHR ''|'' \<longleftrightarrow> c = CHR ''|''"
proof
  assume "ascii_lower c = CHR ''|''"
  then have "(of_char (ascii_lower c) :: nat) = 124" by simp
  then have "(of_char c :: nat) = of_char (CHR ''|'')"
    by (auto simp: of_char_ascii_lower split: if_splits)
  then show "c = CHR ''|''" by (simp only: of_char_eq_iff)
qed (simp add: ascii_lower_def)

lemma split_at_unique:
  "x \<notin> set a \<Longrightarrow> x \<notin> set b \<Longrightarrow> a @ x # r = b @ x # s \<longleftrightarrow> a = b \<and> r = s"
  by (auto simp: append_eq_append_conv2 append_eq_Cons_conv Cons_eq_append_conv)

lemma Join_pipe_inj:
  assumes "\<forall>w \<in> {a, b, c, a', b', c'}. CHR ''|'' \<notin> set w"
  shows "strings_Join [a, b, c, d] ''|'' = strings_Join [a', b', c', d'] ''|'' \<longleftrightarrow>
    a = a' \<and> b = b' \<and> c = c' \<and> d = d'"
  using assms by (simp add: split_at_unique)

subsection \<open>Properties\<close>

text \<open>
  \<open>normalizeText\<close> is a normal form: applying it twice changes nothing, two texts have
  the same normal form exactly when they have the same words, and the words of the result
  are the words of the text (for every byte sequence, with all Unicode white space).
\<close>

theorem normalizeText_normal_form:
  "normalizeText (normalizeText s) = normalizeText s
   \<and> (normalizeText s = normalizeText t \<longleftrightarrow> strings_Fields s = strings_Fields t)
   \<and> strings_Fields (normalizeText s) = strings_Fields s"
  by (metis Fields_Join_Fields normalizeText_def)

text \<open>
  The fingerprint does not see white space or ASCII case: two postings of one source
  whose company, title and location have the same words up to case get the same
  \<open>NormalizedHash\<close>, whatever the hash function.
\<close>

theorem Normalize_hash_insensitive:
  assumes "\<forall>s \<in> {source, raw_Company r, raw_Title r, raw_Location r,
                 raw_Company q, raw_Title q, raw_Location q}. list_all is_ascii s"
    and "\<forall>f \<in> {raw_Company, raw_Title, raw_Location}.
           map (map ascii_lower) (strings_Fields (f r)) = map (map ascii_lower) (strings_Fields (f q))"
  shows "job_NormalizedHash (Normalize lib source r) = job_NormalizedHash (Normalize lib source q)"
proof -
  have "fingerprint_key lib source (normalizeText (raw_Company x)) (normalizeText (raw_Title x))
          (normalizeText (raw_Location x))
        = strings_Join [map ascii_lower source, map ascii_lower (normalizeText (raw_Company x)),
            map ascii_lower (normalizeText (raw_Title x)), map ascii_lower (normalizeText (raw_Location x))] ''|''"
    if "x = r \<or> x = q" for x
    using that assms(1) by (subst fingerprint_key_ascii) (auto simp: normalizeText_ascii)
  from this [of r] this [of q] assms(2) show ?thesis
    by (simp add: Normalize_def Fingerprint_def Let_def lower_normalizeText)
qed

definition sample_raw :: "string \<Rightarrow> string \<Rightarrow> RawJob" where
  "sample_raw sid title =
     \<lparr>raw_SourceJobID = sid, raw_URL = ''u'', raw_Company = ''Acme'', raw_Title = title,
      raw_Location = ''Remote'', raw_Description = ''d'', raw_Fields = Map.empty\<rparr>"

definition sample_lib :: golib where
  "sample_lib = \<lparr>Sum256 = (\<lambda>s. s), UniLower = (\<lambda>s. s)\<rparr>"

lemma sample_words: "map (map ascii_lower) (strings_Fields ''Backend  Engineer'')
    = map (map ascii_lower) (strings_Fields '' backend engineer '')"
  by code_simp

theorem Normalize_hash_insensitive_witness:
  "job_NormalizedHash (Normalize sample_lib ''gh'' (sample_raw '''' ''Backend  Engineer''))
   = job_NormalizedHash (Normalize sample_lib ''gh'' (sample_raw '''' '' backend engineer ''))"
  using sample_words
  by (intro Normalize_hash_insensitive) (auto simp: sample_raw_def is_ascii_def)

text \<open>
  What the fingerprint key tells apart: for ASCII fields without the separator \<open>|\<close> in
  source, company and title, two keys are equal exactly when the four fields are equal up
  to ASCII case, so distinct postings collide only if the hash function does.
\<close>

theorem fingerprint_key_injective:
  assumes "\<forall>s \<in> {source, company, title, location, source', company', title', location'}.
             list_all is_ascii s"
    and "\<forall>s \<in> {source, company, title, source', company', title'}. CHR ''|'' \<notin> set s"
  shows "fingerprint_key lib source company title location
           = fingerprint_key lib source' company' title' location'
     \<longleftrightarrow> map (map ascii_lower) [source, company, title, location]
           = map (map ascii_lower) [source', company', title', location']"
proof -
  have "\<forall>w \<in> {map ascii_lower source, map ascii_lower company, map ascii_lower title,
              map ascii_lower source', map ascii_lower company', map ascii_lower title'}.
          CHR ''|'' \<notin> set w"
    using assms(2) by (auto simp: ascii_lower_pipe dest!: sym [of "CHR ''|''"])
  from Join_pipe_inj [OF this, of "map ascii_lower location" "map ascii_lower location'"] assms(1)
  show ?thesis by (simp add: fingerprint_key_ascii)
qed

theorem fingerprint_key_injective_witness:
  "\<forall>lib. fingerprint_key lib ''gh'' ''Acme'' ''Dev'' ''NYC'' \<noteq> fingerprint_key lib ''gh'' ''Acme'' ''Ops'' ''NYC''"
  using fingerprint_key_injective [of "''gh''" "''Acme''" "''Dev''" "''NYC''" "''gh''" "''Acme''" "''Ops''" "''NYC''"]
  by (simp add: is_ascii_def ascii_lower_def)

text \<open>
  The separator is not escaped: moving a \<open>|\<close> and the text after it from the end of the
  company to the front of the title leaves the fingerprint as it was, so these different
  postings are taken for duplicates of each other.
\<close>

theorem Fingerprint_separator_collision:
  "Fingerprint lib source (x @ ''|'' @ y) z location = Fingerprint lib source x (y @ ''|'' @ z) location"
  by (simp add: Fingerprint_def fingerprint_key_def)

lemma raw_data_lookup:
  "raw_data raw k =
     (case raw_Fields raw k of Some v \<Rightarrow> Some v
      | None \<Rightarrow> if k = ''description'' then Some (raw_Description raw)
                else if k = ''location'' then Some (raw_Location raw)
                else if k = ''title'' then Some (raw_Title raw)
                else if k = ''company'' then Some (raw_Company raw)
                else if k = ''url'' then Some (raw_URL raw) else None)"
  by (simp add: raw_data_def map_add_def split: option.split)

text \<open>
  The audit copy keeps the five source fields of a posting exactly when its additional
  fields do not use one of their five keys for another value; every additional field is
  kept, so a source-specific \<open>title\<close> replaces the posting's title in \<open>RawData\<close>.
\<close>

theorem Normalize_RawData:
  "(job_RawData (Normalize lib source raw) ''url'' = Some (raw_URL raw)
      \<longleftrightarrow> raw_Fields raw ''url'' \<in> {None, Some (raw_URL raw)})
   \<and> (job_RawData (Normalize lib source raw) ''company'' = Some (raw_Company raw)
      \<longleftrightarrow> raw_Fields raw ''company'' \<in> {None, Some (raw_Company raw)})
   \<and> (job_RawData (Normalize lib source raw) ''title'' = Some (raw_Title raw)
      \<longleftrightarrow> raw_Fields raw ''title'' \<in> {None, Some (raw_Title raw)})
   \<and> (job_RawData (Normalize lib source raw) ''location'' = Some (raw_Location raw)
      \<longleftrightarrow> raw_Fields raw ''location'' \<in> {None, Some (raw_Location raw)})
   \<and> (job_RawData (Normalize lib source raw) ''description'' = Some (raw_Description raw)
      \<longleftrightarrow> raw_Fields raw ''description'' \<in> {None, Some (raw_Description raw)})
   \<and> raw_Fields raw \<subseteq>\<^sub>m job_RawData (Normalize lib source raw)
   \<and> dom (job_RawData (Normalize lib source raw))
       = {''url'', ''company'', ''title'', ''location'', ''description''} \<union> dom (raw_Fields raw)"
proof -
  have "job_RawData (Normalize lib source raw) = raw_data raw"
    by (simp add: Normalize_def Let_def)
  moreover have "raw_Fields raw \<subseteq>\<^sub>m raw_data raw"
    by (simp add: raw_data_def)
  moreover have "dom (raw_data raw)
      = {''url'', ''company'', ''title'', ''location'', ''description''} \<union> dom (raw_Fields raw)"
    by (auto simp: raw_data_def)
  ultimately show ?thesis
    by (simp add: raw_data_lookup split: option.split)
qed

text \<open>
  The decision of \<open>Ingest\<close> on the in-memory store, complete: the job is the normalised
  posting; it is DUPLICATE exactly when its source identity is non-empty and known, or its
  fingerprint is known; the job it points to is the one found under the source identity,
  and only if there is none the one under the fingerprint; the store is not changed.
\<close>

lemma run_Ingest_fake:
  "run_state (Ingest lib fakeJobStore_ops source raw) s =
     (let j = Normalize lib source raw;
          by_src = (if raw_SourceJobID raw = [] then None
                    else fjs_source s source (raw_SourceJobID raw));
          by_hash = fjs_byHash s (job_NormalizedHash j)
      in (Inr (case by_src of
                 Some k \<Rightarrow> j\<lparr>job_Status := JobDuplicate, job_DuplicateOfID := job_ID k\<rparr>
               | None \<Rightarrow> (case by_hash of
                   Some k \<Rightarrow> j\<lparr>job_Status := JobDuplicate, job_DuplicateOfID := job_ID k\<rparr>
                 | None \<Rightarrow> j)), s))"
proof -
  have "job_SourceJobID (Normalize lib source raw) = raw_SourceJobID raw"
    and "job_Source (Normalize lib source raw) = source"
    by (simp_all add: Normalize_def Let_def)
  then show ?thesis
    by (auto simp: fake_jobs.run_Ingest fake_jobs.known_def Let_def split: option.splits)
qed

text \<open>
  C25. Re-discovery is recognised: once a posting has been ingested and saved, ingesting it
  again yields a DUPLICATE that names the identifier the store gave to the saved job, and
  that identifier is not empty.
\<close>

theorem Ingest_after_save:
  assumes "run_state (Ingest lib fakeJobStore_ops source raw) s = (Inr j, s1)"
    and "run_state (SaveJob fakeJobStore_ops j) s1 = ((saved, e), s2)"
  shows "\<exists>k. run_state (Ingest lib fakeJobStore_ops source raw) s2 = (Inr k, s2)
     \<and> job_Status k = JobDuplicate \<and> job_DuplicateOfID k = job_ID saved \<and> job_ID saved \<noteq> []
     \<and> e = None"
proof -
  let ?j = "Normalize lib source raw"
  have j: "job_ID j = []" "job_SourceJobID j = raw_SourceJobID raw" "job_Source j = source"
    "job_NormalizedHash j = job_NormalizedHash ?j"
    using assms(1)
    by (auto simp: run_Ingest_fake Normalize_def zeroJob_def Let_def split: option.splits)
  with assms(2) have saved: "job_ID saved \<noteq> []" "e = None"
    "fjs_byHash s2 (job_NormalizedHash ?j) = Some saved"
    "raw_SourceJobID raw \<noteq> [] \<longrightarrow> fjs_source s2 source (raw_SourceJobID raw) = Some saved"
    by (auto simp: fakeJobStore_ops_def fakeJobStore_Save_def fjs_source_def Let_def)
  then show ?thesis
    by (cases "raw_SourceJobID raw = []") (simp_all add: run_Ingest_fake Let_def)
qed

lemma Itoa_1: "strconv_Itoa 1 = ''1''"
  by code_simp

theorem Ingest_after_save_witness:
  "\<exists>k s2. run_state (Ingest sample_lib fakeJobStore_ops ''gh'' (sample_raw ''7'' ''Dev'')) s2 = (Inr k, s2)
     \<and> job_Status k = JobDuplicate \<and> job_DuplicateOfID k = ''job-1''"
proof -
  have in1: "run_state (Ingest sample_lib fakeJobStore_ops ''gh'' (sample_raw ''7'' ''Dev'')) newFakeJobStore
      = (Inr (Normalize sample_lib ''gh'' (sample_raw ''7'' ''Dev'')), newFakeJobStore)"
    by (simp add: run_Ingest_fake newFakeJobStore_def fjs_source_def Let_def)
  obtain saved e s2 where sv: "run_state (SaveJob fakeJobStore_ops
      (Normalize sample_lib ''gh'' (sample_raw ''7'' ''Dev''))) newFakeJobStore = ((saved, e), s2)"
    by (metis prod.collapse)
  moreover from this have "job_ID saved = ''job-1''"
    by (auto simp: fakeJobStore_ops_def fakeJobStore_Save_def newFakeJobStore_def Normalize_def
        zeroJob_def Itoa_1 Let_def)
  ultimately show ?thesis using Ingest_after_save [OF in1 sv] by auto
qed

text \<open>
  \<open>inferRemotePolicy\<close> on ASCII text, as the search for phrases in the lower-cased
  location and description: an explicit \<open>fully remote\<close> wins, then \<open>hybrid\<close>, then any
  \<open>remote\<close>, then the three spellings of on-site; text with none of them is unspecified.
\<close>

theorem inferRemotePolicy_decision:
  assumes "list_all is_ascii (location @ '' '' @ description)"
  defines "t \<equiv> map ascii_lower (location @ '' '' @ description)"
  shows "(inferRemotePolicy lib location description = ''hybrid''
            \<longleftrightarrow> sublist ''hybrid'' t \<and> \<not> sublist ''fully remote'' t \<and> \<not> sublist ''100% remote'' t)
     \<and> (inferRemotePolicy lib location description = ''remote''
            \<longleftrightarrow> sublist ''fully remote'' t \<or> sublist ''100% remote'' t
                \<or> sublist ''remote'' t \<and> \<not> sublist ''hybrid'' t)
     \<and> (inferRemotePolicy lib location description = ''unspecified''
            \<longleftrightarrow> \<not> (\<exists>p \<in> {''remote'', ''hybrid'', ''on-site'', ''onsite'', ''on site''}. sublist p t))"
proof -
  have "sublist ''remote'' t" if "sublist ''fully remote'' t \<or> sublist ''100% remote'' t"
  proof -
    have "sublist ''remote'' ''fully remote''" "sublist ''remote'' ''100% remote''"
      unfolding strings_Contains_sublist [symmetric] by code_simp+
    with that show ?thesis using sublist_order.order_trans by blast
  qed
  moreover have "strings_ToLower lib (location @ '' '' @ description) = t"
    unfolding t_def using assms(1) by (rule ToLower_ascii)
  ultimately show ?thesis
    by (simp add: inferRemotePolicy_def strings_Contains_sublist Let_def del: map_append)
qed

theorem inferRemotePolicy_decision_witness:
  "inferRemotePolicy lib ''Berlin'' ''Hybrid or remote'' = ''hybrid''"
proof -
  have "list_all is_ascii (''Berlin'' @ '' '' @ ''Hybrid or remote'')"
    and "sublist ''hybrid'' (map ascii_lower (''Berlin'' @ '' '' @ ''Hybrid or remote''))"
    and "\<not> sublist ''fully remote'' (map ascii_lower (''Berlin'' @ '' '' @ ''Hybrid or remote''))"
    and "\<not> sublist ''100% remote'' (map ascii_lower (''Berlin'' @ '' '' @ ''Hybrid or remote''))"
    unfolding strings_Contains_sublist [symmetric] by code_simp+
  then show ?thesis
    using inferRemotePolicy_decision [of "''Berlin''" "''Hybrid or remote''" lib] by blast
qed

end
