(* ===== verification/Candidate.thy ===== *)
theory Candidate
  imports Go_Lib
begin

text \<open>
  The package \<open>internal/candidate\<close>: the candidate profile, the claims a resume or an
  answer may draw from, and the denylist of forbidden claims.  The package keeps no state;
  its \<open>Store\<close> interface is a record of state-passing methods.
\<close>

section \<open>Candidate profile, claims and forbidden claims\<close>

subsection \<open>Profile\<close>

record ContactInfo =
  contact_FullName :: string
  contact_Email :: string
  contact_Phone :: string
  contact_Location :: string
  contact_LinkedIn :: string
  contact_GitHub :: string
  contact_Website :: string

record Education =
  edu_Institution :: string
  edu_Degree :: string
  edu_FieldOfStudy :: string
  edu_StartDate :: Time
  edu_EndDate :: Time
  edu_Notes :: string

record Employment =
  emp_Company :: string
  emp_Title :: string
  emp_StartDate :: Time
  emp_EndDate :: Time
  emp_Location :: string
  emp_Responsibilities :: "string list"
  emp_Technologies :: "string list"

record Project =
  proj_Name :: string
  proj_Description :: string
  proj_Technologies :: "string list"
  proj_URL :: string
  proj_StartDate :: Time
  proj_EndDate :: Time

record Certification =
  cert_Name :: string
  cert_Issuer :: string
  cert_IssuedDate :: Time
  cert_ExpiryDate :: Time
  cert_CredentialID :: string

record Achievement =
  ach_Description :: string
  ach_Date :: Time

record WorkAuthorization =
  wa_Country :: string
  wa_Status :: string
  wa_RequiresSponsorship :: bool
  wa_Notes :: string

record CompensationPreference =
  comp_Currency :: string
  comp_MinimumAnnual :: int
  comp_TargetAnnual :: int
  comp_Negotiable :: bool

record Preferences =
  pref_TargetRoles :: "string list"
  pref_TargetLocations :: "string list"
  pref_RemotePolicy :: string
  pref_WorkAuthorization :: WorkAuthorization
  pref_Compensation :: CompensationPreference

record Profile =
  prof_ID :: string
  prof_Version :: int
  prof_Identity :: ContactInfo
  prof_Education :: "Education list"
  prof_Employment :: "Employment list"
  prof_Projects :: "Project list"
  prof_Technologies :: "string list"
  prof_Certifications :: "Certification list"
  prof_Achievements :: "Achievement list"
  prof_Preferences :: Preferences
  prof_CreatedAt :: Time
  prof_UpdatedAt :: Time

subsection \<open>Claims\<close>

text \<open>
  Go's string enumerations are datatypes with one constructor for each constant and one
  for every other string (the zero value \<open>''''\<close> among them).
\<close>

datatype ClaimSource = SourceProfile | SourceUserApproved | ClaimSourceOther string

datatype Confidence = ConfidenceHigh | ConfidenceMedium | ConfidenceLow | ConfidenceOther string

record Claim =
  claim_ID :: string
  claim_ProfileID :: string
  claim_ProfileVersion :: int
  claim_Text :: string
  claim_Source :: ClaimSource
  claim_Confidence :: Confidence
  claim_AllowedForResume :: bool
  claim_Notes :: string
  claim_CreatedAt :: Time

record ForbiddenClaim =
  forb_ID :: string
  forb_ProfileID :: string
  forb_Text :: string
  forb_Reason :: string
  forb_CreatedAt :: Time

record 'w CandidateStore =
  GetProfile :: "string \<Rightarrow> ('w, Profile \<times> error) state"
  SaveProfile :: "Profile \<Rightarrow> ('w, Profile \<times> error) state"
  ListClaims :: "string \<Rightarrow> ('w, Claim list \<times> error) state"
  SaveClaim :: "Claim \<Rightarrow> ('w, Claim \<times> error) state"
  ListForbiddenClaims :: "string \<Rightarrow> ('w, ForbiddenClaim list \<times> error) state"
  AddForbiddenClaim :: "ForbiddenClaim \<Rightarrow> ('w, ForbiddenClaim \<times> error) state"

fun IsForbidden :: "string \<Rightarrow> ForbiddenClaim list \<Rightarrow> bool" where
  "IsForbidden text [] = False"
| "IsForbidden text (f # fs) = (if forb_Text f = text then True else IsForbidden text fs)"

lemma IsForbidden_iff: "IsForbidden text fs \<longleftrightarrow> text \<in> forb_Text ` set fs"
  by (induction fs) auto

subsection \<open>The set of claim identifiers a generated text may use\<close>

text \<open>
  The loop that fills \<open>allowedSet\<close>, written twice in the repository
  (\<open>application.Classify\<close> and \<open>resume.ValidateClaimProvenance\<close>): a Go
  \<open>map[string]bool\<close>, read with a missing key as false.
\<close>

fun fill_allowedSet :: "(string \<rightharpoonup> bool) \<Rightarrow> Claim list \<Rightarrow> (string \<rightharpoonup> bool)" where
  "fill_allowedSet m [] = m"
| "fill_allowedSet m (c # cs) =
     fill_allowedSet (if claim_AllowedForResume c then m(claim_ID c \<mapsto> True) else m) cs"

definition allowedSet :: "Claim list \<Rightarrow> (string \<rightharpoonup> bool)" where
  "allowedSet claims = fill_allowedSet Map.empty claims"

definition map_true :: "(string \<rightharpoonup> bool) \<Rightarrow> string \<Rightarrow> bool" where
  "map_true m k = (case m k of None \<Rightarrow> False | Some b \<Rightarrow> b)"

text \<open>The abstract reading: an identifier is allowed when some claim with it is.\<close>

definition claim_allowed :: "Claim list \<Rightarrow> string \<Rightarrow> bool" where
  "claim_allowed claims cid \<longleftrightarrow> (\<exists>c \<in> set claims. claim_ID c = cid \<and> claim_AllowedForResume c)"

lemma fill_allowedSet_iff:
  "map_true (fill_allowedSet m claims) cid \<longleftrightarrow> map_true m cid \<or> claim_allowed claims cid"
proof (induction claims arbitrary: m)
  case (Cons c cs)
  then show ?case by (auto simp: claim_allowed_def map_true_def)
qed (simp add: claim_allowed_def)

lemma allowedSet_iff [simp]: "map_true (allowedSet claims) cid = claim_allowed claims cid"
  by (simp add: allowedSet_def fill_allowedSet_iff) (simp add: map_true_def)

lemma claim_allowed_mono: "set cs \<subseteq> set ds \<Longrightarrow> claim_allowed cs cid \<Longrightarrow> claim_allowed ds cid"
  by (auto simp: claim_allowed_def)

end
