(* ===== verification/Latex.thy ===== *)
theory Latex
  imports Go_Lib
begin

text \<open>
  The package \<open>internal/resume/latex\<close>: rendering a template and compiling LaTeX with
  the external \<open>latexmk\<close> and \<open>pdfinfo\<close> binaries.  The \<open>text/template\<close> engine and the
  operating system are parameters; what is modelled is what the package does with them:
  the error wrapping of \<open>Render\<close>, the order of the calls of \<open>Compile\<close> with its deferred
  removal of the temporary directory, and the parse of the page count.
\<close>

section \<open>LaTeX rendering and compilation\<close>

record EmploymentEntry =
  ee_Company :: string
  ee_Title :: string
  ee_DateRange :: string
  ee_Location :: string
  ee_Responsibilities :: "string list"

record EducationEntry =
  de_Institution :: string
  de_Degree :: string
  de_FieldOfStudy :: string
  de_DateRange :: string

record ProjectEntry =
  pe_Name :: string
  pe_Description :: string
  pe_Technologies :: "string list"

record LatexData =
  data_FullName :: string
  data_Email :: string
  data_Phone :: string
  data_Location :: string
  data_LinkedIn :: string
  data_GitHub :: string
  data_Summary :: string
  data_Employment :: "EmploymentEntry list"
  data_Education :: "EducationEntry list"
  data_Projects :: "ProjectEntry list"
  data_Skills :: "string list"

text \<open>
  \<open>text/template\<close>: \<open>New(name).Delims(l, r).Parse(source)\<close> and \<open>Execute(data)\<close>, which
  yields the text it wrote to the buffer.
\<close>

record 't template_pkg =
  template_Parse :: "string \<Rightarrow> string \<times> string \<Rightarrow> string \<Rightarrow> goerror + 't"
  template_Execute :: "'t \<Rightarrow> LatexData \<Rightarrow> goerror + string"

definition Render :: "'t template_pkg \<Rightarrow> string \<Rightarrow> string \<Rightarrow> LatexData \<Rightarrow> goerror + string" where
  "Render tp name templateSource dat =
     (case template_Parse tp name (''<<'', ''>>'') templateSource of
        Inl err \<Rightarrow> Inl (WrapError (''latex: parse template '' @ name @ '': '') err)
      | Inr tmpl \<Rightarrow>
          (case template_Execute tp tmpl dat of
             Inl err \<Rightarrow> Inl (WrapError (''latex: execute template '' @ name @ '': '') err)
           | Inr out \<Rightarrow> Inr out))"

subsection \<open>Compilation\<close>

record CompileResult =
  res_PDF :: string
  res_PageCount :: int

definition zeroCompileResult :: CompileResult where
  [zero_defs]: "zeroCompileResult = \<lparr>res_PDF = [], res_PageCount = 0\<rparr>"

record 'w Compiler =
  Compile :: "string \<Rightarrow> ('w, CompileResult \<times> error) state"

record LatexmkCompiler =
  lc_Binary :: string

definition NewLatexmkCompiler :: LatexmkCompiler where
  "NewLatexmkCompiler = \<lparr>lc_Binary = ''latexmk''\<rparr>"

definition lc_binary :: "LatexmkCompiler \<Rightarrow> string" where
  "lc_binary c = (if lc_Binary c \<noteq> [] then lc_Binary c else ''latexmk'')"

record 'w latex_os =
  os_MkdirTemp :: "string \<Rightarrow> string \<Rightarrow> ('w, string \<times> error) state"
  os_RemoveAll :: "string \<Rightarrow> ('w, error) state"
  os_WriteFile :: "string \<Rightarrow> string \<Rightarrow> ('w, error) state"
  os_ReadFile :: "string \<Rightarrow> ('w, string \<times> error) state"
  exec_CombinedOutput :: "string \<Rightarrow> string list \<Rightarrow> ('w, string \<times> error) state"
  exec_Output :: "string \<Rightarrow> string list \<Rightarrow> ('w, string \<times> error) state"
  filepath_Join :: "string \<Rightarrow> string \<Rightarrow> string"

text \<open>The loop of \<open>countPDFPages\<close> over the lines that \<open>pdfinfo\<close> printed.\<close>

fun pages_of_lines :: "string list \<Rightarrow> goerror + int" where
  "pages_of_lines [] = Inl (ErrorString ''pdfinfo output missing Pages line'')"
| "pages_of_lines (line # rest) =
     (case strings_CutPrefix line ''Pages:'' of
        None \<Rightarrow> pages_of_lines rest
      | Some after \<Rightarrow>
          (case strconv_Atoi (strings_TrimSpace after) of
             Inl err \<Rightarrow>
               Inl (WrapError (''parse pdfinfo Pages line '' @ strconv_Quote line @ '': '') err)
           | Inr n \<Rightarrow> Inr n))"

definition countPDFPages :: "'w latex_os \<Rightarrow> string \<Rightarrow> ('w, goerror + int) state" where
  "countPDFPages os pdfPath = do {
     (output, err) \<leftarrow> exec_Output os ''pdfinfo'' [pdfPath];
     case err of
       Some e \<Rightarrow> ret (Inl (WrapError ''run pdfinfo: '' e))
     | None \<Rightarrow> ret (pages_of_lines (strings_Split output (CHR 0x0A)))
   }"

text \<open>The part of \<open>Compile\<close> after the deferred \<open>os.RemoveAll\<close> is registered.\<close>

definition compile_in ::
    "'w latex_os \<Rightarrow> LatexmkCompiler \<Rightarrow> string \<Rightarrow> string \<Rightarrow> ('w, CompileResult \<times> error) state" where
  "compile_in os c dir texSource = do {
     let texPath = filepath_Join os dir ''resume.tex'';
     werr \<leftarrow> os_WriteFile os texPath texSource;
     case werr of
       Some e \<Rightarrow> ret (zeroCompileResult, Errorf ''latex: write source: '' e)
     | None \<Rightarrow> do {
         (output, err) \<leftarrow> exec_CombinedOutput os (lc_binary c)
            [''-interaction=nonstopmode'', ''-halt-on-error'', ''-pdf'', ''-outdir='' @ dir, texPath];
         case err of
           Some e \<Rightarrow>
             ret (zeroCompileResult,
                  Some (WrapErrorTail ''latex: compile failed: '' e (CHR 0x0A # output)))
         | None \<Rightarrow> do {
             let pdfPath = filepath_Join os dir ''resume.pdf'';
             (pdf, rerr) \<leftarrow> os_ReadFile os pdfPath;
             case rerr of
               Some e \<Rightarrow> ret (zeroCompileResult, Errorf ''latex: read compiled pdf: '' e)
             | None \<Rightarrow> do {
                 pages \<leftarrow> countPDFPages os pdfPath;
                 case pages of
                   Inl e \<Rightarrow> ret (zeroCompileResult, Errorf ''latex: count pages: '' e)
                 | Inr n \<Rightarrow> ret (\<lparr>res_PDF = pdf, res_PageCount = n\<rparr>, nil_err)
               }
           }
       }
   }"

definition Latexmk_Compile ::
    "'w latex_os \<Rightarrow> LatexmkCompiler \<Rightarrow> string \<Rightarrow> ('w, CompileResult \<times> error) state" where
  "Latexmk_Compile os c texSource = do {
     (dir, err) \<leftarrow> os_MkdirTemp os '''' ''careerpilot-resume-*'';
     case err of
       Some e \<Rightarrow> ret (zeroCompileResult, Errorf ''latex: create temp dir: '' e)
     | None \<Rightarrow> do {
         r \<leftarrow> compile_in os c dir texSource;
         _ \<leftarrow> os_RemoveAll os dir;
         ret r
       }
   }"

definition LatexmkCompiler_as_Compiler :: "'w latex_os \<Rightarrow> LatexmkCompiler \<Rightarrow> 'w Compiler" where
  "LatexmkCompiler_as_Compiler os c = \<lparr>Compile = Latexmk_Compile os c\<rparr>"

subsection \<open>What the page parser accepts\<close>

lemma pages_of_lines_skip:
  "\<forall>l \<in> set pre. \<not> prefix ''Pages:'' l \<Longrightarrow> pages_of_lines (pre @ ls) = pages_of_lines ls"
  by (induction pre) (simp_all add: strings_CutPrefix_def)

lemma pages_of_lines_Inr:
  "pages_of_lines ls = Inr n \<longleftrightarrow>
   (\<exists>pre rest post. ls = pre @ (''Pages:'' @ rest) # post \<and> (\<forall>l \<in> set pre. \<not> prefix ''Pages:'' l)
      \<and> strconv_Atoi (strings_TrimSpace rest) = Inr n)"
  (is "_ \<longleftrightarrow> ?R ls")
proof
  show "pages_of_lines ls = Inr n \<Longrightarrow> ?R ls"
  proof (induction ls)
    case (Cons l ls)
    show ?case
    proof (cases "prefix ''Pages:'' l")
      case True
      then obtain rest where l: "l = ''Pages:'' @ rest" by (auto simp: prefix_def)
      with Cons.prems have "strconv_Atoi (strings_TrimSpace rest) = Inr n"
        by (auto simp: strings_CutPrefix_def split: sum.splits)
      with l show ?thesis
        by - (rule exI [of _ "[]"], rule exI [of _ rest], rule exI [of _ ls], simp)
    next
      case False
      with Cons obtain pre rest post where "ls = pre @ (''Pages:'' @ rest) # post"
        "\<forall>l \<in> set pre. \<not> prefix ''Pages:'' l" "strconv_Atoi (strings_TrimSpace rest) = Inr n"
        by (auto simp: strings_CutPrefix_def)
      with False show ?thesis
        by - (rule exI [of _ "l # pre"], rule exI [of _ rest], rule exI [of _ post], simp)
    qed
  qed simp
qed (auto simp: pages_of_lines_skip strings_CutPrefix_def)

lemma compile_in_page_count:
  "run_state (compile_in os c dir tex) w = ((r, None), w') \<Longrightarrow>
   \<exists>w1 out w2. run_state (exec_Output os ''pdfinfo'' [filepath_Join os dir ''resume.pdf'']) w1
                 = ((out, None), w2)
     \<and> pages_of_lines (strings_Split out (CHR 0x0A)) = Inr (res_PageCount r)"
  by (auto simp: compile_in_def countPDFPages_def Let_def
      split: prod.splits option.splits sum.splits) blast

end
