(* ===== verification/Resume.thy ===== *)
theory Resume
  imports Candidate Latex
begin

text \<open>
  The package \<open>internal/resume\<close>: the version record, its status machine, the one-page
  validation, the generation pipeline (render, compile, validate) and the two human
  decisions.  \<open>Generate\<close>, \<open>Approve\<close> and \<open>Reject\<close> are the only operations that change
  a status; \<open>produced\<close> collects the versions they can yield.
\<close>

section \<open>Resume versions\<close>

datatype VariantType = VariantSoftwareEngineer | VariantFDE | VariantOther string

fun string_of_VariantType :: "VariantType \<Rightarrow> string" where
  "string_of_VariantType VariantSoftwareEngineer = ''software-engineer''"
| "string_of_VariantType VariantFDE = ''fde''"
| "string_of_VariantType (VariantOther s) = s"

datatype ResumeStatus =
    ResumeDraft | ResumeGenerated | ResumeValidated | ResumeReview | ResumeApproved
  | ResumeRejected | ResumeStatusOther string

fun string_of_ResumeStatus :: "ResumeStatus \<Rightarrow> string" where
  "string_of_ResumeStatus ResumeDraft = ''DRAFT''"
| "string_of_ResumeStatus ResumeGenerated = ''GENERATED''"
| "string_of_ResumeStatus ResumeValidated = ''VALIDATED''"
| "string_of_ResumeStatus ResumeReview = ''REVIEW''"
| "string_of_ResumeStatus ResumeApproved = ''APPROVED''"
| "string_of_ResumeStatus ResumeRejected = ''REJECTED''"
| "string_of_ResumeStatus (ResumeStatusOther s) = s"

text \<open>A status that is no key of the Go map has the nil slice of successors.\<close>

fun resume_validTransitions :: "ResumeStatus \<Rightarrow> ResumeStatus list" where
  "resume_validTransitions ResumeDraft = [ResumeGenerated]"
| "resume_validTransitions ResumeGenerated = [ResumeValidated, ResumeReview]"
| "resume_validTransitions ResumeValidated = [ResumeReview, ResumeApproved]"
| "resume_validTransitions ResumeReview = [ResumeApproved, ResumeRejected, ResumeGenerated]"
| "resume_validTransitions ResumeApproved = []"
| "resume_validTransitions ResumeRejected = []"
| "resume_validTransitions (ResumeStatusOther s) = []"

definition resume_ValidTransition :: "ResumeStatus \<Rightarrow> ResumeStatus \<Rightarrow> bool" where
  "resume_ValidTransition from to = for_edges (resume_validTransitions from) to"

interpretation resume_sm: status_machine resume_validTransitions resume_ValidTransition
  by unfold_locales (simp add: resume_ValidTransition_def for_edges_iff)

record Change =
  chg_Description :: string
  chg_ClaimIDs :: "string list"

record ValidationResult =
  val_Passed :: bool
  val_PageCount :: int
  val_Reasons :: "string list"

record Version =
  ver_ID :: string
  ver_ProfileID :: string
  ver_ProfileVersion :: int
  ver_Variant :: VariantType
  ver_VersionNumber :: int
  ver_TargetRole :: string
  ver_JobID :: string
  ver_SourceTeX :: string
  ver_GeneratedPDF :: string
  ver_PageCount :: int
  ver_Changes :: "Change list"
  ver_Status :: ResumeStatus
  ver_Validation :: "ValidationResult option"
  ver_CreatedAt :: Time
  ver_ApprovedAt :: Time

record 'w ResumeStore =
  GetVersion :: "string \<Rightarrow> ('w, Version \<times> error) state"
  ListVersions :: "string \<Rightarrow> VariantType \<Rightarrow> ('w, Version list \<times> error) state"
  LatestApproved :: "string \<Rightarrow> VariantType \<Rightarrow> ('w, Version \<times> error) state"
  SaveVersion :: "Version \<Rightarrow> ('w, Version \<times> error) state"

subsection \<open>Page validation\<close>

definition maxPageCount :: int where "maxPageCount = 1"

definition ValidatePageCount :: "int \<Rightarrow> ValidationResult" where
  "ValidatePageCount pageCount =
     (if pageCount \<le> 0 then
        \<lparr>val_Passed = False, val_PageCount = pageCount,
         val_Reasons = [''page count could not be determined'']\<rparr>
      else if pageCount > maxPageCount then
        \<lparr>val_Passed = False, val_PageCount = pageCount,
         val_Reasons =
           [''resume exceeds one page'',
            ''reduce content (remove low-value bullets, shorten wording, tighten spacing) and recompile'',
            ''do not reduce font size below the template's established minimum'']\<rparr>
      else
        \<lparr>val_Passed = True, val_PageCount = pageCount, val_Reasons = []\<rparr>)"

lemma ValidatePageCount_iff [simp]:
  "val_Passed (ValidatePageCount n) \<longleftrightarrow> n = 1"
  "val_PageCount (ValidatePageCount n) = n"
  "val_Reasons (ValidatePageCount n) = [] \<longleftrightarrow> n = 1"
  by (auto simp: ValidatePageCount_def maxPageCount_def)

subsection \<open>The generation pipeline\<close>

record GenerateInput =
  gen_ProfileID :: string
  gen_ProfileVersion :: int
  gen_Variant :: VariantType
  gen_VersionNumber :: int
  gen_TargetRole :: string
  gen_JobID :: string
  gen_TemplateName :: string
  gen_TemplateSource :: string
  gen_Data :: LatexData
  gen_Changes :: "Change list"

record 'w ResumePipeline =
  rp_Compiler :: "'w Compiler"

definition NewResumePipeline :: "'w Compiler \<Rightarrow> 'w ResumePipeline" where
  "NewResumePipeline compiler = \<lparr>rp_Compiler = compiler\<rparr>"

text \<open>\<open>now\<close> is the effect of \<open>time.Now()\<close>; \<open>tp\<close> is the template engine.\<close>

definition Generate ::
    "'t template_pkg \<Rightarrow> ('w, Time) state \<Rightarrow> 'w ResumePipeline \<Rightarrow> GenerateInput
     \<Rightarrow> ('w, goerror + Version) state" where
  "Generate tp now p inp =
     (case Render tp (gen_TemplateName inp) (gen_TemplateSource inp) (gen_Data inp) of
        Inl err \<Rightarrow> ret (Inl (WrapError ''resume: render: '' err))
      | Inr texSource \<Rightarrow> do {
          t \<leftarrow> now;
          let v = \<lparr>ver_ID = [], ver_ProfileID = gen_ProfileID inp,
                   ver_ProfileVersion = gen_ProfileVersion inp,
                   ver_Variant = gen_Variant inp, ver_VersionNumber = gen_VersionNumber inp,
                   ver_TargetRole = gen_TargetRole inp, ver_JobID = gen_JobID inp,
                   ver_SourceTeX = texSource, ver_GeneratedPDF = [], ver_PageCount = 0,
                   ver_Changes = gen_Changes inp, ver_Status = ResumeDraft,
                   ver_Validation = None, ver_CreatedAt = t, ver_ApprovedAt = zeroTime\<rparr>;
          (result, cerr) \<leftarrow> Compile (rp_Compiler p) texSource;
          case cerr of
            Some e \<Rightarrow> ret (Inl (WrapError ''resume: compile: '' e))
          | None \<Rightarrow> do {
              let v = v\<lparr>ver_GeneratedPDF := res_PDF result, ver_PageCount := res_PageCount result,
                        ver_Status := ResumeGenerated\<rparr>;
              let validation = ValidatePageCount (res_PageCount result);
              let v = v\<lparr>ver_Validation := Some validation\<rparr>;
              ret (Inr (if val_Passed validation then v\<lparr>ver_Status := ResumeValidated\<rparr>
                        else v\<lparr>ver_Status := ResumeReview\<rparr>))
            }
        })"

definition Approve :: "('w, Time) state \<Rightarrow> Version \<Rightarrow> ('w, goerror + Version) state" where
  "Approve now v =
     (if \<not> resume_ValidTransition (ver_Status v) ResumeApproved then
        ret (Inl (ErrorString (''resume: cannot approve version in status ''
                                @ string_of_ResumeStatus (ver_Status v))))
      else do {
        t \<leftarrow> now;
        ret (Inr (v\<lparr>ver_Status := ResumeApproved, ver_ApprovedAt := t\<rparr>))
      })"

definition Reject :: "Version \<Rightarrow> goerror + Version" where
  "Reject v =
     (if \<not> resume_ValidTransition (ver_Status v) ResumeRejected then
        Inl (ErrorString (''resume: cannot reject version in status ''
                           @ string_of_ResumeStatus (ver_Status v)))
      else Inr (v\<lparr>ver_Status := ResumeRejected\<rparr>))"

subsection \<open>Claim provenance\<close>

fun missing_of_change :: "(string \<rightharpoonup> bool) \<Rightarrow> string list \<Rightarrow> string list \<Rightarrow> string list" where
  "missing_of_change m missing [] = missing"
| "missing_of_change m missing (cid # cids) =
     missing_of_change m (if \<not> map_true m cid then missing @ [cid] else missing) cids"

fun missing_of_changes :: "(string \<rightharpoonup> bool) \<Rightarrow> string list \<Rightarrow> Change list \<Rightarrow> string list" where
  "missing_of_changes m missing [] = missing"
| "missing_of_changes m missing (c # cs) =
     missing_of_changes m (missing_of_change m missing (chg_ClaimIDs c)) cs"

definition ValidateClaimProvenance :: "Change list \<Rightarrow> Claim list \<Rightarrow> string list" where
  "ValidateClaimProvenance changes allowed = missing_of_changes (allowedSet allowed) [] changes"

lemma missing_of_change_eq:
  "missing_of_change m acc cids = acc @ filter (\<lambda>c. \<not> map_true m c) cids"
  by (induction cids arbitrary: acc) auto

lemma missing_of_changes_eq:
  "missing_of_changes m acc cs =
   acc @ filter (\<lambda>c. \<not> map_true m c) (concat (map chg_ClaimIDs cs))"
  by (induction cs arbitrary: acc) (auto simp: missing_of_change_eq)

lemma ValidateClaimProvenance_eq:
  "ValidateClaimProvenance changes allowed =
   filter (\<lambda>c. \<not> claim_allowed allowed c) (concat (map chg_ClaimIDs changes))"
  by (simp add: ValidateClaimProvenance_def missing_of_changes_eq)

subsection \<open>Behaviour of the operations\<close>

lemma Generate_Inr:
  assumes "run_state (Generate tp now p inp) w = (Inr v, w')"
  shows "\<exists>tex t w1 r.
     Render tp (gen_TemplateName inp) (gen_TemplateSource inp) (gen_Data inp) = Inr tex
     \<and> run_state now w = (t, w1) \<and> run_state (Compile (rp_Compiler p) tex) w1 = ((r, None), w')
     \<and> ver_SourceTeX v = tex \<and> ver_Changes v = gen_Changes inp \<and> ver_CreatedAt v = t
     \<and> ver_GeneratedPDF v = res_PDF r \<and> ver_PageCount v = res_PageCount r
     \<and> ver_Validation v = Some (ValidatePageCount (res_PageCount r))
     \<and> ver_Status v = (if res_PageCount r = 1 then ResumeValidated else ResumeReview)"
proof -
  from assms obtain tex where R:
    "Render tp (gen_TemplateName inp) (gen_TemplateSource inp) (gen_Data inp) = Inr tex"
    by (cases "Render tp (gen_TemplateName inp) (gen_TemplateSource inp) (gen_Data inp)")
       (simp_all add: Generate_def)
  obtain t w1 where N: "run_state now w = (t, w1)" by fastforce
  obtain r e w2 where C: "run_state (Compile (rp_Compiler p) tex) w1 = ((r, e), w2)"
    by (metis prod.collapse)
  from assms R N C show ?thesis
    by (cases e) (auto simp: Generate_def Let_def)
qed

lemma Approve_Inr:
  "run_state (Approve now v) w = (Inr v', w') \<longleftrightarrow>
   ver_Status v \<in> {ResumeValidated, ResumeReview} \<and>
   (\<exists>t. run_state now w = (t, w') \<and> v' = v\<lparr>ver_Status := ResumeApproved, ver_ApprovedAt := t\<rparr>)"
  by (cases "ver_Status v")
     (auto simp: Approve_def resume_ValidTransition_def split: prod.splits)

lemma Reject_Inr:
  "Reject v = Inr v' \<longleftrightarrow> ver_Status v = ResumeReview \<and> v' = v\<lparr>ver_Status := ResumeRejected\<rparr>"
  by (cases "ver_Status v") (auto simp: Reject_def resume_ValidTransition_def)

text \<open>The versions the package can yield; the store only assigns the identifier.\<close>

inductive produced ::
    "'t template_pkg \<Rightarrow> ('w, Time) state \<Rightarrow> 'w ResumePipeline \<Rightarrow> Version \<Rightarrow> bool"
  for tp now p where
  produced_Generate: "run_state (Generate tp now p inp) w = (Inr v, w') \<Longrightarrow> produced tp now p v"
| produced_Approve:
    "produced tp now p v \<Longrightarrow> run_state (Approve now v) w = (Inr v', w') \<Longrightarrow> produced tp now p v'"
| produced_Reject: "produced tp now p v \<Longrightarrow> Reject v = Inr v' \<Longrightarrow> produced tp now p v'"
| produced_saved: "produced tp now p v \<Longrightarrow> produced tp now p (v\<lparr>ver_ID := i\<rparr>)"

definition version_inv :: "Version \<Rightarrow> bool" where
  "version_inv v \<longleftrightarrow>
     ver_Validation v = Some (ValidatePageCount (ver_PageCount v))
     \<and> ver_Status v \<in> {ResumeValidated, ResumeReview, ResumeApproved, ResumeRejected}
     \<and> (ver_Status v = ResumeValidated \<longrightarrow> ver_PageCount v = 1)
     \<and> (ver_Status v \<in> {ResumeReview, ResumeRejected} \<longrightarrow> ver_PageCount v \<noteq> 1)"

lemma produced_inv:
  assumes "produced tp now p v"
  shows "version_inv v"
  using assms
proof (induction rule: produced.induct)
  case (produced_Generate inp w v w')
  then show ?case by (auto simp: version_inv_def dest!: Generate_Inr split: if_splits)
next
  case (produced_Approve v w v' w')
  then show ?case by (auto simp: version_inv_def Approve_Inr)
next
  case (produced_Reject v v')
  then show ?case by (auto simp: version_inv_def Reject_Inr)
next
  case (produced_saved v i)
  then show ?case by (simp add: version_inv_def)
qed

subsection \<open>A pipeline to evaluate\<close>

definition sample_template_pkg :: "string template_pkg" where
  "sample_template_pkg =
     \<lparr>template_Parse = (\<lambda>_ _ src. Inr src), template_Execute = (\<lambda>t d. Inr (t @ data_FullName d))\<rparr>"

definition sample_now :: "(int, Time) state" where
  "sample_now = State (\<lambda>w. (\<lparr>nsec = w, zone_off = 0\<rparr>, w + 1))"

definition sample_compiler :: "int \<Rightarrow> int Compiler" where
  "sample_compiler pages = \<lparr>Compile = (\<lambda>tex. ret (\<lparr>res_PDF = tex, res_PageCount = pages\<rparr>, None))\<rparr>"

definition sample_input :: GenerateInput where
  "sample_input =
     \<lparr>gen_ProfileID = ''p'', gen_ProfileVersion = 1, gen_Variant = VariantFDE, gen_VersionNumber = 3,
      gen_TargetRole = [], gen_JobID = [], gen_TemplateName = ''base'', gen_TemplateSource = ''tex '',
      gen_Data = \<lparr>data_FullName = ''Ada'', data_Email = [], data_Phone = [], data_Location = [],
                  data_LinkedIn = [], data_GitHub = [], data_Summary = [], data_Employment = [],
                  data_Education = [], data_Projects = [], data_Skills = []\<rparr>,
      gen_Changes = []\<rparr>"

lemmas sample_resume_defs =
  sample_template_pkg_def sample_now_def sample_compiler_def sample_input_def
  NewResumePipeline_def Render_def Generate_def

subsection \<open>Properties\<close>

text \<open>
  C27. \<open>Generate\<close> on success: the version carries the rendered source and the compiler's
  PDF and page count, its status is reached from DRAFT through GENERATED along allowed
  edges, and it is VALIDATED exactly when the compiled document has one page and REVIEW
  otherwise, with the validation result recorded; the compiler ran once, on that source.
\<close>

theorem Generate_correct:
  assumes "run_state (Generate tp now p inp) w = (Inr v, w')"
  shows "Render tp (gen_TemplateName inp) (gen_TemplateSource inp) (gen_Data inp)
           = Inr (ver_SourceTeX v)
    \<and> successively resume_ValidTransition [ResumeDraft, ResumeGenerated, ver_Status v]
    \<and> (ver_Status v = ResumeValidated \<longleftrightarrow> ver_PageCount v = 1)
    \<and> (ver_Status v = ResumeReview \<longleftrightarrow> ver_PageCount v \<noteq> 1)
    \<and> ver_Validation v = Some (ValidatePageCount (ver_PageCount v))
    \<and> run_state (Compile (rp_Compiler p) (ver_SourceTeX v)) (snd (run_state now w))
        = ((\<lparr>res_PDF = ver_GeneratedPDF v, res_PageCount = ver_PageCount v\<rparr>, None), w')"
proof -
  from Generate_Inr [OF assms] obtain t w1 r where
    "run_state now w = (t, w1)"
    "run_state (Compile (rp_Compiler p) (ver_SourceTeX v)) w1 = ((r, None), w')"
    "ver_GeneratedPDF v = res_PDF r" "ver_PageCount v = res_PageCount r"
    "ver_Status v = (if res_PageCount r = 1 then ResumeValidated else ResumeReview)"
    by auto
  with Generate_Inr [OF assms] show ?thesis
    by (cases r) (auto simp: resume_ValidTransition_def split: if_splits)
qed

theorem Generate_correct_witness:
  "\<exists>v w'. run_state (Generate sample_template_pkg sample_now
                     (NewResumePipeline (sample_compiler 1)) sample_input) 0 = (Inr v, w')
     \<and> ver_Status v = ResumeValidated \<and> ver_SourceTeX v = ''tex Ada''"
proof -
  let ?m = "Generate sample_template_pkg sample_now
              (NewResumePipeline (sample_compiler 1)) sample_input"
  obtain v w' where run: "run_state ?m 0 = (Inr v, w')" and pc: "ver_PageCount v = 1"
    by (simp add: sample_resume_defs Let_def)
  from Generate_correct [OF run] pc run show ?thesis
    by (auto simp: sample_template_pkg_def sample_input_def Render_def)
qed

text \<open>
  C26. The invariant of every version the package can yield (by generating, approving,
  rejecting, and the store assigning an identifier): its validation is the one of its own
  page count, VALIDATED means one page, and only a document that failed the validation is
  ever in REVIEW or REJECTED.
\<close>

theorem produced_version_inv:
  assumes "produced tp now p v"
  shows "version_inv v"
  using assms by (rule produced_inv)

theorem produced_version_inv_witness:
  "\<exists>v. produced sample_template_pkg sample_now (NewResumePipeline (sample_compiler 2)) v
     \<and> ver_Status v = ResumeReview \<and> version_inv v"
proof -
  let ?p = "NewResumePipeline (sample_compiler 2)"
  obtain v w' where run: "run_state (Generate sample_template_pkg sample_now ?p sample_input) 0
      = (Inr v, w')" and st: "ver_Status v = ResumeReview"
    by (simp add: sample_resume_defs Let_def)
  from run have "produced sample_template_pkg sample_now ?p v" by (rule produced_Generate)
  with st produced_version_inv show ?thesis by blast
qed

text \<open>
  The status machine of resume versions: nothing leaves APPROVED or REJECTED, so a
  decided version is final, and every way from DRAFT to APPROVED goes through GENERATED
  and then through VALIDATED or REVIEW.
\<close>

theorem resume_lifecycle:
  "(\<forall>t. resume_ValidTransition\<^sup>*\<^sup>* ResumeApproved t \<longleftrightarrow> t = ResumeApproved)
   \<and> (\<forall>t. resume_ValidTransition\<^sup>*\<^sup>* ResumeRejected t \<longleftrightarrow> t = ResumeRejected)
   \<and> (\<forall>ss. successively resume_ValidTransition (ResumeDraft # ss) \<longrightarrow>
        last (ResumeDraft # ss) = ResumeApproved \<longrightarrow>
        ResumeGenerated \<in> set ss \<and> (ResumeValidated \<in> set ss \<or> ResumeReview \<in> set ss))"
proof (intro conjI allI impI)
  fix ss assume succ: "successively resume_ValidTransition (ResumeDraft # ss)"
    and last: "last (ResumeDraft # ss) = ResumeApproved"
  show "ResumeGenerated \<in> set ss"
  proof (rule ccontr)
    assume "ResumeGenerated \<notin> set ss"
    then have "last (ResumeDraft # ss) = ResumeDraft"
      using resume_sm.path_closed [OF succ, of "\<lambda>s. s = ResumeDraft"] by auto
    with last show False by simp
  qed
  show "ResumeValidated \<in> set ss \<or> ResumeReview \<in> set ss"
  proof (rule ccontr)
    assume "\<not> ?thesis"
    then have "last (ResumeDraft # ss) \<in> {ResumeDraft, ResumeGenerated}"
      by (intro resume_sm.path_closed [OF succ, of "\<lambda>s. s \<in> {ResumeDraft, ResumeGenerated}"]) auto
    with last show False by simp
  qed
qed (simp_all add: resume_sm.terminal_stuck)

theorem resume_lifecycle_witness:
  "successively resume_ValidTransition [ResumeDraft, ResumeGenerated, ResumeReview, ResumeApproved]
   \<and> ResumeGenerated \<in> set [ResumeGenerated, ResumeReview, ResumeApproved]"
  using resume_lifecycle [THEN conjunct2, THEN conjunct2, rule_format,
      of "[ResumeGenerated, ResumeReview, ResumeApproved]"]
  by (simp add: resume_ValidTransition_def)

text \<open>
  \<open>ValidateClaimProvenance\<close> reports exactly the referenced claim identifiers for which
  no claim exists that is allowed for resumes, in the order and with the repetitions in
  which the changes reference them; it is empty exactly when every reference is backed.
\<close>

theorem ValidateClaimProvenance_correct:
  "ValidateClaimProvenance changes allowed
     = filter (\<lambda>i. \<not> (\<exists>c \<in> set allowed. claim_ID c = i \<and> claim_AllowedForResume c))
         (concat (map chg_ClaimIDs changes))
   \<and> (ValidateClaimProvenance changes allowed = [] \<longleftrightarrow>
      (\<Union>ch \<in> set changes. set (chg_ClaimIDs ch)) \<subseteq> claim_ID ` {c \<in> set allowed. claim_AllowedForResume c})"
  by (auto simp: ValidateClaimProvenance_eq claim_allowed_def filter_empty_conv image_iff) metis

text \<open>
  With the \<open>latexmk\<close> compiler a version is VALIDATED only when \<open>pdfinfo\<close> succeeded and
  the first line of its output that starts with \<open>Pages:\<close> reads as the number 1.
\<close>

theorem Generate_latexmk_one_page:
  assumes "run_state (Generate tp now (NewResumePipeline (LatexmkCompiler_as_Compiler os c)) inp) w
             = (Inr v, w')"
    and "ver_Status v = ResumeValidated"
  shows "\<exists>pdfPath wa out wb pre rest post.
     run_state (exec_Output os ''pdfinfo'' [pdfPath]) wa = ((out, None), wb)
     \<and> strings_Split out (CHR 0x0A) = pre @ (''Pages:'' @ rest) # post
     \<and> (\<forall>l \<in> set pre. \<not> prefix ''Pages:'' l)
     \<and> strconv_Atoi (strings_TrimSpace rest) = Inr 1"
proof -
  from Generate_Inr [OF assms(1)] assms(2) obtain tex wx r where
    "run_state (Latexmk_Compile os c tex) wx = ((r, None), w')" and "res_PageCount r = 1"
    by (auto simp: NewResumePipeline_def LatexmkCompiler_as_Compiler_def split: if_splits)
  then obtain dir w1 w2 where "run_state (compile_in os c dir tex) w1 = ((r, None), w2)"
    by (auto simp: Latexmk_Compile_def split: prod.splits option.splits)
  from compile_in_page_count [OF this] \<open>res_PageCount r = 1\<close> show ?thesis
    by (fastforce simp: pages_of_lines_Inr)
qed

definition sample_os :: "unit latex_os" where
  "sample_os =
     \<lparr>os_MkdirTemp = (\<lambda>d pat. ret (''/tmp/x'', None)), os_RemoveAll = (\<lambda>d. ret None),
      os_WriteFile = (\<lambda>f s. ret None), os_ReadFile = (\<lambda>f. ret (''%PDF'', None)),
      exec_CombinedOutput = (\<lambda>b args. ret ([], None)),
      exec_Output = (\<lambda>b args. ret (''Title: r'' @ CHR 0x0A # ''Pages:   1'' @ [CHR 0x0A], None)),
      filepath_Join = (\<lambda>a b. a @ CHR ''/'' # b)\<rparr>"

lemma sample_pages: "pages_of_lines (strings_Split (''Title: r'' @ CHR 0x0A # ''Pages:   1'' @ [CHR 0x0A]) (CHR 0x0A))
  = Inr 1"
  by code_simp

theorem Generate_latexmk_one_page_witness:
  "\<exists>v w'. run_state (Generate sample_template_pkg (ret zeroTime)
       (NewResumePipeline (LatexmkCompiler_as_Compiler sample_os NewLatexmkCompiler)) sample_input) ()
       = (Inr v, w') \<and> ver_Status v = ResumeValidated
     \<and> (\<exists>pdfPath wa out wb. run_state (exec_Output sample_os ''pdfinfo'' [pdfPath]) wa = ((out, None), wb))"
proof -
  let ?m = "Generate sample_template_pkg (ret zeroTime)
       (NewResumePipeline (LatexmkCompiler_as_Compiler sample_os NewLatexmkCompiler)) sample_input"
  obtain v w' where run: "run_state ?m () = (Inr v, w')" and st: "ver_Status v = ResumeValidated"
    using sample_pages
    by (simp add: sample_resume_defs LatexmkCompiler_as_Compiler_def Latexmk_Compile_def
        compile_in_def countPDFPages_def sample_os_def Let_def)
  from Generate_latexmk_one_page [OF run st] run st show ?thesis by blast
qed

text \<open>
  The human decision is not bound to the page validation: a version in REVIEW, where
  \<open>Generate\<close> puts every document that failed the one-page check, is approved as it is, with
  the failed validation still recorded on it.
\<close>

theorem Approve_ignores_validation:
  assumes "run_state (Generate tp now p inp) w = (Inr v, w1)"
    and "ver_PageCount v \<noteq> 1"
  shows "\<exists>v' w2. run_state (Approve now v) w1 = (Inr v', w2)
     \<and> ver_Status v' = ResumeApproved \<and> ver_PageCount v' \<noteq> 1
     \<and> (\<exists>r. ver_Validation v' = Some r \<and> \<not> val_Passed r)"
proof -
  from Generate_Inr [OF assms(1)] assms(2)
  have st: "ver_Status v = ResumeReview" and val: "ver_Validation v = Some (ValidatePageCount (ver_PageCount v))"
    by auto
  obtain t w2 where "run_state now w1 = (t, w2)" by fastforce
  with st have "run_state (Approve now v) w1
      = (Inr (v\<lparr>ver_Status := ResumeApproved, ver_ApprovedAt := t\<rparr>), w2)"
    by (simp add: Approve_Inr)
  with val assms(2) show ?thesis by auto
qed

theorem Approve_ignores_validation_witness:
  "\<exists>v v' w2. run_state (Approve sample_now v) 1 = (Inr v', w2)
     \<and> ver_Status v' = ResumeApproved \<and> ver_PageCount v' = 2"
proof -
  obtain v w1 where run: "run_state (Generate sample_template_pkg sample_now
      (NewResumePipeline (sample_compiler 2)) sample_input) 0 = (Inr v, w1)"
    and pc: "ver_PageCount v = 2" and w1: "w1 = 1"
    by (simp add: sample_resume_defs Let_def)
  with Approve_ignores_validation [OF run] obtain v' w2 where
    "run_state (Approve sample_now v) 1 = (Inr v', w2)" "ver_Status v' = ResumeApproved" by auto
  moreover from this pc have "ver_PageCount v' = 2" by (auto simp: Approve_Inr)
  ultimately show ?thesis by blast
qed

end
