(* ===== verification/Application.thy ===== *)
theory Application
  imports Job Resume
begin

text \<open>
  The package \<open>internal/application\<close>: the lifecycle table with its one transition function,
  the classification of answers, the safety gate, the preparation workflow, duplicate
  detection, the audit record and the review queue.  \<open>prepared\<close> collects the applications
  that the operations of the package can yield; its invariant says what a READY
  application is made of.  The stores of \<open>duplicate_test.go\<close> and \<open>audit_test.go\<close>
  implement the two store interfaces.
\<close>

section \<open>Applications\<close>

subsection \<open>The lifecycle\<close>

datatype AppStatus =
    StatusDiscovered | StatusQualified | StatusPreparing | StatusReview | StatusReady
  | StatusStarting | StatusNavigating | StatusFilling | StatusVerifying | StatusSubmitting
  | StatusSubmitted | StatusHumanReq | StatusFailed | StatusExpired | StatusCancelled
  | StatusOther string

fun string_of_AppStatus :: "AppStatus \<Rightarrow> string" where
  "string_of_AppStatus StatusDiscovered = ''DISCOVERED''"
| "string_of_AppStatus StatusQualified = ''QUALIFIED''"
| "string_of_AppStatus StatusPreparing = ''PREPARING''"
| "string_of_AppStatus StatusReview = ''REVIEW''"
| "string_of_AppStatus StatusReady = ''READY''"
| "string_of_AppStatus StatusStarting = ''STARTING''"
| "string_of_AppStatus StatusNavigating = ''NAVIGATING''"
| "string_of_AppStatus StatusFilling = ''FILLING''"
| "string_of_AppStatus StatusVerifying = ''VERIFYING''"
| "string_of_AppStatus StatusSubmitting = ''SUBMITTING''"
| "string_of_AppStatus StatusSubmitted = ''SUBMITTED''"
| "string_of_AppStatus StatusHumanReq = ''HUMAN_REQUIRED''"
| "string_of_AppStatus StatusFailed = ''FAILED''"
| "string_of_AppStatus StatusExpired = ''EXPIRED''"
| "string_of_AppStatus StatusCancelled = ''CANCELLED''"
| "string_of_AppStatus (StatusOther s) = s"

fun app_validTransitions :: "AppStatus \<Rightarrow> AppStatus list" where
  "app_validTransitions StatusDiscovered = [StatusQualified, StatusCancelled]"
| "app_validTransitions StatusQualified = [StatusPreparing, StatusCancelled]"
| "app_validTransitions StatusPreparing = [StatusReview, StatusCancelled]"
| "app_validTransitions StatusReview = [StatusReady, StatusPreparing, StatusCancelled]"
| "app_validTransitions StatusReady = [StatusStarting, StatusCancelled]"
| "app_validTransitions StatusStarting = [StatusNavigating, StatusFailed, StatusCancelled]"
| "app_validTransitions StatusNavigating = [StatusFilling, StatusHumanReq, StatusFailed]"
| "app_validTransitions StatusFilling = [StatusVerifying, StatusHumanReq, StatusFailed]"
| "app_validTransitions StatusVerifying = [StatusSubmitting, StatusHumanReq, StatusFailed]"
| "app_validTransitions StatusSubmitting = [StatusSubmitted, StatusFailed]"
| "app_validTransitions StatusHumanReq =
     [StatusNavigating, StatusFilling, StatusVerifying, StatusExpired, StatusCancelled]"
| "app_validTransitions StatusSubmitted = []"
| "app_validTransitions StatusFailed = []"
| "app_validTransitions StatusExpired = []"
| "app_validTransitions StatusCancelled = []"
| "app_validTransitions (StatusOther s) = []"

definition app_ValidTransition :: "AppStatus \<Rightarrow> AppStatus \<Rightarrow> bool" where
  "app_ValidTransition from to = for_edges (app_validTransitions from) to"

interpretation app_sm: status_machine app_validTransitions app_ValidTransition
  by unfold_locales (simp add: app_ValidTransition_def for_edges_iff)

subsection \<open>Answers\<close>

datatype AnswerConfidence =
    AnswerConfidenceHigh | AnswerConfidenceMedium | AnswerConfidenceLow | AnswerConfidenceOther string

datatype AnswerStatus = AnswerStatusAuto | AnswerStatusReview | AnswerStatusOther string

datatype Category =
    CategoryPersonal | CategoryEducation | CategoryEmployment | CategoryAuthorization
  | CategorySponsorship | CategoryRelocation | CategoryCompensation | CategoryDemographic
  | CategoryLegal | CategoryExperience | CategoryPreferences | CategoryOther | CategoryString string

fun string_of_Category :: "Category \<Rightarrow> string" where
  "string_of_Category CategoryPersonal = ''personal''"
| "string_of_Category CategoryEducation = ''education''"
| "string_of_Category CategoryEmployment = ''employment''"
| "string_of_Category CategoryAuthorization = ''work_authorization''"
| "string_of_Category CategorySponsorship = ''sponsorship''"
| "string_of_Category CategoryRelocation = ''relocation''"
| "string_of_Category CategoryCompensation = ''compensation''"
| "string_of_Category CategoryDemographic = ''demographic''"
| "string_of_Category CategoryLegal = ''legal_declaration''"
| "string_of_Category CategoryExperience = ''experience''"
| "string_of_Category CategoryPreferences = ''preferences''"
| "string_of_Category CategoryOther = ''other''"
| "string_of_Category (CategoryString s) = s"

fun alwaysReview :: "Category \<Rightarrow> bool" where
  "alwaysReview CategoryAuthorization = True"
| "alwaysReview CategorySponsorship = True"
| "alwaysReview CategoryRelocation = True"
| "alwaysReview CategoryCompensation = True"
| "alwaysReview CategoryDemographic = True"
| "alwaysReview CategoryLegal = True"
| "alwaysReview _ = False"

record Answer =
  ans_ID :: string
  ans_QuestionText :: string
  ans_Category :: Category
  ans_AnswerText :: string
  ans_ClaimIDs :: "string list"
  ans_Confidence :: AnswerConfidence
  ans_Status :: AnswerStatus
  ans_Reason :: string

text \<open>The loop over the claim identifiers: the first one that is not in the set, if any.\<close>

fun first_not_allowed :: "(string \<rightharpoonup> bool) \<Rightarrow> string list \<Rightarrow> string option" where
  "first_not_allowed m [] = None"
| "first_not_allowed m (cid # cids) = (if \<not> map_true m cid then Some cid else first_not_allowed m cids)"

definition Classify :: "Answer \<Rightarrow> Claim list \<Rightarrow> Answer" where
  "Classify a allowedClaims =
     (if alwaysReview (ans_Category a) then
        a\<lparr>ans_Status := AnswerStatusReview,
          ans_Reason := ''category '' @ string_of_Category (ans_Category a) @ '' always requires human review''\<rparr>
      else if ans_Confidence a \<noteq> AnswerConfidenceHigh then
        a\<lparr>ans_Status := AnswerStatusReview, ans_Reason := ''confidence is not high''\<rparr>
      else if length (ans_ClaimIDs a) = 0 then
        a\<lparr>ans_Status := AnswerStatusReview, ans_Reason := ''answer has no supporting claim''\<rparr>
      else
        (case first_not_allowed (allowedSet allowedClaims) (ans_ClaimIDs a) of
           Some cid \<Rightarrow>
             a\<lparr>ans_Status := AnswerStatusReview,
               ans_Reason := ''claim '' @ cid @ '' is missing or not allowed''\<rparr>
         | None \<Rightarrow> a\<lparr>ans_Status := AnswerStatusAuto, ans_Reason := []\<rparr>))"

fun HasUnresolvedReview :: "Answer list \<Rightarrow> bool" where
  "HasUnresolvedReview [] = False"
| "HasUnresolvedReview (a # as) =
     (if ans_Status a = AnswerStatusReview then True else HasUnresolvedReview as)"

subsection \<open>The application and its store\<close>

record SafetyGateResult =
  gate_Passed :: bool
  gate_Reasons :: "string list"

record Application =
  app_ID :: string
  app_JobID :: string
  app_ProfileID :: string
  app_ResumeVersionID :: string
  app_Answers :: "Answer list"
  app_Status :: AppStatus
  app_SafetyGate :: "SafetyGateResult option"
  app_DuplicateOfID :: string
  app_CreatedAt :: Time
  app_UpdatedAt :: Time

definition zeroApplication :: Application where
  [zero_defs]: "zeroApplication =
     \<lparr>app_ID = [], app_JobID = [], app_ProfileID = [], app_ResumeVersionID = [], app_Answers = [],
      app_Status = StatusOther [], app_SafetyGate = None, app_DuplicateOfID = [],
      app_CreatedAt = zeroTime, app_UpdatedAt = zeroTime\<rparr>"

record 'w AppStore =
  GetApplication :: "string \<Rightarrow> ('w, Application \<times> error) state"
  FindByJobID :: "string \<Rightarrow> ('w, Application \<times> bool \<times> error) state"
  SaveApplication :: "Application \<Rightarrow> ('w, Application \<times> error) state"
  CountSubmittedSince :: "Time \<Rightarrow> ('w, int \<times> error) state"

definition Transition :: "Application \<Rightarrow> AppStatus \<Rightarrow> goerror + Application" where
  "Transition a to =
     (if \<not> app_ValidTransition (app_Status a) to then
        Inl (InvalidTransitionError (string_of_AppStatus (app_Status a)) (string_of_AppStatus to))
      else Inr (a\<lparr>app_Status := to\<rparr>))"

subsection \<open>The safety gate\<close>

datatype PlatformPolicy =
    PlatformPolicyUnknown | PlatformPolicyAllowed | PlatformPolicyDenied | PlatformPolicyOther string

record SafetyGateInput =
  sgi_Application :: Application
  sgi_JobVerified :: bool
  sgi_ResumeVerified :: bool
  sgi_IsDuplicate :: bool
  sgi_Platform :: PlatformPolicy
  sgi_ApplicationsSubmittedToday :: int
  sgi_DailyApplicationLimit :: int

definition EvaluateSafetyGate :: "SafetyGateInput \<Rightarrow> SafetyGateResult" where
  "EvaluateSafetyGate inp =
     (let reasons = [];
          reasons = (if \<not> sgi_JobVerified inp then reasons @ [''job identity not verified''] else reasons);
          reasons = (if \<not> sgi_ResumeVerified inp then reasons @ [''resume not verified/approved''] else reasons);
          reasons = (if HasUnresolvedReview (app_Answers (sgi_Application inp))
                     then reasons @ [''unresolved REVIEW answers remain''] else reasons);
          reasons = (if sgi_IsDuplicate inp
                     then reasons @ [''duplicate application detected for this job''] else reasons);
          reasons = (if sgi_Platform inp = PlatformPolicyUnknown
                     then reasons @ [''platform automation policy is unknown'']
                     else if sgi_Platform inp = PlatformPolicyDenied
                     then reasons @ [''platform automation is denied''] else reasons);
          reasons = (if sgi_DailyApplicationLimit inp > 0
                        \<and> sgi_ApplicationsSubmittedToday inp \<ge> sgi_DailyApplicationLimit inp
                     then reasons @ [''daily application limit ('' @ strconv_Itoa (sgi_DailyApplicationLimit inp)
                                     @ '') reached''] else reasons)
      in \<lparr>gate_Passed = (length reasons = 0), gate_Reasons = reasons\<rparr>)"

text \<open>\<open>fmt\<close>'s \<open>%v\<close> of a slice of strings.\<close>

definition fmt_strings :: "string list \<Rightarrow> string" where
  "fmt_strings ss = ''['' @ strings_Join ss '' '' @ '']''"

definition Ready :: "Application \<Rightarrow> SafetyGateResult \<Rightarrow> goerror + Application" where
  "Ready a gate =
     (if \<not> gate_Passed gate then
        Inl (ErrorString (''application: safety gate failed: '' @ fmt_strings (gate_Reasons gate)))
      else Transition (a\<lparr>app_SafetyGate := Some gate\<rparr>) StatusReady)"

subsection \<open>The preparation workflow\<close>

definition FromJob ::
    "('w, string) state \<Rightarrow> ('w, Time) state \<Rightarrow> Job \<Rightarrow> string \<Rightarrow> ('w, Application) state" where
  "FromJob newID now j profileID = do {
     i \<leftarrow> newID;
     created \<leftarrow> now;
     updated \<leftarrow> now;
     ret (zeroApplication\<lparr>app_ID := i, app_JobID := job_ID j, app_ProfileID := profileID,
                          app_Status := StatusDiscovered, app_CreatedAt := created,
                          app_UpdatedAt := updated\<rparr>)
   }"

definition Qualify :: "Application \<Rightarrow> Score \<Rightarrow> goerror + Application" where
  "Qualify a score =
     (if score_Recommendation score \<noteq> RecommendationApply then
        Inl (ErrorString (''application: cannot qualify job with recommendation ''
                           @ string_of_Recommendation (score_Recommendation score)))
      else Transition a StatusQualified)"

definition SelectResumeVariant :: "string \<Rightarrow> VariantType" where
  "SelectResumeVariant recommended =
     (if recommended = string_of_VariantType VariantFDE then VariantFDE else VariantSoftwareEngineer)"

definition StartPreparing :: "Application \<Rightarrow> goerror + Application" where
  "StartPreparing a = Transition a StatusPreparing"

definition AttachResume :: "Application \<Rightarrow> Version \<Rightarrow> goerror + Application" where
  "AttachResume a version =
     (if ver_Status version \<noteq> ResumeValidated \<and> ver_Status version \<noteq> ResumeApproved then
        Inl (ErrorString (''application: resume version must be VALIDATED or APPROVED, got ''
                           @ string_of_ResumeStatus (ver_Status version)))
      else Transition (a\<lparr>app_ResumeVersionID := ver_ID version\<rparr>) StatusReview)"

subsection \<open>Duplicates, audit, review queue\<close>

definition CheckDuplicate :: "'w AppStore \<Rightarrow> string \<Rightarrow> ('w, Application \<times> bool \<times> error) state" where
  "CheckDuplicate store jobID = do {
     (found, ok, err) \<leftarrow> FindByJobID store jobID;
     case err of
       Some e \<Rightarrow> ret (zeroApplication, False, Errorf ''application: check duplicate: '' e)
     | None \<Rightarrow> ret (found, ok, None)
   }"

datatype AppEventType =
    EventCreated | EventQualified | EventPreparingStarted | EventResumeAttached | EventReviewRequired
  | EventReadyForSubmit | EventDuplicateBlocked | EventCancelled | EventSubmitted | EventOther string

record AppEvent =
  aev_ID :: string
  aev_ApplicationID :: string
  aev_JobID :: string
  aev_Type :: AppEventType
  aev_Detail :: string
  aev_CreatedAt :: Time

record 'w AuditStore =
  AppendEvent :: "AppEvent \<Rightarrow> ('w, error) state"
  ListEvents :: "string \<Rightarrow> ('w, AppEvent list \<times> error) state"

definition RecordEvent ::
    "'w AuditStore \<Rightarrow> ('w, string) state \<Rightarrow> ('w, Time) state \<Rightarrow> Application \<Rightarrow> AppEventType
     \<Rightarrow> string \<Rightarrow> ('w, error) state" where
  "RecordEvent store newID now a eventType detail = do {
     i \<leftarrow> newID;
     t \<leftarrow> now;
     AppendEvent store \<lparr>aev_ID = i, aev_ApplicationID = app_ID a, aev_JobID = app_JobID a,
                        aev_Type = eventType, aev_Detail = detail, aev_CreatedAt = t\<rparr>
   }"

record ReviewItem =
  ri_ApplicationID :: string
  ri_JobID :: string
  ri_AnswerID :: string
  ri_Reason :: string

fun queue_answers :: "Application \<Rightarrow> Answer list \<Rightarrow> ReviewItem list \<Rightarrow> bool \<Rightarrow> ReviewItem list \<times> bool" where
  "queue_answers a [] items foundAnswerReview = (items, foundAnswerReview)"
| "queue_answers a (ans # anss) items foundAnswerReview =
     (if ans_Status ans = AnswerStatusReview then
        queue_answers a anss
          (items @ [\<lparr>ri_ApplicationID = app_ID a, ri_JobID = app_JobID a,
                     ri_AnswerID = ans_ID ans, ri_Reason = ans_Reason ans\<rparr>]) True
      else queue_answers a anss items foundAnswerReview)"

fun queue_apps :: "Application list \<Rightarrow> ReviewItem list \<Rightarrow> ReviewItem list" where
  "queue_apps [] items = items"
| "queue_apps (a # apps) items =
     (case queue_answers a (app_Answers a) items False of
        (items, foundAnswerReview) \<Rightarrow>
          queue_apps apps
            (if app_Status a = StatusReview \<and> \<not> foundAnswerReview then
               items @ [\<lparr>ri_ApplicationID = app_ID a, ri_JobID = app_JobID a, ri_AnswerID = [],
                         ri_Reason = ''application awaiting review (e.g. resume approval)''\<rparr>]
             else items))"

definition BuildReviewQueue :: "Application list \<Rightarrow> ReviewItem list" where
  "BuildReviewQueue apps = queue_apps apps []"

subsection \<open>The contracts of the two stores\<close>

text \<open>A history of saves, and the application it leaves for a job.\<close>

primrec save_all :: "'w AppStore \<Rightarrow> Application list \<Rightarrow> ('w, unit) state" where
  "save_all store [] = ret ()"
| "save_all store (a # as) = do { SaveApplication store a; save_all store as }"

lemma saved_for_job:
  "fold (\<lambda>a m. m(app_JobID a \<mapsto> a)) as m i =
     (if i \<in> app_JobID ` set as then Some (last (filter (\<lambda>a. app_JobID a = i) as)) else m i)"
  by (induction as arbitrary: m) (auto simp: filter_empty_conv)

text \<open>\<open>by_job w i\<close> is the application stored for the job \<open>i\<close>.\<close>

locale app_store =
  fixes store :: "'w AppStore"
    and by_job :: "'w \<Rightarrow> string \<Rightarrow> Application option"
  assumes find_job: "run_state (FindByJobID store i) w =
      ((case by_job w i of Some a \<Rightarrow> (a, True, None) | None \<Rightarrow> (zeroApplication, False, None)), w)"
    and save_job: "run_state (SaveApplication store a) w = ((b, err), w') \<Longrightarrow>
      b = a \<and> err = None \<and> by_job w' = (by_job w)(app_JobID a \<mapsto> a)"
begin

lemma run_CheckDuplicate:
  "run_state (CheckDuplicate store i) w =
     ((case by_job w i of Some a \<Rightarrow> (a, True, None) | None \<Rightarrow> (zeroApplication, False, None)), w)"
  by (simp add: CheckDuplicate_def find_job split: option.splits)

lemma run_save_all:
  "run_state (save_all store as) w = ((), w') \<Longrightarrow> by_job w' = fold (\<lambda>a m. m(app_JobID a \<mapsto> a)) as (by_job w)"
proof (induction as arbitrary: w)
  case (Cons a as)
  obtain b err w1 where 1: "run_state (SaveApplication store a) w = ((b, err), w1)" by (metis prod.collapse)
  with Cons.prems have "run_state (save_all store as) w1 = ((), w')" by simp
  with Cons.IH save_job [OF 1] show ?case by simp
qed simp

end

text \<open>\<open>log_of w\<close> is the list of events; appending adds one at the end.\<close>

locale audit_store =
  fixes store :: "'w AuditStore"
    and log_of :: "'w \<Rightarrow> AppEvent list"
  assumes append_event: "run_state (AppendEvent store e) w = (err, w') \<Longrightarrow>
      err = None \<and> log_of w' = log_of w @ [e]"
    and list_events: "run_state (ListEvents store i) w =
      ((filter (\<lambda>e. aev_ApplicationID e = i) (log_of w), None), w)"
begin

lemma RecordEvent_appends:
  assumes "run_state (RecordEvent store newID now a et detail) w = (err, w')"
    and "leaves log_of newID" and "leaves log_of now"
  shows "err = None \<and> (\<exists>e. log_of w' = log_of w @ [e] \<and> aev_ApplicationID e = app_ID a
     \<and> aev_JobID e = app_JobID a \<and> aev_Type e = et \<and> aev_Detail e = detail)"
proof -
  obtain i w1 where 1: "run_state newID w = (i, w1)" by fastforce
  obtain t w2 where 2: "run_state now w1 = (t, w2)" by fastforce
  from assms(1) 1 2 have "run_state (AppendEvent store
      \<lparr>aev_ID = i, aev_ApplicationID = app_ID a, aev_JobID = app_JobID a,
       aev_Type = et, aev_Detail = detail, aev_CreatedAt = t\<rparr>) w2 = (err, w')"
    by (simp add: RecordEvent_def)
  from append_event [OF this] leavesD [OF assms(2) 1] leavesD [OF assms(3) 2] show ?thesis by simp
qed

end

record fakeAppStore =
  fas_byJobID :: "string \<rightharpoonup> Application"
  fas_saved :: "Application list"

definition newFakeAppStore :: fakeAppStore where
  "newFakeAppStore = \<lparr>fas_byJobID = Map.empty, fas_saved = []\<rparr>"

definition fakeAppStore_ops :: "fakeAppStore AppStore" where
  "fakeAppStore_ops =
     \<lparr>GetApplication = (\<lambda>i. State (\<lambda>s.
        ((case find (\<lambda>a. app_ID a = i) (fas_saved s) of Some a \<Rightarrow> a | None \<Rightarrow> zeroApplication, None), s))),
      FindByJobID = (\<lambda>i. State (\<lambda>s.
        (case fas_byJobID s i of Some a \<Rightarrow> (a, True, None) | None \<Rightarrow> (zeroApplication, False, None), s))),
      SaveApplication = (\<lambda>a. State (\<lambda>s.
        ((a, None), s\<lparr>fas_saved := fas_saved s @ [a], fas_byJobID := (fas_byJobID s)(app_JobID a \<mapsto> a)\<rparr>))),
      CountSubmittedSince = (\<lambda>since. State (\<lambda>s.
        ((int (length (filter (\<lambda>a. app_Status a = StatusSubmitted) (fas_saved s))), None), s)))\<rparr>"

interpretation fake_apps: app_store fakeAppStore_ops fas_byJobID
  by unfold_locales (auto simp: fakeAppStore_ops_def)

type_synonym fakeAuditStore = "AppEvent list"

definition fakeAuditStore_ops :: "fakeAuditStore AuditStore" where
  "fakeAuditStore_ops =
     \<lparr>AppendEvent = (\<lambda>e. State (\<lambda>s. (None, s @ [e]))),
      ListEvents = (\<lambda>i. State (\<lambda>s. ((filter (\<lambda>e. aev_ApplicationID e = i) s, None), s)))\<rparr>"

interpretation fake_audit: audit_store fakeAuditStore_ops "\<lambda>s. s"
  by unfold_locales (auto simp: fakeAuditStore_ops_def)

subsection \<open>Lemmas on the operations\<close>

lemma Transition_Inr:
  "Transition a to = Inr b \<longleftrightarrow> to \<in> set (app_validTransitions (app_Status a)) \<and> b = a\<lparr>app_Status := to\<rparr>"
  by (auto simp: Transition_def app_sm.valid_iff)

lemma Ready_Inr:
  "Ready a g = Inr b \<longleftrightarrow> gate_Passed g \<and> app_Status a = StatusReview
     \<and> b = a\<lparr>app_SafetyGate := Some g, app_Status := StatusReady\<rparr>"
  by (cases "app_Status a") (auto simp: Ready_def Transition_Inr)

lemma Qualify_Inr:
  "Qualify a s = Inr b \<longleftrightarrow> score_Recommendation s = RecommendationApply
     \<and> app_Status a = StatusDiscovered \<and> b = a\<lparr>app_Status := StatusQualified\<rparr>"
  by (cases "app_Status a") (auto simp: Qualify_def Transition_Inr)

lemma StartPreparing_Inr:
  "StartPreparing a = Inr b \<longleftrightarrow> app_Status a \<in> {StatusQualified, StatusReview}
     \<and> b = a\<lparr>app_Status := StatusPreparing\<rparr>"
  by (cases "app_Status a") (auto simp: StartPreparing_def Transition_Inr)

lemma AttachResume_Inr:
  "AttachResume a v = Inr b \<longleftrightarrow> ver_Status v \<in> {ResumeValidated, ResumeApproved}
     \<and> app_Status a = StatusPreparing
     \<and> b = a\<lparr>app_ResumeVersionID := ver_ID v, app_Status := StatusReview\<rparr>"
  by (cases "app_Status a") (auto simp: AttachResume_def Transition_Inr)

lemma HasUnresolvedReview_iff:
  "HasUnresolvedReview as \<longleftrightarrow> (\<exists>a \<in> set as. ans_Status a = AnswerStatusReview)"
  by (induction as) auto

lemma first_not_allowed_simps:
  "first_not_allowed m cids = None \<longleftrightarrow> (\<forall>c \<in> set cids. map_true m c)"
  "first_not_allowed m cids = Some c \<Longrightarrow> c \<in> set cids \<and> \<not> map_true m c"
  by (induction cids) (auto split: if_splits)

text \<open>What makes an answer ready without a human.\<close>

definition answer_backed :: "Claim list \<Rightarrow> Answer \<Rightarrow> bool" where
  "answer_backed claims a \<longleftrightarrow> \<not> alwaysReview (ans_Category a) \<and> ans_Confidence a = AnswerConfidenceHigh
     \<and> ans_ClaimIDs a \<noteq> [] \<and> (\<forall>c \<in> set (ans_ClaimIDs a). claim_allowed claims c)"

lemma Classify_Status:
  "ans_Status (Classify a claims) = (if answer_backed claims a then AnswerStatusAuto else AnswerStatusReview)"
  using first_not_allowed_simps(1) [of "allowedSet claims" "ans_ClaimIDs a"]
  by (auto simp: Classify_def answer_backed_def split: option.splits)

lemma Classify_rest:
  "ans_ID (Classify a claims) = ans_ID a" "ans_QuestionText (Classify a claims) = ans_QuestionText a"
  "ans_Category (Classify a claims) = ans_Category a" "ans_AnswerText (Classify a claims) = ans_AnswerText a"
  "ans_ClaimIDs (Classify a claims) = ans_ClaimIDs a" "ans_Confidence (Classify a claims) = ans_Confidence a"
  by (simp_all add: Classify_def split: option.splits)

lemma Classify_backed: "answer_backed claims (Classify a claims) = answer_backed claims a"
  by (simp add: answer_backed_def Classify_rest)

lemma Classify_Reason: "ans_Reason (Classify a claims) = [] \<longleftrightarrow> answer_backed claims a"
  using first_not_allowed_simps(1) [of "allowedSet claims" "ans_ClaimIDs a"]
  by (auto simp: Classify_def answer_backed_def split: option.splits)

lemma Classify_idem: "Classify (Classify a claims) claims = Classify a claims"
  by (simp add: Classify_def split: option.splits)

lemma gate_Passed_iff:
  "gate_Passed (EvaluateSafetyGate inp) \<longleftrightarrow>
     sgi_JobVerified inp \<and> sgi_ResumeVerified inp
     \<and> (\<forall>a \<in> set (app_Answers (sgi_Application inp)). ans_Status a \<noteq> AnswerStatusReview)
     \<and> \<not> sgi_IsDuplicate inp \<and> sgi_Platform inp \<notin> {PlatformPolicyUnknown, PlatformPolicyDenied}
     \<and> \<not> (0 < sgi_DailyApplicationLimit inp
          \<and> sgi_DailyApplicationLimit inp \<le> sgi_ApplicationsSubmittedToday inp)"
  by (auto simp: EvaluateSafetyGate_def HasUnresolvedReview_iff Let_def)

lemma gate_Reasons_empty: "gate_Passed (EvaluateSafetyGate inp) \<longleftrightarrow> gate_Reasons (EvaluateSafetyGate inp) = []"
  by (simp add: EvaluateSafetyGate_def Let_def)

subsection \<open>The applications the operations yield\<close>

text \<open>
  \<open>prepared newID now claims vs ds a\<close>: the operations of the package yield \<open>a\<close> when the
  resume versions attached are from \<open>vs\<close>, with \<open>ds\<close> the detours its history took.  Every
  exported operation is a rule, on any argument.  A detour is a step that a check of the
  package does not see: \<open>BareStep to\<close>, a \<open>Transition\<close> called directly, also to a status that has
  an operation of its own (QUALIFIED, REVIEW, READY); \<open>ForeignGate\<close>, a \<open>Ready\<close> with a gate
  result that was not evaluated for this application; and \<open>HandAnswers\<close>, answers written
  without \<open>Classify\<close>, or after the gate.
\<close>

datatype detour = BareStep AppStatus | ForeignGate | HandAnswers

inductive prepared ::
    "('w, string) state \<Rightarrow> ('w, Time) state \<Rightarrow> Claim list \<Rightarrow> Version set \<Rightarrow> detour set \<Rightarrow> Application \<Rightarrow> bool"
  for newID now claims vs where
  prepared_FromJob: "run_state (FromJob newID now j pid) w = (a, w') \<Longrightarrow> prepared newID now claims vs {} a"
| prepared_answers: "prepared newID now claims vs ds a \<Longrightarrow>
    app_Status a \<in> {StatusDiscovered, StatusQualified, StatusPreparing, StatusReview} \<Longrightarrow>
    prepared newID now claims vs ds (a\<lparr>app_Answers := map (\<lambda>x. Classify x claims) answers\<rparr>)"
| prepared_hand_answers: "prepared newID now claims vs ds a \<Longrightarrow>
    prepared newID now claims vs (insert HandAnswers ds) (a\<lparr>app_Answers := answers\<rparr>)"
| prepared_Qualify: "prepared newID now claims vs ds a \<Longrightarrow> Qualify a score = Inr b \<Longrightarrow>
    prepared newID now claims vs ds b"
| prepared_StartPreparing: "prepared newID now claims vs ds a \<Longrightarrow> StartPreparing a = Inr b \<Longrightarrow>
    prepared newID now claims vs ds b"
| prepared_AttachResume: "prepared newID now claims vs ds a \<Longrightarrow> v \<in> vs \<Longrightarrow> AttachResume a v = Inr b \<Longrightarrow>
    prepared newID now claims vs ds b"
| prepared_Ready: "prepared newID now claims vs ds a \<Longrightarrow> sgi_Application inp = a \<Longrightarrow>
    Ready a (EvaluateSafetyGate inp) = Inr b \<Longrightarrow> prepared newID now claims vs ds b"
| prepared_foreign_Ready: "prepared newID now claims vs ds a \<Longrightarrow> Ready a gate = Inr b \<Longrightarrow>
    prepared newID now claims vs (insert ForeignGate ds) b"
| prepared_Transition: "prepared newID now claims vs ds a \<Longrightarrow> Transition a to = Inr b \<Longrightarrow>
    prepared newID now claims vs (insert (BareStep to) ds) b"

definition past_gate :: "AppStatus set" where
  "past_gate = {StatusReady, StatusStarting, StatusNavigating, StatusFilling, StatusVerifying,
     StatusSubmitting, StatusSubmitted, StatusHumanReq, StatusFailed, StatusExpired}"

definition app_inv :: "Claim list \<Rightarrow> Version set \<Rightarrow> detour set \<Rightarrow> Application \<Rightarrow> bool" where
  "app_inv claims vs ds a \<longleftrightarrow>
     (HandAnswers \<notin> ds \<longrightarrow> (\<forall>x \<in> set (app_Answers a).
        ans_Status x = (if answer_backed claims x then AnswerStatusAuto else AnswerStatusReview)))
     \<and> (app_Status a \<in> insert StatusReview past_gate \<longrightarrow> BareStep StatusReview \<notin> ds \<longrightarrow>
          (\<exists>v \<in> vs. ver_ID v = app_ResumeVersionID a \<and> ver_Status v \<in> {ResumeValidated, ResumeApproved}))
     \<and> (app_Status a \<in> past_gate \<longrightarrow> BareStep StatusReady \<notin> ds \<longrightarrow>
          (\<exists>g. app_SafetyGate a = Some g \<and> gate_Passed g)
          \<and> (ForeignGate \<notin> ds \<and> HandAnswers \<notin> ds \<longrightarrow>
               (\<forall>x \<in> set (app_Answers a). answer_backed claims x)))"

lemma past_gate_simps [simp]:
  "StatusReady \<in> past_gate" "StatusStarting \<in> past_gate" "StatusNavigating \<in> past_gate"
  "StatusFilling \<in> past_gate" "StatusVerifying \<in> past_gate" "StatusSubmitting \<in> past_gate"
  "StatusSubmitted \<in> past_gate" "StatusHumanReq \<in> past_gate" "StatusFailed \<in> past_gate"
  "StatusExpired \<in> past_gate" "StatusDiscovered \<notin> past_gate" "StatusQualified \<notin> past_gate"
  "StatusPreparing \<notin> past_gate" "StatusReview \<notin> past_gate" "StatusCancelled \<notin> past_gate"
  by (simp_all add: past_gate_def)

lemma app_inv_FromJob: "run_state (FromJob newID now j pid) w = (a, w') \<Longrightarrow> app_inv claims vs ds a"
  by (auto simp: FromJob_def app_inv_def zeroApplication_def split: prod.splits)

lemma app_inv_answers:
  "app_inv claims vs ds a \<Longrightarrow> app_Status a \<notin> past_gate \<Longrightarrow>
   app_inv claims vs ds (a\<lparr>app_Answers := map (\<lambda>x. Classify x claims) answers\<rparr>)"
  by (simp add: app_inv_def Classify_Status Classify_backed)

lemma app_inv_hand_answers:
  "app_inv claims vs ds a \<Longrightarrow> app_inv claims vs (insert HandAnswers ds) (a\<lparr>app_Answers := answers\<rparr>)"
  by (simp add: app_inv_def)

lemma app_inv_Qualify: "app_inv claims vs ds a \<Longrightarrow> Qualify a score = Inr b \<Longrightarrow> app_inv claims vs ds b"
  by (simp add: Qualify_Inr app_inv_def)

lemma app_inv_StartPreparing: "app_inv claims vs ds a \<Longrightarrow> StartPreparing a = Inr b \<Longrightarrow> app_inv claims vs ds b"
  by (simp add: StartPreparing_Inr app_inv_def)

lemma app_inv_AttachResume:
  "app_inv claims vs ds a \<Longrightarrow> v \<in> vs \<Longrightarrow> AttachResume a v = Inr b \<Longrightarrow> app_inv claims vs ds b"
  by (simp add: AttachResume_Inr app_inv_def) blast

lemma app_inv_Ready:
  assumes "app_inv claims vs ds a" and "sgi_Application inp = a" and "Ready a (EvaluateSafetyGate inp) = Inr b"
  shows "app_inv claims vs ds b"
proof -
  from assms(3) have b: "b = a\<lparr>app_SafetyGate := Some (EvaluateSafetyGate inp), app_Status := StatusReady\<rparr>"
    and g: "gate_Passed (EvaluateSafetyGate inp)" "app_Status a = StatusReview"
    by (simp_all add: Ready_Inr)
  have "answer_backed claims x" if x: "x \<in> set (app_Answers a)" and h: "HandAnswers \<notin> ds" for x
  proof -
    from g(1) x assms(2) have "ans_Status x \<noteq> AnswerStatusReview" by (simp add: gate_Passed_iff)
    with x h assms(1) show ?thesis by (auto simp: app_inv_def split: if_splits)
  qed
  with b g assms(1) show ?thesis by (simp add: app_inv_def)
qed

lemma app_inv_foreign_Ready:
  "app_inv claims vs ds a \<Longrightarrow> Ready a gate = Inr b \<Longrightarrow> app_inv claims vs (insert ForeignGate ds) b"
  by (simp add: Ready_Inr app_inv_def)

lemma app_inv_Transition:
  assumes "app_inv claims vs ds a" and "Transition a to = Inr b"
  shows "app_inv claims vs (insert (BareStep to) ds) b"
proof -
  from assms(2) have e: "to \<in> set (app_validTransitions (app_Status a))" and b: "b = a\<lparr>app_Status := to\<rparr>"
    by (simp_all add: Transition_Inr)
  have "app_Status a \<in> past_gate" if "to \<in> past_gate" "to \<noteq> StatusReady"
    using e that by (cases "app_Status a") auto
  moreover have "app_Status a = StatusReview" if "to = StatusReady"
    using e that by (cases "app_Status a") auto
  ultimately show ?thesis using assms(1) b
    by (cases "to = StatusReady \<or> to = StatusReview") (auto simp: app_inv_def)
qed

lemma prepared_inv: "prepared newID now claims vs ds a \<Longrightarrow> app_inv claims vs ds a"
proof (induction rule: prepared.induct)
  case (prepared_answers ds a answers)
  then show ?case by (intro app_inv_answers) auto
qed (erule app_inv_FromJob app_inv_hand_answers app_inv_Qualify app_inv_StartPreparing
      app_inv_AttachResume app_inv_Ready app_inv_foreign_Ready app_inv_Transition; assumption?)+

text \<open>The two detours that the checks rest on being avoided exist: one \<open>Transition\<close> each.\<close>

lemma Transition_bypasses_gate:
  "app_Status a = StatusReview \<Longrightarrow> Transition a StatusReady = Inr (a\<lparr>app_Status := StatusReady\<rparr>)"
  by (simp add: Transition_Inr)

lemma Transition_bypasses_resume:
  "app_Status a = StatusPreparing \<Longrightarrow> Transition a StatusReview = Inr (a\<lparr>app_Status := StatusReview\<rparr>)"
  by (simp add: Transition_Inr)

subsection \<open>Properties\<close>

lemma app_avoids:
  assumes succ: "successively app_ValidTransition (StatusDiscovered # ss)"
    and last: "last (StatusDiscovered # ss) = StatusSubmitted"
    and start: "P StatusDiscovered" and goal: "\<not> P StatusSubmitted"
    and step: "\<And>u v. P u \<Longrightarrow> v \<noteq> d \<Longrightarrow> v \<in> set (app_validTransitions u) \<Longrightarrow> P v"
  shows "d \<in> set ss"
proof (rule ccontr)
  assume "d \<notin> set ss"
  have "P (last (StatusDiscovered # ss))"
  proof (rule app_sm.path_closed [OF succ, of P])
    show "P v" if "P u" "v \<in> set ss" "v \<in> set (app_validTransitions u)" for u v
      using that \<open>d \<notin> set ss\<close> by (intro step [of u v]) auto
  qed (rule start)
  with last goal show False by simp
qed

abbreviation "pre_qualified \<equiv> {StatusDiscovered, StatusCancelled}"
abbreviation "pre_ready \<equiv> pre_qualified \<union> {StatusQualified, StatusPreparing, StatusReview}"
abbreviation "pre_verifying \<equiv> pre_ready \<union> {StatusReady, StatusStarting, StatusNavigating,
   StatusFilling, StatusHumanReq, StatusFailed, StatusExpired}"

text \<open>
  C29. The lifecycle table: an application is submitted only along a path through QUALIFIED,
  PREPARING, REVIEW, READY, STARTING, NAVIGATING, VERIFYING and SUBMITTING; the four final
  statuses lead nowhere; and CANCELLED can be reached exactly from the statuses that are
  neither SUBMITTING nor final.
\<close>

theorem app_lifecycle:
  "(\<forall>ss. successively app_ValidTransition (StatusDiscovered # ss) \<longrightarrow>
      last (StatusDiscovered # ss) = StatusSubmitted \<longrightarrow>
      {StatusQualified, StatusPreparing, StatusReview, StatusReady, StatusStarting,
       StatusNavigating, StatusVerifying, StatusSubmitting} \<subseteq> set ss)
   \<and> (\<forall>s t. s \<in> {StatusSubmitted, StatusFailed, StatusExpired, StatusCancelled} \<longrightarrow>
        (app_ValidTransition\<^sup>*\<^sup>* s t \<longleftrightarrow> t = s))
   \<and> (\<forall>s. app_ValidTransition\<^sup>*\<^sup>* s StatusCancelled \<longleftrightarrow>
        s \<notin> {StatusSubmitting, StatusSubmitted, StatusFailed, StatusExpired} \<union> range StatusOther)"
proof (intro conjI allI impI)
  fix ss assume p: "successively app_ValidTransition (StatusDiscovered # ss)"
    "last (StatusDiscovered # ss) = StatusSubmitted"
  have "StatusQualified \<in> set ss"
    by (rule app_avoids [OF p, of "\<lambda>s. s \<in> pre_qualified"]) auto
  moreover have "StatusPreparing \<in> set ss"
    by (rule app_avoids [OF p, of "\<lambda>s. s \<in> pre_qualified \<union> {StatusQualified}"]) auto
  moreover have "StatusReview \<in> set ss"
    by (rule app_avoids [OF p, of "\<lambda>s. s \<in> pre_qualified \<union> {StatusQualified, StatusPreparing}"]) auto
  moreover have "StatusReady \<in> set ss"
    by (rule app_avoids [OF p, of "\<lambda>s. s \<in> pre_ready"]) auto
  moreover have "StatusStarting \<in> set ss"
    by (rule app_avoids [OF p, of "\<lambda>s. s \<in> pre_ready \<union> {StatusReady}"]) auto
  moreover have "StatusNavigating \<in> set ss"
    by (rule app_avoids [OF p, of "\<lambda>s. s \<in> pre_ready \<union> {StatusReady, StatusStarting, StatusFailed}"]) auto
  moreover have "StatusVerifying \<in> set ss"
    by (rule app_avoids [OF p, of "\<lambda>s. s \<in> pre_verifying"]) auto
  moreover have "StatusSubmitting \<in> set ss"
    by (rule app_avoids [OF p, of "\<lambda>s. s \<in> pre_verifying \<union> {StatusVerifying}"]) auto
  ultimately show "{StatusQualified, StatusPreparing, StatusReview, StatusReady, StatusStarting,
       StatusNavigating, StatusVerifying, StatusSubmitting} \<subseteq> set ss" by simp
next
  fix s t assume "s \<in> {StatusSubmitted, StatusFailed, StatusExpired, StatusCancelled}"
  then show "app_ValidTransition\<^sup>*\<^sup>* s t \<longleftrightarrow> t = s" using app_sm.terminal_stuck [of s t] by auto
next
  fix s
  let ?stuck = "{StatusSubmitting, StatusSubmitted, StatusFailed, StatusExpired} \<union> range StatusOther"
  have "t \<in> ?stuck" if "app_ValidTransition\<^sup>*\<^sup>* s t" "s \<in> ?stuck" for t
    by (rule app_sm.closed_reach [OF that(1), of "\<lambda>x. x \<in> ?stuck"]) (use that(2) in auto)
  moreover have direct: "app_ValidTransition\<^sup>*\<^sup>* u StatusCancelled"
    if "StatusCancelled \<in> set (app_validTransitions u)" for u
    by (rule app_sm.edge_reach [OF that])
  moreover have "app_ValidTransition\<^sup>*\<^sup>* u StatusCancelled"
    if "StatusHumanReq \<in> set (app_validTransitions u)" for u
    by (rule app_sm.edge_reach_trans [OF that direct]) simp
  ultimately show "app_ValidTransition\<^sup>*\<^sup>* s StatusCancelled \<longleftrightarrow> s \<notin> ?stuck"
    by (cases s) fastforce+
qed

theorem app_lifecycle_witness:
  "{StatusVerifying, StatusReady} \<subseteq> set [StatusQualified, StatusPreparing, StatusReview, StatusReady,
      StatusStarting, StatusNavigating, StatusHumanReq, StatusVerifying, StatusSubmitting, StatusSubmitted]
   \<and> app_ValidTransition\<^sup>*\<^sup>* StatusVerifying StatusCancelled"
  using app_lifecycle [THEN conjunct1, rule_format, of "[StatusQualified, StatusPreparing, StatusReview,
      StatusReady, StatusStarting, StatusNavigating, StatusHumanReq, StatusVerifying, StatusSubmitting,
      StatusSubmitted]"] app_lifecycle [THEN conjunct2, THEN conjunct2, rule_format, of StatusVerifying]
  by (auto simp: app_ValidTransition_def)

text \<open>
  C7. \<open>Classify\<close> decides by four conditions and nothing else: an answer is AUTO exactly when
  its category may be answered automatically, its confidence is high, it names a claim,
  and every claim it names exists and is allowed; otherwise it is REVIEW, a reason is
  recorded exactly then, the rest of the answer is untouched, whatever status it had
  before, and classifying again changes nothing.
\<close>

theorem Classify_correct:
  "(ans_Status (Classify a claims) = AnswerStatusAuto \<longleftrightarrow>
      ans_Category a \<notin> {CategoryAuthorization, CategorySponsorship, CategoryRelocation,
         CategoryCompensation, CategoryDemographic, CategoryLegal}
      \<and> ans_Confidence a = AnswerConfidenceHigh \<and> ans_ClaimIDs a \<noteq> []
      \<and> set (ans_ClaimIDs a) \<subseteq> claim_ID ` {c \<in> set claims. claim_AllowedForResume c})
   \<and> ans_Status (Classify a claims) \<in> {AnswerStatusAuto, AnswerStatusReview}
   \<and> (ans_Status (Classify a claims) = AnswerStatusReview \<longleftrightarrow> ans_Reason (Classify a claims) \<noteq> [])
   \<and> Classify a claims = a\<lparr>ans_Status := ans_Status (Classify a claims), ans_Reason := ans_Reason (Classify a claims)\<rparr>
   \<and> Classify (a\<lparr>ans_Status := s, ans_Reason := r\<rparr>) claims = Classify a claims
   \<and> Classify (Classify a claims) claims = Classify a claims"
proof (intro conjI)
  have "alwaysReview (ans_Category a) \<longleftrightarrow> ans_Category a \<in> {CategoryAuthorization, CategorySponsorship,
      CategoryRelocation, CategoryCompensation, CategoryDemographic, CategoryLegal}"
    by (cases "ans_Category a") auto
  then show "ans_Status (Classify a claims) = AnswerStatusAuto \<longleftrightarrow>
      ans_Category a \<notin> {CategoryAuthorization, CategorySponsorship, CategoryRelocation,
         CategoryCompensation, CategoryDemographic, CategoryLegal}
      \<and> ans_Confidence a = AnswerConfidenceHigh \<and> ans_ClaimIDs a \<noteq> []
      \<and> set (ans_ClaimIDs a) \<subseteq> claim_ID ` {c \<in> set claims. claim_AllowedForResume c}"
    by (auto simp: Classify_Status answer_backed_def claim_allowed_def)
  show "Classify a claims
      = a\<lparr>ans_Status := ans_Status (Classify a claims), ans_Reason := ans_Reason (Classify a claims)\<rparr>"
    by (simp add: Classify_def split: option.splits)
  show "Classify (a\<lparr>ans_Status := s, ans_Reason := r\<rparr>) claims = Classify a claims"
    by (simp add: Classify_def split: option.splits)
qed (simp_all add: Classify_Status Classify_Reason Classify_idem)

text \<open>
  C6. The safety gate passes exactly when the job and the resume are verified, no answer
  waits for review, the job has no other application, the platform is neither unknown nor
  denied, and the daily limit, when there is one, is not reached; it passes exactly when
  it has no reason, and it has one reason for each failed check.
\<close>

theorem EvaluateSafetyGate_correct:
  "(gate_Passed (EvaluateSafetyGate inp) \<longleftrightarrow>
      sgi_JobVerified inp \<and> sgi_ResumeVerified inp
      \<and> AnswerStatusReview \<notin> ans_Status ` set (app_Answers (sgi_Application inp))
      \<and> \<not> sgi_IsDuplicate inp \<and> sgi_Platform inp \<notin> {PlatformPolicyUnknown, PlatformPolicyDenied}
      \<and> (sgi_DailyApplicationLimit inp \<le> 0
         \<or> sgi_ApplicationsSubmittedToday inp < sgi_DailyApplicationLimit inp))
   \<and> (gate_Passed (EvaluateSafetyGate inp) \<longleftrightarrow> gate_Reasons (EvaluateSafetyGate inp) = [])
   \<and> length (gate_Reasons (EvaluateSafetyGate inp)) =
       length (filter id [\<not> sgi_JobVerified inp, \<not> sgi_ResumeVerified inp,
         HasUnresolvedReview (app_Answers (sgi_Application inp)), sgi_IsDuplicate inp,
         sgi_Platform inp = PlatformPolicyUnknown \<or> sgi_Platform inp = PlatformPolicyDenied,
         0 < sgi_DailyApplicationLimit inp
           \<and> sgi_DailyApplicationLimit inp \<le> sgi_ApplicationsSubmittedToday inp])"
proof (intro conjI)
  show "gate_Passed (EvaluateSafetyGate inp) \<longleftrightarrow> gate_Reasons (EvaluateSafetyGate inp) = []"
    by (rule gate_Reasons_empty)
next
  show "gate_Passed (EvaluateSafetyGate inp) \<longleftrightarrow>
      sgi_JobVerified inp \<and> sgi_ResumeVerified inp
      \<and> AnswerStatusReview \<notin> ans_Status ` set (app_Answers (sgi_Application inp))
      \<and> \<not> sgi_IsDuplicate inp \<and> sgi_Platform inp \<notin> {PlatformPolicyUnknown, PlatformPolicyDenied}
      \<and> (sgi_DailyApplicationLimit inp \<le> 0
         \<or> sgi_ApplicationsSubmittedToday inp < sgi_DailyApplicationLimit inp)"
    by (auto simp: gate_Passed_iff image_iff)
qed (simp add: EvaluateSafetyGate_def Let_def)

text \<open>
  C5. What a READY application is made of, over every history of the package's operations:
  once past the gate (READY or any later status but CANCELLED), an application carries a
  passed gate result unless \<open>Transition\<close> itself took it to READY; if in addition every gate
  result it was given was its own and its answers all come from \<open>Classify\<close>, then every answer is AUTO and
  backed by allowed claims in a category that may be automated; and its resume is a version
  of the resume pipeline that either was compiled to exactly one page or was approved by a
  human, unless \<open>Transition\<close> itself took it to REVIEW.  These exceptions are real:
  \<open>Transition\<close> is exported and allows both steps.
\<close>

theorem prepared_past_gate:
  assumes "prepared newID now claims {v. produced tp rnow p v} ds a" and "app_Status a \<in> past_gate"
  shows "(BareStep StatusReady \<notin> ds \<longrightarrow> (\<exists>g. app_SafetyGate a = Some g \<and> gate_Passed g))
     \<and> (BareStep StatusReady \<notin> ds \<and> ForeignGate \<notin> ds \<and> HandAnswers \<notin> ds \<longrightarrow>
          (\<forall>x \<in> set (app_Answers a). ans_Status x = AnswerStatusAuto \<and> answer_backed claims x))
     \<and> (BareStep StatusReview \<notin> ds \<longrightarrow>
          (\<exists>v. produced tp rnow p v \<and> ver_ID v = app_ResumeVersionID a
             \<and> (ver_Status v = ResumeValidated \<and> ver_PageCount v = 1 \<or> ver_Status v = ResumeApproved)))"
proof (intro conjI impI)
  note inv = prepared_inv [OF assms(1), unfolded app_inv_def] assms(2)
  show "\<exists>g. app_SafetyGate a = Some g \<and> gate_Passed g" if "BareStep StatusReady \<notin> ds"
    using inv that by blast
  show "\<forall>x \<in> set (app_Answers a). ans_Status x = AnswerStatusAuto \<and> answer_backed claims x"
    if "BareStep StatusReady \<notin> ds \<and> ForeignGate \<notin> ds \<and> HandAnswers \<notin> ds"
    using inv that by simp
  assume "BareStep StatusReview \<notin> ds"
  with inv obtain v where v: "produced tp rnow p v" "ver_ID v = app_ResumeVersionID a"
    "ver_Status v \<in> {ResumeValidated, ResumeApproved}" by blast
  from produced_inv [OF v(1)] v show "\<exists>v. produced tp rnow p v \<and> ver_ID v = app_ResumeVersionID a
     \<and> (ver_Status v = ResumeValidated \<and> ver_PageCount v = 1 \<or> ver_Status v = ResumeApproved)"
    by (auto simp: version_inv_def)
qed

definition sample_score :: Score where
  "sample_score = zeroScore\<lparr>score_Recommendation := RecommendationApply\<rparr>"

definition sample_gate :: "Application \<Rightarrow> SafetyGateInput" where
  "sample_gate a =
     \<lparr>sgi_Application = a, sgi_JobVerified = True, sgi_ResumeVerified = True, sgi_IsDuplicate = False,
      sgi_Platform = PlatformPolicyAllowed, sgi_ApplicationsSubmittedToday = 0,
      sgi_DailyApplicationLimit = 3\<rparr>"

definition sample_answer :: Answer where
  "sample_answer =
     \<lparr>ans_ID = ''a'', ans_QuestionText = ''Years of Go?'', ans_Category = CategoryExperience,
      ans_AnswerText = ''5'', ans_ClaimIDs = [''c''], ans_Confidence = AnswerConfidenceHigh,
      ans_Status = AnswerStatusReview, ans_Reason = []\<rparr>"

definition sample_claims :: "Claim list" where
  "sample_claims =
     [\<lparr>claim_ID = ''c'', claim_ProfileID = ''p'', claim_ProfileVersion = 1, claim_Text = ''Five years of Go'',
       claim_Source = SourceProfile, claim_Confidence = ConfidenceHigh, claim_AllowedForResume = True,
       claim_Notes = [], claim_CreatedAt = zeroTime\<rparr>]"

lemma sample_prepared:
  assumes "v \<in> vs" and "ver_Status v = ResumeValidated" and "claim_allowed claims ''c''"
  shows "\<exists>a. prepared (ret ''app-1'' :: (unit, string) state) (ret zeroTime) claims vs {} a
     \<and> app_Status a = StatusReady \<and> app_Answers a = [Classify sample_answer claims]
     \<and> app_ResumeVersionID a = ver_ID v"
proof -
  obtain a w where a: "run_state (FromJob (ret ''app-1'') (ret zeroTime) zeroJob ''p'') () = (a, w)"
    by (metis surj_pair)
  let ?p = "prepared (ret ''app-1'' :: (unit, string) state) (ret zeroTime) claims vs {}"
  from a have st: "app_Status a = StatusDiscovered" "app_Answers a = []"
    by (auto simp: FromJob_def zeroApplication_def)
  let ?c = "a\<lparr>app_Answers := [Classify sample_answer claims]\<rparr>"
  let ?q = "?c\<lparr>app_Status := StatusQualified\<rparr>"
  let ?s = "?c\<lparr>app_Status := StatusPreparing\<rparr>"
  let ?r = "?c\<lparr>app_Status := StatusReview, app_ResumeVersionID := ver_ID v\<rparr>"
  have auto: "ans_Status (Classify sample_answer claims) = AnswerStatusAuto"
    using assms(3) by (simp add: Classify_Status answer_backed_def sample_answer_def)
  have "?p a" using a by (rule prepared_FromJob)
  from prepared_answers [OF this, of "[sample_answer]"] have "?p ?c" by (simp add: st)
  then have "?p ?q" by (rule prepared_Qualify [of _ _ _ _ _ _ sample_score]) (simp add: Qualify_Inr st sample_score_def)
  then have "?p ?s" by (rule prepared_StartPreparing) (simp add: StartPreparing_Inr)
  then have "?p ?r" using assms(1) by (rule prepared_AttachResume) (simp add: AttachResume_Inr assms(2))
  then have "?p (?r\<lparr>app_SafetyGate := Some (EvaluateSafetyGate (sample_gate ?r)), app_Status := StatusReady\<rparr>)"
    by (rule prepared_Ready [of _ _ _ _ _ _ "sample_gate ?r"])
       (simp_all add: Ready_Inr gate_Passed_iff, simp_all add: sample_gate_def auto)
  then show ?thesis by (intro exI conjI) (assumption, simp, simp, simp)
qed

theorem prepared_past_gate_witness:
  "\<exists>(a :: Application) v.
     prepared (ret ''app-1'' :: (unit, string) state) (ret zeroTime) sample_claims
       {v. produced sample_template_pkg sample_now (NewResumePipeline (sample_compiler 1)) v} {} a
     \<and> app_Status a = StatusReady \<and> app_Answers a = [Classify sample_answer sample_claims]
     \<and> ans_Status (Classify sample_answer sample_claims) = AnswerStatusAuto
     \<and> (\<exists>g. app_SafetyGate a = Some g \<and> gate_Passed g)
     \<and> produced sample_template_pkg sample_now (NewResumePipeline (sample_compiler 1)) v
     \<and> ver_ID v = app_ResumeVersionID a"
proof -
  let ?P = "produced sample_template_pkg sample_now (NewResumePipeline (sample_compiler 1))"
  obtain v w where run: "run_state (Generate sample_template_pkg sample_now
      (NewResumePipeline (sample_compiler 1)) sample_input) 0 = (Inr v, w)"
    and st: "ver_Status v = ResumeValidated"
    by (simp add: sample_resume_defs Let_def)
  have v: "v \<in> {v. ?P v}" using produced_Generate [OF run] by simp
  have "claim_allowed sample_claims ''c''" by (simp add: claim_allowed_def sample_claims_def)
  from sample_prepared [OF v st this] obtain a where
    a: "prepared (ret ''app-1'' :: (unit, string) state) (ret zeroTime) sample_claims {v. ?P v} {} a"
       "app_Status a = StatusReady" "app_Answers a = [Classify sample_answer sample_claims]" by blast
  have "app_Status a \<in> past_gate" by (simp add: a)
  from prepared_past_gate [OF a(1) this] a show ?thesis by auto
qed

text \<open>
  C28. Duplicate detection over every history of saves: \<open>CheckDuplicate\<close> reports a duplicate
  exactly for the jobs that some application was saved for, names the one saved last for
  that job, and changes nothing; and with the flag it returns, the gate fails with the
  reason of a duplicate, so that \<open>Ready\<close> refuses every application on that gate result.
\<close>

theorem duplicate_refused_by_gate:
  assumes "run_state (save_all fakeAppStore_ops as) newFakeAppStore = ((), s)"
    and "run_state (CheckDuplicate fakeAppStore_ops i) s = ((found, dup, err), s')"
  shows "(dup \<longleftrightarrow> i \<in> app_JobID ` set as) \<and> s' = s \<and> err = None
     \<and> (dup \<longrightarrow> found = last (filter (\<lambda>a. app_JobID a = i) as)
        \<and> (\<forall>inp c. sgi_IsDuplicate inp = dup \<longrightarrow>
             ''duplicate application detected for this job'' \<in> set (gate_Reasons (EvaluateSafetyGate inp))
             \<and> Ready c (EvaluateSafetyGate inp) = Inl (ErrorString (''application: safety gate failed: ''
                 @ fmt_strings (gate_Reasons (EvaluateSafetyGate inp))))))"
proof -
  have j: "fas_byJobID s i = (if i \<in> app_JobID ` set as then Some (last (filter (\<lambda>a. app_JobID a = i) as)) else None)"
    using fake_apps.run_save_all [OF assms(1)] by (simp add: saved_for_job newFakeAppStore_def)
  have "(dup \<longleftrightarrow> i \<in> app_JobID ` set as) \<and> s' = s \<and> err = None
      \<and> (dup \<longrightarrow> found = last (filter (\<lambda>a. app_JobID a = i) as))"
    using assms(2) by (auto simp: fake_apps.run_CheckDuplicate j split: if_splits)
  moreover have "''duplicate application detected for this job'' \<in> set (gate_Reasons (EvaluateSafetyGate inp))"
    if "sgi_IsDuplicate inp" for inp using that by (simp add: EvaluateSafetyGate_def Let_def)
  moreover have "\<not> gate_Passed (EvaluateSafetyGate inp)" if "sgi_IsDuplicate inp" for inp
    using that by (simp add: gate_Passed_iff)
  ultimately show ?thesis by (simp add: Ready_def)
qed

theorem duplicate_refused_by_gate_witness:
  "\<exists>s. run_state (save_all fakeAppStore_ops [zeroApplication\<lparr>app_JobID := ''j''\<rparr>,
            zeroApplication\<lparr>app_JobID := ''k''\<rparr>, zeroApplication\<lparr>app_JobID := ''j'', app_ID := ''2''\<rparr>])
         newFakeAppStore = ((), s)
     \<and> run_state (CheckDuplicate fakeAppStore_ops ''j'') s
         = ((zeroApplication\<lparr>app_JobID := ''j'', app_ID := ''2''\<rparr>, True, None), s)
     \<and> (\<forall>c. \<exists>e. Ready c (EvaluateSafetyGate ((sample_gate c)\<lparr>sgi_IsDuplicate := True\<rparr>)) = Inl e)"
proof -
  let ?as = "[zeroApplication\<lparr>app_JobID := ''j''\<rparr>, zeroApplication\<lparr>app_JobID := ''k''\<rparr>,
    zeroApplication\<lparr>app_JobID := ''j'', app_ID := ''2''\<rparr>]"
  obtain s where s: "run_state (save_all fakeAppStore_ops ?as) newFakeAppStore = ((), s)"
    by (metis (full_types) prod.collapse old.unit.exhaust)
  obtain f d e s2 where c: "run_state (CheckDuplicate fakeAppStore_ops ''j'') s = ((f, d, e), s2)"
    by (metis prod.collapse)
  from duplicate_refused_by_gate [OF s c]
  have fde: "d" "f = zeroApplication\<lparr>app_JobID := ''j'', app_ID := ''2''\<rparr>" "s2 = s" "e = None" by simp_all
  moreover have "\<exists>e. Ready x (EvaluateSafetyGate ((sample_gate x)\<lparr>sgi_IsDuplicate := True\<rparr>)) = Inl e" for x
    using duplicate_refused_by_gate [OF s c, THEN conjunct2, THEN conjunct2, THEN conjunct2] fde(1) by simp
  ultimately show ?thesis using s c by - (rule exI [of _ s], simp)
qed

lemma queue_answers_eq:
  "queue_answers a anss items found =
   (items @ map (\<lambda>x. \<lparr>ri_ApplicationID = app_ID a, ri_JobID = app_JobID a, ri_AnswerID = ans_ID x,
                     ri_Reason = ans_Reason x\<rparr>) (filter (\<lambda>x. ans_Status x = AnswerStatusReview) anss),
    found \<or> HasUnresolvedReview anss)"
  by (induction anss arbitrary: items found) auto

definition queue_items :: "Application \<Rightarrow> ReviewItem list" where
  "queue_items a =
     map (\<lambda>x. \<lparr>ri_ApplicationID = app_ID a, ri_JobID = app_JobID a, ri_AnswerID = ans_ID x,
               ri_Reason = ans_Reason x\<rparr>)
       (filter (\<lambda>x. ans_Status x = AnswerStatusReview) (app_Answers a))
     @ (if app_Status a = StatusReview \<and> \<not> HasUnresolvedReview (app_Answers a)
        then [\<lparr>ri_ApplicationID = app_ID a, ri_JobID = app_JobID a, ri_AnswerID = [],
               ri_Reason = ''application awaiting review (e.g. resume approval)''\<rparr>] else [])"

lemma queue_apps_eq: "queue_apps apps items = items @ concat (map queue_items apps)"
  by (induction apps arbitrary: items) (auto simp: queue_answers_eq queue_items_def)

text \<open>
  The review queue is complete and has nothing else: it is, application by application,
  one item for each answer in REVIEW with that answer's reason, in order, or a single item
  without answer for an application in REVIEW that has none; so an application is absent
  exactly when it is not in REVIEW and has no answer that would fail the gate.
\<close>

theorem BuildReviewQueue_correct:
  "BuildReviewQueue apps = concat (map queue_items apps)
   \<and> (queue_items a = [] \<longleftrightarrow> app_Status a \<noteq> StatusReview \<and> \<not> HasUnresolvedReview (app_Answers a))
   \<and> (app_Status a = StatusReview \<longrightarrow> length (queue_items a)
        = max 1 (length (filter (\<lambda>x. ans_Status x = AnswerStatusReview) (app_Answers a))))"
proof (intro conjI impI)
  let ?f = "filter (\<lambda>x. ans_Status x = AnswerStatusReview) (app_Answers a)"
  have f: "?f = [] \<longleftrightarrow> \<not> HasUnresolvedReview (app_Answers a)"
    by (auto simp: HasUnresolvedReview_iff filter_empty_conv)
  then show "queue_items a = [] \<longleftrightarrow> app_Status a \<noteq> StatusReview \<and> \<not> HasUnresolvedReview (app_Answers a)"
    by (auto simp: queue_items_def)
  assume "app_Status a = StatusReview"
  with f show "length (queue_items a) = max 1 (length ?f)"
    by (cases "?f") (simp_all add: queue_items_def)
qed (simp add: BuildReviewQueue_def queue_apps_eq)

theorem BuildReviewQueue_correct_witness:
  "length (queue_items (zeroApplication\<lparr>app_Status := StatusReview\<rparr>)) = 1"
  using BuildReviewQueue_correct [of "[]" "zeroApplication\<lparr>app_Status := StatusReview\<rparr>"]
  by (simp add: zeroApplication_def)

end
