(* ===== verification/Runner.thy ===== *)
theory Runner
  imports Recovery Application
begin

text \<open>
  \<open>internal/browser/runner.go\<close>: the runner that drives one browser session.  Every method
  is a definition over an arbitrary driver, session store, token store, screenshot store
  and notifier; a Go result \<open>(Result, error)\<close> is a pair, because some errors come with a
  filled result.
\<close>

section \<open>The browser runner\<close>

record 'w Notifier =
  NotifyHumanRequired :: "string \<Rightarrow> string \<Rightarrow> string \<Rightarrow> string \<Rightarrow> ('w, error) state"

record 'w ScreenshotStore =
  SaveScreenshot :: "string \<Rightarrow> Screenshot \<Rightarrow> ('w, string \<times> error) state"

record Limits =
  lim_BrowserSessionsPerDay :: int
  lim_MaxSessionMinutes :: int

record 'w Runner =
  run_Driver :: "'w Driver"
  run_Sessions :: "'w SessionStore"
  run_Tokens :: "'w RecoveryTokenStore"
  run_Screens :: "'w ScreenshotStore"
  run_Notifier :: "'w Notifier option"
  run_Limits :: Limits
  run_NewID :: "('w, string) state"
  run_Now :: "('w, Time) state"
  run_RecoveryTTL :: int

definition NewRunner ::
    "('w, Time) state \<Rightarrow> 'w Driver \<Rightarrow> 'w SessionStore \<Rightarrow> 'w RecoveryTokenStore \<Rightarrow> 'w ScreenshotStore
     \<Rightarrow> 'w Notifier option \<Rightarrow> Limits \<Rightarrow> ('w, string) state \<Rightarrow> 'w Runner" where
  "NewRunner time_Now driver sessions tokens screens notifier limits newID =
     \<lparr>run_Driver = driver, run_Sessions = sessions, run_Tokens = tokens, run_Screens = screens,
      run_Notifier = notifier, run_Limits = limits, run_NewID = newID, run_Now = time_Now,
      run_RecoveryTTL = 30 * time_Minute\<rparr>"

record StartInput =
  st_ApplicationID :: string
  st_Platform :: string
  st_StartURL :: string
  st_Fields :: "FieldValue list"

record Result =
  rslt_Session :: Session
  rslt_Outcome :: string

definition zeroResult :: Result where
  [zero_defs]: "zeroResult = \<lparr>rslt_Session = zeroSession, rslt_Outcome = []\<rparr>"

record SubmitInput =
  sub_Session :: Session
  sub_GateResult :: SafetyGateResult
  sub_SubmitSelector :: string

subsection \<open>Helpers\<close>

definition saveSession :: "'w Runner \<Rightarrow> Session \<Rightarrow> ('w, Session \<times> error) state" where
  "saveSession r s = do {
     (saved, err) \<leftarrow> SaveSession (run_Sessions r) s;
     case err of
       Some e \<Rightarrow> ret (zeroSession, Errorf ''browser: save session: '' e)
     | None \<Rightarrow> ret (saved, None)
   }"

definition run_isExpired :: "'w Runner \<Rightarrow> Session \<Rightarrow> ('w, bool) state" where
  "run_isExpired r s = do { now \<leftarrow> run_Now r; ret (IsExpired s now) }"

definition run_startOfToday :: "'w Runner \<Rightarrow> ('w, Time) state" where
  "run_startOfToday r = do { now \<leftarrow> run_Now r; ret (startOfDay now) }"

definition run_fail :: "'w Runner \<Rightarrow> Session \<Rightarrow> string \<Rightarrow> ('w, Result \<times> error) state" where
  "run_fail r session reason = do {
     let session = session\<lparr>sess_State := SessionFailed\<rparr>;
     let session = session\<lparr>sess_FailureReason := reason\<rparr>;
     (session, err) \<leftarrow> saveSession r session;
     ret (\<lparr>rslt_Session = session, rslt_Outcome = ''failed''\<rparr>, err)
   }"

definition run_expire :: "'w Runner \<Rightarrow> Session \<Rightarrow> ('w, Result \<times> error) state" where
  "run_expire r session = do {
     let session = session\<lparr>sess_State := SessionExpired\<rparr>;
     (session, err) \<leftarrow> saveSession r session;
     ret (\<lparr>rslt_Session = session, rslt_Outcome = ''expired''\<rparr>, err)
   }"

text \<open>The screenshot and its reference, taken the same way by \<open>checkpoint\<close> and \<open>pauseForHuman\<close>.\<close>

definition take_screenshot :: "'w Runner \<Rightarrow> string \<Rightarrow> ('w, string) state" where
  "take_screenshot r sessionID = do {
     (shot, err) \<leftarrow> drv_Screenshot (run_Driver r);
     if err = None then do {
       (ref, _) \<leftarrow> SaveScreenshot (run_Screens r) sessionID shot;
       ret ref
     } else ret []
   }"

definition checkpoint :: "'w Runner \<Rightarrow> Session \<Rightarrow> string \<Rightarrow> ('w, Session \<times> error) state" where
  "checkpoint r session step = do {
     ref \<leftarrow> take_screenshot r (sess_ID session);
     now \<leftarrow> run_Now r;
     i \<leftarrow> run_NewID r;
     (_, err) \<leftarrow> SaveCheckpoint (run_Sessions r)
       \<lparr>chk_ID = i, chk_SessionID = sess_ID session, chk_Step = step,
        chk_CurrentURL = sess_CurrentURL session, chk_ScreenshotRef = ref, chk_CreatedAt = now\<rparr>;
     case err of
       Some e \<Rightarrow> ret (session, Errorf ''browser: save checkpoint: '' e)
     | None \<Rightarrow> saveSession r (session\<lparr>sess_LastCheckpointAt := now, sess_ScreenshotRef := ref\<rparr>)
   }"

subsection \<open>The human handoff\<close>

text \<open>
  The second half of \<open>pauseForHuman\<close>: once the paused session is saved, a recovery token is
  made, its hash is stored and the human is told.
\<close>

definition issue_recovery ::
    "golib \<Rightarrow> (nat \<Rightarrow> ('w, string \<times> error) state) \<Rightarrow> 'w Runner \<Rightarrow> Session \<Rightarrow> string
     \<Rightarrow> ('w, Result \<times> error) state" where
  "issue_recovery lib rand_Read r session reason = do {
     now \<leftarrow> run_Now r;
     tok \<leftarrow> NewRecoveryToken lib rand_Read (sess_ID session) now (run_RecoveryTTL r);
     case tok of
       Inl e \<Rightarrow> ret (zeroResult, Errorf ''browser: generate recovery token: '' e)
     | Inr tok \<Rightarrow> do {
         terr \<leftarrow> SaveTokenHash (run_Tokens r) (tok_Hash tok) (sess_ID session) (tok_ExpiresAt tok);
         case terr of
           Some e \<Rightarrow> ret (zeroResult, Errorf ''browser: save recovery token: '' e)
         | None \<Rightarrow> do {
             let recoveryURL = ''/recovery/'' @ tok_Raw tok;
             case run_Notifier r of
               None \<Rightarrow> ret (\<lparr>rslt_Session = session, rslt_Outcome = ''human_required''\<rparr>, None)
             | Some notifier \<Rightarrow> do {
                 nerr \<leftarrow> NotifyHumanRequired notifier (sess_ID session) (sess_ApplicationID session)
                           reason recoveryURL;
                 case nerr of
                   Some e \<Rightarrow> ret (\<lparr>rslt_Session = session, rslt_Outcome = ''human_required''\<rparr>,
                                   Errorf ''browser: notify human required: '' e)
                 | None \<Rightarrow> ret (\<lparr>rslt_Session = session, rslt_Outcome = ''human_required''\<rparr>, None)
               }
           }
       }
   }"

definition pauseForHuman ::
    "golib \<Rightarrow> (nat \<Rightarrow> ('w, string \<times> error) state) \<Rightarrow> 'w Runner \<Rightarrow> Session \<Rightarrow> string
     \<Rightarrow> ('w, Result \<times> error) state" where
  "pauseForHuman lib rand_Read r session reason = do {
     screenshotRef \<leftarrow> take_screenshot r (sess_ID session);
     (url, _) \<leftarrow> drv_CurrentURL (run_Driver r);
     let session = (if url \<noteq> [] then session\<lparr>sess_CurrentURL := url\<rparr> else session);
     let session = session\<lparr>sess_State := SessionHumanReq, sess_HumanRequired := True,
                           sess_FailureReason := reason, sess_ScreenshotRef := screenshotRef\<rparr>;
     (session, err) \<leftarrow> saveSession r session;
     case err of
       Some e \<Rightarrow> ret (zeroResult, Some e)
     | None \<Rightarrow> issue_recovery lib rand_Read r session reason
   }"

text \<open>\<open>handled\<close> is the boolean of the triple: \<open>None\<close> means the caller continues.\<close>

definition handleNonNormalState ::
    "golib \<Rightarrow> (nat \<Rightarrow> ('w, string \<times> error) state) \<Rightarrow> 'w Runner \<Rightarrow> Session \<Rightarrow> PageState
     \<Rightarrow> ('w, (Result \<times> error) option) state" where
  "handleNonNormalState lib rand_Read r session st =
     (case st of
        StateNormal \<Rightarrow> ret None
      | StateCaptcha \<Rightarrow> do {
          res \<leftarrow> pauseForHuman lib rand_Read r session ''CAPTCHA detected''; ret (Some res) }
      | StateLoginWall \<Rightarrow> do {
          res \<leftarrow> pauseForHuman lib rand_Read r session (''unrecognized page state: '' @ string_of_PageState st);
          ret (Some res) }
      | StateUnknown \<Rightarrow> do {
          res \<leftarrow> pauseForHuman lib rand_Read r session (''unrecognized page state: '' @ string_of_PageState st);
          ret (Some res) }
      | StateNavigateErr \<Rightarrow> do { res \<leftarrow> run_fail r session ''navigation error''; ret (Some res) }
      | _ \<Rightarrow> do {
          res \<leftarrow> pauseForHuman lib rand_Read r session (''unhandled page state: '' @ string_of_PageState st);
          ret (Some res) })"

definition handleNonNormalStateAfterSubmit ::
    "golib \<Rightarrow> (nat \<Rightarrow> ('w, string \<times> error) state) \<Rightarrow> 'w Runner \<Rightarrow> Session \<Rightarrow> PageState
     \<Rightarrow> ('w, Result \<times> error) state" where
  "handleNonNormalStateAfterSubmit lib rand_Read r session st =
     (if st = StateCaptcha then pauseForHuman lib rand_Read r session ''CAPTCHA detected after submission attempt''
      else pauseForHuman lib rand_Read r session
             (''unexpected state after submission: '' @ string_of_PageState st))"

subsection \<open>Start, Resume, Submit\<close>

definition fillAndCheckpoint ::
    "golib \<Rightarrow> (nat \<Rightarrow> ('w, string \<times> error) state) \<Rightarrow> 'w Runner \<Rightarrow> Session \<Rightarrow> FieldValue list
     \<Rightarrow> ('w, Result \<times> error) state" where
  "fillAndCheckpoint lib rand_Read r session fvs = do {
     ferr \<leftarrow> drv_Fill (run_Driver r) fvs;
     case ferr of
       Some e \<Rightarrow> run_fail r session (''fill failed: '' @ Error_msg e)
     | None \<Rightarrow> do {
         (st, derr) \<leftarrow> drv_DetectState (run_Driver r);
         case derr of
           Some e \<Rightarrow> run_fail r session (''state detection failed: '' @ Error_msg e)
         | None \<Rightarrow> do {
             handled \<leftarrow> handleNonNormalState lib rand_Read r session st;
             case handled of
               Some res \<Rightarrow> ret res
             | None \<Rightarrow> do {
                 (session, err) \<leftarrow> checkpoint r session ''form_section'';
                 case err of
                   Some e \<Rightarrow> ret (zeroResult, Some e)
                 | None \<Rightarrow> ret (\<lparr>rslt_Session = session, rslt_Outcome = ''ready_for_review''\<rparr>, None)
               }
           }
       }
   }"

definition navigateAndFill ::
    "golib \<Rightarrow> (nat \<Rightarrow> ('w, string \<times> error) state) \<Rightarrow> 'w Runner \<Rightarrow> Session \<Rightarrow> string \<Rightarrow> FieldValue list
     \<Rightarrow> ('w, Result \<times> error) state" where
  "navigateAndFill lib rand_Read r session url fvs = do {
     expired \<leftarrow> run_isExpired r session;
     if expired then run_expire r session
     else do {
       (st, nerr) \<leftarrow> drv_Navigate (run_Driver r) url;
       case nerr of
         Some e \<Rightarrow> run_fail r session (''navigation failed: '' @ Error_msg e)
       | None \<Rightarrow> do {
           let session = session\<lparr>sess_CurrentURL := url\<rparr>;
           handled \<leftarrow> handleNonNormalState lib rand_Read r session st;
           case handled of
             Some res \<Rightarrow> ret res
           | None \<Rightarrow> fillAndCheckpoint lib rand_Read r session fvs
         }
     }
   }"

text \<open>\<open>time.Duration(n) * time.Minute\<close> is a 64-bit product.\<close>

definition run_Start ::
    "golib \<Rightarrow> (nat \<Rightarrow> ('w, string \<times> error) state) \<Rightarrow> 'w Runner \<Rightarrow> StartInput \<Rightarrow> ('w, Result \<times> error) state" where
  "run_Start lib rand_Read r inp = do {
     day \<leftarrow> run_startOfToday r;
     (count, err) \<leftarrow> CountStartedSince (run_Sessions r) day;
     case err of
       Some e \<Rightarrow> ret (zeroResult, Errorf ''browser: check session limit: '' e)
     | None \<Rightarrow>
         if count \<ge> lim_BrowserSessionsPerDay (run_Limits r) then
           ret (zeroResult, NewError (''browser: daily browser session limit (''
                  @ strconv_Itoa (lim_BrowserSessionsPerDay (run_Limits r)) @ '') reached''))
         else do {
           now \<leftarrow> run_Now r;
           i \<leftarrow> run_NewID r;
           let session = zeroSession\<lparr>sess_ID := i, sess_ApplicationID := st_ApplicationID inp,
             sess_Platform := st_Platform inp, sess_State := SessionStarting, sess_StartedAt := now,
             sess_ExpiresAt := time_Add now (wrap64 (lim_MaxSessionMinutes (run_Limits r) * time_Minute))\<rparr>;
           lerr \<leftarrow> drv_Launch (run_Driver r);
           case lerr of
             Some e \<Rightarrow> do {
               let session = session\<lparr>sess_State := SessionFailed, sess_FailureReason := Error_msg e\<rparr>;
               (saved, saveErr) \<leftarrow> saveSession r session;
               case saveErr of
                 Some se \<Rightarrow> ret (zeroResult, Errorf (''browser: launch failed ('' @ Error_msg e
                                   @ '') and save session also failed: '') se)
               | None \<Rightarrow> ret (\<lparr>rslt_Session = saved, rslt_Outcome = ''failed''\<rparr>, Errorf ''browser: launch: '' e)
             }
           | None \<Rightarrow> do {
               (session, serr) \<leftarrow> saveSession r (session\<lparr>sess_State := SessionRunning\<rparr>);
               case serr of
                 Some e \<Rightarrow> ret (zeroResult, Some e)
               | None \<Rightarrow> navigateAndFill lib rand_Read r session (st_StartURL inp) (st_Fields inp)
             }
         }
   }"

definition run_Resume ::
    "golib \<Rightarrow> (nat \<Rightarrow> ('w, string \<times> error) state) \<Rightarrow> 'w Runner \<Rightarrow> string \<Rightarrow> FieldValue list
     \<Rightarrow> ('w, Result \<times> error) state" where
  "run_Resume lib rand_Read r rawToken fvs = do {
     now \<leftarrow> run_Now r;
     red \<leftarrow> Redeem lib (run_Tokens r) rawToken now;
     case red of
       Inl e \<Rightarrow> ret (zeroResult, Errorf ''browser: resume: '' e)
     | Inr sessionID \<Rightarrow> do {
         (session, gerr) \<leftarrow> GetSession (run_Sessions r) sessionID;
         case gerr of
           Some e \<Rightarrow> ret (zeroResult, Errorf ''browser: resume: load session: '' e)
         | None \<Rightarrow> do {
             expired \<leftarrow> run_isExpired r session;
             if expired then run_expire r session
             else do {
               (st, derr) \<leftarrow> drv_DetectState (run_Driver r);
               case derr of
                 Some e \<Rightarrow> run_fail r session (''resume state detection failed: '' @ Error_msg e)
               | None \<Rightarrow>
                   if st \<noteq> StateNormal then
                     pauseForHuman lib rand_Read r session (''page still not resumable: '' @ string_of_PageState st)
                   else do {
                     (session, serr) \<leftarrow> saveSession r (session\<lparr>sess_State := SessionResumed\<rparr>);
                     case serr of
                       Some e \<Rightarrow> ret (zeroResult, Some e)
                     | None \<Rightarrow> fillAndCheckpoint lib rand_Read r session fvs
                   }
             }
           }
       }
   }"

definition run_Submit ::
    "golib \<Rightarrow> (nat \<Rightarrow> ('w, string \<times> error) state) \<Rightarrow> 'w Runner \<Rightarrow> SubmitInput \<Rightarrow> ('w, Result \<times> error) state" where
  "run_Submit lib rand_Read r inp =
     (if \<not> gate_Passed (sub_GateResult inp) then
        ret (zeroResult, NewError (''browser: refusing to submit: safety gate failed: ''
               @ fmt_strings (gate_Reasons (sub_GateResult inp))))
      else do {
        let session = sub_Session inp;
        expired \<leftarrow> run_isExpired r session;
        if expired then run_expire r session
        else do {
          (session, serr) \<leftarrow> saveSession r (session\<lparr>sess_State := SessionRunning\<rparr>);
          case serr of
            Some e \<Rightarrow> ret (zeroResult, Some e)
          | None \<Rightarrow> do {
              (st, err) \<leftarrow> drv_Submit (run_Driver r) (sub_SubmitSelector inp);
              case err of
                Some e \<Rightarrow> pauseForHuman lib rand_Read r session
                            (''submission outcome uncertain: '' @ Error_msg e)
              | None \<Rightarrow>
                  if st = StateSubmitted then do {
                    (session, serr) \<leftarrow> saveSession r (session\<lparr>sess_State := SessionCompleted\<rparr>);
                    case serr of
                      Some e \<Rightarrow> ret (zeroResult, Some e)
                    | None \<Rightarrow> ret (\<lparr>rslt_Session = session, rslt_Outcome = ''submitted''\<rparr>, None)
                  }
                  else if st = StateNormal then
                    pauseForHuman lib rand_Read r session ''submission outcome could not be confirmed''
                  else handleNonNormalStateAfterSubmit lib rand_Read r session st
            }
        }
      })"

subsection \<open>The state handlers\<close>

lemma handle_normal: "handleNonNormalState lib rand_Read r s StateNormal = ret None"
  by (simp add: handleNonNormalState_def)

lemma handle_option_some:
  assumes "st \<noteq> StateNormal"
  shows "State_Monad.bind (handleNonNormalState lib rand_Read r s st)
      (\<lambda>handled. case handled of Some res \<Rightarrow> ret res | None \<Rightarrow> f)
    = (if st = StateNavigateErr then run_fail r s ''navigation error''
       else pauseForHuman lib rand_Read r s
         (if st = StateCaptcha then ''CAPTCHA detected''
          else if st \<in> {StateLoginWall, StateUnknown} then ''unrecognized page state: '' @ string_of_PageState st
          else ''unhandled page state: '' @ string_of_PageState st))"
  using assms
  by (cases st) (simp_all add: handleNonNormalState_def)

end
