(* ===== verification/RunnerTests.thy ===== *)
theory RunnerTests
  imports Runner
begin

text \<open>
  The runner of \<open>internal/browser/runner_test.go\<close>: the scripted driver and the in-memory
  stores, put together in one world.  The theorems about stores and histories are about this
  runner; those about the driver calls hold for every runner.
\<close>

subsection \<open>The runner of the tests\<close>

record browser_world =
  bw_driver :: FakeDriver
  bw_sessions :: fakeSessionStore
  bw_tokens :: fakeTokenStore
  bw_shots :: "string \<Rightarrow> Screenshot list"
  bw_notes :: "(string \<times> string \<times> string \<times> string) list"
  bw_noteErr :: error
  bw_ids :: nat

definition fakeScreenshotStore_Save :: "string \<Rightarrow> Screenshot \<Rightarrow> (browser_world, string \<times> error) state" where
  "fakeScreenshotStore_Save sessionID shot = State (\<lambda>w.
     let w1 = w\<lparr>bw_shots := (bw_shots w)(sessionID := bw_shots w sessionID @ [shot])\<rparr>
     in ((sessionID @ ''-shot-'' @ rune_string (48 + length (bw_shots w1 sessionID)), None), w1))"

definition fakeNotifier_ops :: "browser_world Notifier" where
  "fakeNotifier_ops = \<lparr>NotifyHumanRequired = (\<lambda>sessionID applicationID reason recoveryURL. State (\<lambda>w.
     (bw_noteErr w, w\<lparr>bw_notes := bw_notes w @ [(sessionID, applicationID, reason, recoveryURL)]\<rparr>)))\<rparr>"

definition on_driver :: "(FakeDriver, 'a) state \<Rightarrow> (browser_world, 'a) state" where
  "on_driver = on_part bw_driver (\<lambda>d w. w\<lparr>bw_driver := d\<rparr>)"

definition on_sessions :: "(fakeSessionStore, 'a) state \<Rightarrow> (browser_world, 'a) state" where
  "on_sessions = on_part bw_sessions (\<lambda>s w. w\<lparr>bw_sessions := s\<rparr>)"

definition on_tokens :: "(fakeTokenStore, 'a) state \<Rightarrow> (browser_world, 'a) state" where
  "on_tokens = on_part bw_tokens (\<lambda>s w. w\<lparr>bw_tokens := s\<rparr>)"

definition test_newID :: "(browser_world, string) state" where
  "test_newID = State (\<lambda>w. (''id-'' @ rune_string (48 + (bw_ids w + 1)), w\<lparr>bw_ids := bw_ids w + 1\<rparr>))"

definition test_rand :: "string \<Rightarrow> nat \<Rightarrow> (browser_world, string \<times> error) state" where
  "test_rand buf n = ret (take n buf, None)"

definition test_runner :: "Limits \<Rightarrow> Time \<Rightarrow> browser_world Runner" where
  "test_runner limits t = NewRunner (ret t)
     \<lparr>drv_Launch = on_driver FakeDriver_Launch, drv_Navigate = (\<lambda>url. on_driver (FakeDriver_Navigate url)),
      drv_Fill = (\<lambda>fvs. on_driver (FakeDriver_Fill fvs)), drv_DetectState = on_driver FakeDriver_DetectState,
      drv_Screenshot = on_driver FakeDriver_Screenshot, drv_CurrentURL = on_driver FakeDriver_CurrentURL,
      drv_Submit = (\<lambda>sel. on_driver (FakeDriver_Submit sel)), drv_Close = on_driver FakeDriver_Close\<rparr>
     \<lparr>GetSession = (\<lambda>i. on_sessions (GetSession fakeSessionStore_ops i)),
      SaveSession = (\<lambda>s. on_sessions (SaveSession fakeSessionStore_ops s)),
      SaveCheckpoint = (\<lambda>c. on_sessions (SaveCheckpoint fakeSessionStore_ops c)),
      ListCheckpoints = (\<lambda>i. on_sessions (ListCheckpoints fakeSessionStore_ops i)),
      CountStartedSince = (\<lambda>since. on_sessions (CountStartedSince fakeSessionStore_ops since))\<rparr>
     \<lparr>SaveTokenHash = (\<lambda>h i e. on_tokens (SaveTokenHash fakeTokenStore_ops h i e)),
      LookupByHash = (\<lambda>h now. on_tokens (LookupByHash fakeTokenStore_ops h now)),
      RevokeByHash = (\<lambda>h. on_tokens (RevokeByHash fakeTokenStore_ops h))\<rparr>
     \<lparr>SaveScreenshot = fakeScreenshotStore_Save\<rparr> (Some fakeNotifier_ops) limits test_newID"

lemma test_runner_simps:
  "run_Driver (test_runner lims t) =
     \<lparr>drv_Launch = on_driver FakeDriver_Launch, drv_Navigate = (\<lambda>url. on_driver (FakeDriver_Navigate url)),
      drv_Fill = (\<lambda>fvs. on_driver (FakeDriver_Fill fvs)), drv_DetectState = on_driver FakeDriver_DetectState,
      drv_Screenshot = on_driver FakeDriver_Screenshot, drv_CurrentURL = on_driver FakeDriver_CurrentURL,
      drv_Submit = (\<lambda>sel. on_driver (FakeDriver_Submit sel)), drv_Close = on_driver FakeDriver_Close\<rparr>"
  "GetSession (run_Sessions (test_runner lims t)) i = on_sessions (GetSession fakeSessionStore_ops i)"
  "SaveSession (run_Sessions (test_runner lims t)) s = on_sessions (SaveSession fakeSessionStore_ops s)"
  "SaveCheckpoint (run_Sessions (test_runner lims t)) c = on_sessions (SaveCheckpoint fakeSessionStore_ops c)"
  "CountStartedSince (run_Sessions (test_runner lims t)) u
     = on_sessions (CountStartedSince fakeSessionStore_ops u)"
  "SaveTokenHash (run_Tokens (test_runner lims t)) h i e = on_tokens (SaveTokenHash fakeTokenStore_ops h i e)"
  "LookupByHash (run_Tokens (test_runner lims t)) h u = on_tokens (LookupByHash fakeTokenStore_ops h u)"
  "RevokeByHash (run_Tokens (test_runner lims t)) h = on_tokens (RevokeByHash fakeTokenStore_ops h)"
  "SaveScreenshot (run_Screens (test_runner lims t)) = fakeScreenshotStore_Save"
  "run_Notifier (test_runner lims t) = Some fakeNotifier_ops" "run_Limits (test_runner lims t) = lims"
  "run_NewID (test_runner lims t) = test_newID" "run_Now (test_runner lims t) = ret t"
  "run_RecoveryTTL (test_runner lims t) = 30 * time_Minute"
  by (simp_all add: test_runner_def NewRunner_def)

definition fake_driver :: "PageState list \<Rightarrow> PageState \<Rightarrow> FakeDriver" where
  "fake_driver detect submit =
     \<lparr>fd_LaunchErr = None, fd_NavigateStates = [StateNormal], fd_NavigateErr = None, fd_navigateCalls = 0,
      fd_DetectStates = detect, fd_detectCalls = 0, fd_FillErr = None, fd_SubmitState = submit,
      fd_SubmitErr = None, fd_Screenshots = [], fd_screenshotCalls = 0, fd_CurrentURLValue = [],
      fd_Closed = False, fd_FilledFields = [], fd_NavigatedURLs = []\<rparr>"

definition world_with :: "FakeDriver \<Rightarrow> browser_world" where
  "world_with d =
     \<lparr>bw_driver = d, bw_sessions = newFakeSessionStore, bw_tokens = Map.empty, bw_shots = (\<lambda>_. []),
      bw_notes = [], bw_noteErr = None, bw_ids = 0\<rparr>"

definition submit_input :: "bool \<Rightarrow> SubmitInput" where
  "submit_input pass =
     \<lparr>sub_Session = zeroSession\<lparr>sess_ID := ''s1''\<rparr>,
      sub_GateResult = \<lparr>gate_Passed = pass, gate_Reasons = (if pass then [] else [''job identity not verified''])\<rparr>,
      sub_SubmitSelector = ''#submit''\<rparr>"

abbreviation sample_limits :: Limits where
  "sample_limits \<equiv> \<lparr>lim_BrowserSessionsPerDay = 10, lim_MaxSessionMinutes = 30\<rparr>"

end
