(* ===== verification/RunnerStores.thy ===== *)
theory RunnerStores
  imports RunnerTests
begin

text \<open>
  What the runner of \<open>internal/browser/runner.go\<close> leaves in its stores.  The locale
  \<open>runner_env\<close> is the contract between the runner and its environment; the runner of the
  tests provides it.  The second half follows a session through the human handoff.
\<close>

subsection \<open>What is persisted\<close>

text \<open>The outcomes of a call that returns no error, with the state of the session returned.\<close>

definition outcome_states :: "(string \<times> SessionState) set" where
  "outcome_states =
     {(''human_required'', SessionHumanReq), (''failed'', SessionFailed), (''expired'', SessionExpired),
      (''submitted'', SessionCompleted), (''ready_for_review'', SessionRunning),
      (''ready_for_review'', SessionResumed)}"

lemma outcome_states_intros:
  "(''human_required'', SessionHumanReq) \<in> outcome_states" "(''failed'', SessionFailed) \<in> outcome_states"
  "(''expired'', SessionExpired) \<in> outcome_states" "(''submitted'', SessionCompleted) \<in> outcome_states"
  "x = SessionRunning \<or> x = SessionResumed \<Longrightarrow> (''ready_for_review'', x) \<in> outcome_states"
  by (auto simp: outcome_states_def)

text \<open>
  The contract between the runner and its environment: the session store keeps its laws,
  and nothing else the runner calls changes a session.
\<close>

locale runner_env = session_store "run_Sessions r" sess_of checks_of
  for r :: "'w Runner" and sess_of :: "'w \<Rightarrow> string \<Rightarrow> Session" and checks_of :: "'w \<Rightarrow> Checkpoint list" +
  fixes rand_Read :: "nat \<Rightarrow> ('w, string \<times> error) state"
  assumes env_leaves:
    "leaves sess_of (run_Now r)" "leaves sess_of (run_NewID r)" "leaves sess_of (rand_Read n)"
    "leaves sess_of (drv_Launch (run_Driver r))" "leaves sess_of (drv_Navigate (run_Driver r) url)"
    "leaves sess_of (drv_Fill (run_Driver r) fvs)" "leaves sess_of (drv_DetectState (run_Driver r))"
    "leaves sess_of (drv_Screenshot (run_Driver r))" "leaves sess_of (drv_CurrentURL (run_Driver r))"
    "leaves sess_of (drv_Submit (run_Driver r) sel)"
    "leaves sess_of (SaveScreenshot (run_Screens r) i shot)"
    "leaves sess_of (CountStartedSince (run_Sessions r) t)"
    "leaves sess_of (SaveTokenHash (run_Tokens r) h i t)" "leaves sess_of (LookupByHash (run_Tokens r) h t)"
    "leaves sess_of (RevokeByHash (run_Tokens r) h)"
    "run_Notifier r = Some nt \<Longrightarrow> leaves sess_of (NotifyHumanRequired nt a b c d)"
begin

definition persisted :: "Session \<Rightarrow> 'w \<Rightarrow> bool" where
  "persisted s w \<longleftrightarrow> sess_of w (sess_ID s) = s"

definition result_ok :: "Result \<times> error \<Rightarrow> 'w \<Rightarrow> bool" where
  "result_ok res w \<longleftrightarrow>
     (snd res = None \<longrightarrow> persisted (rslt_Session (fst res)) w
        \<and> (rslt_Outcome (fst res), sess_State (rslt_Session (fst res))) \<in> outcome_states)"

abbreviation anything :: "'w \<Rightarrow> bool" where "anything \<equiv> \<lambda>_. True"

lemma hoare_any: "hoare anything m (\<lambda>_. anything)"
  by (simp add: hoare_def)

lemma hoare_saveSession:
  "hoare anything (saveSession r s) (\<lambda>res w. res = (s, None) \<and> persisted s w)"
proof (rule hoareI)
  fix w res w' assume run: "run_state (saveSession r s) w = (res, w')"
  obtain b err w1 where s: "run_state (SaveSession (run_Sessions r) s) w = ((b, err), w1)" by (metis prod.collapse)
  from save_session [OF s] s run show "res = (s, None) \<and> persisted s w'"
    by (auto simp: saveSession_def persisted_def)
qed

lemma leaves_persisted: "leaves sess_of m \<Longrightarrow> hoare (persisted s) m (\<lambda>_. persisted s)"
  by (rule hoareI) (auto simp: persisted_def dest: leavesD)

lemma leaves_NewToken: "leaves sess_of (NewRecoveryToken lib rand_Read i now ttl)"
  unfolding NewRecoveryToken_def by (intro leaves_rules env_leaves)

lemma result_ok_err: "result_ok (res, Some e) w"
  by (simp add: result_ok_def)

lemma result_ok_final:
  "persisted s w \<Longrightarrow> (out, sess_State s) \<in> outcome_states \<Longrightarrow>
   result_ok (\<lparr>rslt_Session = s, rslt_Outcome = out\<rparr>, err) w"
  by (simp add: result_ok_def)

text \<open>A result is returned right after the session it holds was saved.\<close>

lemma hoare_save_then:
  assumes "hoare (persisted s) (f (s, None)) Q"
  shows "hoare anything (State_Monad.bind (saveSession r s) f) Q"
  by (rule hoare_bind [OF hoare_saveSession]) (use assms in \<open>auto simp: hoare_def\<close>)

lemma hoare_fail: "hoare anything (run_fail r s reason) result_ok"
  unfolding run_fail_def Let_def
  by (rule hoare_save_then) (simp add: hoare_return result_ok_final outcome_states_intros)

lemma hoare_expire: "hoare anything (run_expire r s) result_ok"
  unfolding run_expire_def Let_def
  by (rule hoare_save_then) (simp add: hoare_return result_ok_final outcome_states_intros)

lemma hoare_issue:
  assumes "sess_State s = SessionHumanReq"
  shows "hoare (persisted s) (issue_recovery lib rand_Read r s reason) result_ok"
  unfolding issue_recovery_def
  by (intro hoare_bind [OF leaves_persisted [OF env_leaves(1)]] hoare_bind [OF leaves_persisted [OF leaves_NewToken]]
        hoare_sum hoare_bind [OF leaves_persisted [OF env_leaves(13)]] hoare_option hoare_Let
        hoare_bind [OF leaves_persisted [OF env_leaves(16)]] hoare_return result_ok_err result_ok_final)
     (use assms in \<open>simp_all add: outcome_states_intros\<close>)

lemma hoare_pause: "hoare anything (pauseForHuman lib rand_Read r s reason) result_ok"
  unfolding pauseForHuman_def Let_def
  by (intro hoare_bind [OF hoare_any] hoare_prod hoare_save_then) (auto intro!: hoare_issue)

lemma hoare_handled:
  assumes "hoare anything m result_ok"
  shows "hoare anything (State_Monad.bind (handleNonNormalState lib rand_Read r s st)
      (\<lambda>handled. case handled of Some res \<Rightarrow> ret res | None \<Rightarrow> m)) result_ok"
  using assms
  by (cases "st = StateNormal")
     (simp_all add: handle_normal handle_option_some hoare_fail hoare_pause)

lemma hoare_checkpoint:
  "hoare anything (checkpoint r s step)
     (\<lambda>res w. snd res = None \<longrightarrow> persisted (fst res) w \<and> sess_State (fst res) = sess_State s)"
  unfolding checkpoint_def
  by (intro hoare_bind [OF hoare_any] hoare_prod hoare_option hoare_return)
     (auto intro!: hoare_weaken [OF hoare_saveSession])

lemma hoare_fill:
  assumes "sess_State s \<in> {SessionRunning, SessionResumed}"
  shows "hoare anything (fillAndCheckpoint lib rand_Read r s fvs) result_ok"
  unfolding fillAndCheckpoint_def
  by (intro hoare_bind [OF hoare_any] hoare_option hoare_prod hoare_fail hoare_handled
        hoare_bind [OF hoare_checkpoint] hoare_return result_ok_err)
     (use assms in \<open>auto intro!: result_ok_final outcome_states_intros(5)\<close>)

lemma hoare_navigate:
  assumes "sess_State s = SessionRunning"
  shows "hoare anything (navigateAndFill lib rand_Read r s url fvs) result_ok"
  unfolding navigateAndFill_def Let_def
  by (intro hoare_bind [OF hoare_any] hoare_if hoare_expire hoare_prod hoare_option hoare_fail hoare_handled
        hoare_fill) (use assms in simp_all)

lemma hoare_true: "hoare anything m Q \<Longrightarrow> hoare P m Q"
  by (simp add: hoare_def)

lemma hoare_Start: "hoare anything (run_Start lib rand_Read r inp) result_ok"
  unfolding run_Start_def Let_def
  by (intro hoare_bind [OF hoare_any] hoare_prod hoare_option hoare_if hoare_return result_ok_err
        hoare_save_then) (auto intro!: hoare_return result_ok_err hoare_true [OF hoare_navigate])

lemma hoare_Resume: "hoare anything (run_Resume lib rand_Read r raw fvs) result_ok"
  unfolding run_Resume_def
  by (intro hoare_bind [OF hoare_any] hoare_sum hoare_prod hoare_option hoare_if hoare_return result_ok_err
        hoare_expire hoare_fail hoare_pause hoare_save_then)
     (auto intro!: hoare_return result_ok_err hoare_true [OF hoare_fill])

lemma hoare_Submit: "hoare anything (run_Submit lib rand_Read r inp) result_ok"
  unfolding run_Submit_def handleNonNormalStateAfterSubmit_def Let_def
  by (intro hoare_if hoare_return result_ok_err hoare_bind [OF hoare_any] hoare_expire hoare_save_then)
     (auto intro!: hoare_bind [OF hoare_any] hoare_prod hoare_option hoare_pause hoare_if hoare_return
        result_ok_err result_ok_final hoare_save_then outcome_states_intros)

end

subsection \<open>The runner of the tests keeps the contract\<close>

definition bw_session :: "browser_world \<Rightarrow> string \<Rightarrow> Session" where
  "bw_session w = fss_get (bw_sessions w)"

definition bw_checkpoints :: "browser_world \<Rightarrow> Checkpoint list" where
  "bw_checkpoints w = fss_checkpoints (bw_sessions w)"

lemma leaves_bw:
  "leaves bw_session (on_driver m1)" "leaves bw_session (on_tokens m2)"
  "leaves bw_session test_newID" "leaves bw_session (fakeScreenshotStore_Save i shot)"
  by (simp_all add: leaves_def bw_session_def on_driver_def on_tokens_def test_newID_def
      fakeScreenshotStore_Save_def Let_def fun_eq_iff split: prod.splits)

interpretation test_run: runner_env "test_runner lims t" bw_session bw_checkpoints "test_rand buf" for lims t buf
proof
  fix s saved err i c c' and w w' :: browser_world
  show "run_state (GetSession (run_Sessions (test_runner lims t)) i) w = ((bw_session w i, None), w)"
    using fake_sessions.get_session [of i "bw_sessions w"]
    by (simp add: test_runner_simps on_sessions_def bw_session_def)
  show "saved = s \<and> err = None \<and> bw_session w' = (bw_session w)(sess_ID s := s)
      \<and> bw_checkpoints w' = bw_checkpoints w"
    if "run_state (SaveSession (run_Sessions (test_runner lims t)) s) w = ((saved, err), w')"
  proof -
    from that have "run_state (SaveSession fakeSessionStore_ops s) (bw_sessions w) = ((saved, err), bw_sessions w')"
      by (auto simp: test_runner_simps on_sessions_def split: prod.splits)
    from fake_sessions.save_session [OF this] show ?thesis
      by (simp add: bw_session_def bw_checkpoints_def)
  qed
  show "err = None \<and> bw_session w' = bw_session w \<and> bw_checkpoints w' = bw_checkpoints w @ [c]"
    if "run_state (SaveCheckpoint (run_Sessions (test_runner lims t)) c) w = ((c', err), w')"
  proof -
    from that have "run_state (SaveCheckpoint fakeSessionStore_ops c) (bw_sessions w) = ((c', err), bw_sessions w')"
      by (auto simp: test_runner_simps on_sessions_def split: prod.splits)
    from fake_sessions.save_checkpoint [OF this] show ?thesis
      by (simp add: bw_session_def bw_checkpoints_def)
  qed
qed (auto simp: test_runner_simps leaves_bw leaves_return test_rand_def,
     auto simp: leaves_def bw_session_def on_sessions_def fakeSessionStore_ops_def fakeNotifier_ops_def)

subsection \<open>Properties\<close>

lemma pause_outcome:
  "run_state (pauseForHuman lib rand_Read r s reason) w = ((res, err), w') \<Longrightarrow> rslt_Outcome res \<noteq> ''submitted''"
  by (auto simp: pauseForHuman_def issue_recovery_def zeroResult_def Let_def
      split: prod.splits option.splits sum.splits)

lemma submitted_signal:
  assumes "run_state (run_Submit lib rand_Read r inp) w = ((res, err), w')" and "rslt_Outcome res = ''submitted''"
  shows "gate_Passed (sub_GateResult inp) \<and> err = None
    \<and> (\<exists>w1 w2. run_state (drv_Submit (run_Driver r) (sub_SubmitSelector inp)) w1 = ((StateSubmitted, None), w2))"
  using assms
  by (auto simp: run_Submit_def handleNonNormalStateAfterSubmit_def run_expire_def zeroResult_def Let_def
      split: prod.splits option.splits if_splits dest: pause_outcome)

text \<open>
  \<open>submitted\<close> is reported only on evidence: for every driver and environment, \<open>Submit\<close>
  has the outcome \<open>submitted\<close> only when the gate had passed and the driver itself reported
  the state \<open>submitted\<close> without an error.
\<close>

theorem Submit_submitted_evidence:
  assumes "run_state (run_Submit lib rand_Read r inp) w = ((res, err), w')"
    and "rslt_Outcome res = ''submitted''"
  shows "gate_Passed (sub_GateResult inp) \<and> err = None
    \<and> (\<exists>w1 w2. run_state (drv_Submit (run_Driver r) (sub_SubmitSelector inp)) w1 = ((StateSubmitted, None), w2))"
  using assms by (rule submitted_signal)

lemma test_Submit:
  "\<exists>s w'. run_state (run_Submit lib (test_rand b) (test_runner sample_limits t)
        \<lparr>sub_Session = s0\<lparr>sess_ExpiresAt := zeroTime\<rparr>, sub_GateResult = \<lparr>gate_Passed = True, gate_Reasons = []\<rparr>,
         sub_SubmitSelector = sel\<rparr>) w = ((\<lparr>rslt_Session = s, rslt_Outcome = ''submitted''\<rparr>, None), w')
     \<and> sess_State s = SessionCompleted \<and> s\<lparr>sess_ExpiresAt := zeroTime\<rparr> = s \<and> bw_driver w' = bw_driver w"
  if "fd_SubmitErr (bw_driver w) = None" "fd_SubmitState (bw_driver w) = StateSubmitted"
  using that
  by (simp add: run_Submit_def test_runner_simps run_isExpired_def saveSession_def IsExpired_def time_defs
      on_sessions_def on_driver_def fakeSessionStore_ops_def FakeDriver_Submit_def Let_def)

theorem Submit_submitted_evidence_witness:
  "\<exists>w1 w2. run_state (drv_Submit (run_Driver (test_runner sample_limits zeroTime)) ''#go'') w1
     = ((StateSubmitted, None), w2)"
proof -
  from test_Submit [of "world_with (fake_driver [] StateSubmitted)" lib b zeroTime zeroSession "''#go''"]
  obtain s w' where "run_state (run_Submit lib (test_rand b) (test_runner sample_limits zeroTime)
      \<lparr>sub_Session = zeroSession\<lparr>sess_ExpiresAt := zeroTime\<rparr>,
       sub_GateResult = \<lparr>gate_Passed = True, gate_Reasons = []\<rparr>, sub_SubmitSelector = ''#go''\<rparr>)
      (world_with (fake_driver [] StateSubmitted)) = ((\<lparr>rslt_Session = s, rslt_Outcome = ''submitted''\<rparr>, None), w')"
    by (auto simp: world_with_def fake_driver_def)
  from Submit_submitted_evidence [OF this] show ?thesis by simp
qed

text \<open>
  Over the Playwright driver no submission is ever confirmed: it reports a normal page, a
  CAPTCHA or a login wall (or an error), never the success signal that \<open>driver.go\<close> names, so
  a runner over it never has the outcome \<open>submitted\<close>, whatever the page shows after the click.
\<close>

lemma Playwright_never_submitted:
  assumes "run_Driver r = Playwright_as_Driver glib plib"
    and "run_state (run_Submit lib rand_Read r inp) w = ((res, err), w')"
  shows "rslt_Outcome res \<noteq> ''submitted''"
proof
  assume "rslt_Outcome res = ''submitted''"
  from submitted_signal [OF assms(2) this] obtain w1 w2 where
    "run_state (drv_Submit (run_Driver r) (sub_SubmitSelector inp)) w1 = ((StateSubmitted, None), w2)" by blast
  then show False
    by (cases w1) (auto simp: assms(1) Playwright_as_Driver_def split: prod.splits option.splits dest: Submit_states)
qed

text \<open>
  C9. What a call returns is what it persisted: on the in-memory stores, when \<open>Start\<close>,
  \<open>Resume\<close> or \<open>Submit\<close> returns without an error, its outcome is one of the five, the
  session's state is the one of that outcome, and the returned session is the stored one.
\<close>

theorem Result_persisted:
  assumes "run_state (run_Start lib (test_rand b) (test_runner lims t) inp) w = ((res, None), w')
    \<or> run_state (run_Resume lib (test_rand b) (test_runner lims t) raw fvs) w = ((res, None), w')
    \<or> run_state (run_Submit lib (test_rand b) (test_runner lims t) sinp) w = ((res, None), w')"
  shows "run_state (GetSession fakeSessionStore_ops (sess_ID (rslt_Session res))) (bw_sessions w')
      = ((rslt_Session res, None), bw_sessions w')
    \<and> (rslt_Outcome res, sess_State (rslt_Session res)) \<in>
        {(''human_required'', SessionHumanReq), (''failed'', SessionFailed), (''expired'', SessionExpired),
         (''submitted'', SessionCompleted), (''ready_for_review'', SessionRunning),
         (''ready_for_review'', SessionResumed)}"
proof -
  note D = test_run.hoare_Start [THEN hoareD, OF TrueI] test_run.hoare_Resume [THEN hoareD, OF TrueI]
    test_run.hoare_Submit [THEN hoareD, OF TrueI]
  from assms have "test_run.result_ok (res, None) w'" by (elim disjE) (erule D)+
  then show ?thesis
    by (simp add: test_run.result_ok_def test_run.persisted_def bw_session_def fake_sessions.get_session
        outcome_states_def)
qed

abbreviation sample_submission :: SubmitInput where
  "sample_submission \<equiv> \<lparr>sub_Session = zeroSession\<lparr>sess_ExpiresAt := zeroTime\<rparr>,
     sub_GateResult = \<lparr>gate_Passed = True, gate_Reasons = []\<rparr>, sub_SubmitSelector = ''#go''\<rparr>"

theorem Result_persisted_witness:
  "\<forall>lib. \<exists>s w'. run_state (run_Submit lib (test_rand []) (test_runner sample_limits zeroTime) sample_submission)
       (world_with (fake_driver [] StateSubmitted)) = ((\<lparr>rslt_Session = s, rslt_Outcome = ''submitted''\<rparr>, None), w')
     \<and> run_state (GetSession fakeSessionStore_ops (sess_ID s)) (bw_sessions w') = ((s, None), bw_sessions w')
     \<and> sess_State s = SessionCompleted"
proof
  fix lib
  from test_Submit [of "world_with (fake_driver [] StateSubmitted)" lib "[]" zeroTime zeroSession "''#go''"]
  obtain s w' where r: "run_state (run_Submit lib (test_rand []) (test_runner sample_limits zeroTime) sample_submission)
      (world_with (fake_driver [] StateSubmitted)) = ((\<lparr>rslt_Session = s, rslt_Outcome = ''submitted''\<rparr>, None), w')"
    by (auto simp: world_with_def fake_driver_def)
  from Result_persisted [OF disjI2, OF disjI2, OF r] r
  show "\<exists>s w'. run_state (run_Submit lib (test_rand []) (test_runner sample_limits zeroTime) sample_submission)
       (world_with (fake_driver [] StateSubmitted)) = ((\<lparr>rslt_Session = s, rslt_Outcome = ''submitted''\<rparr>, None), w')
     \<and> run_state (GetSession fakeSessionStore_ops (sess_ID s)) (bw_sessions w') = ((s, None), bw_sessions w')
     \<and> sess_State s = SessionCompleted"
    by auto
qed

text \<open>
  \<open>Submit\<close> can be repeated: it looks neither at the state of the session it is given nor
  at earlier submissions, so the session that a successful \<open>Submit\<close> returned as COMPLETED
  can be submitted again, and is reported as \<open>submitted\<close> again.
\<close>

theorem Submit_repeats:
  assumes "fd_SubmitErr (bw_driver w) = None" and "fd_SubmitState (bw_driver w) = StateSubmitted"
    and "time_IsZero (sess_ExpiresAt (sub_Session inp))" and "gate_Passed (sub_GateResult inp)"
  shows "\<exists>s w1 w2.
     run_state (run_Submit lib (test_rand b) (test_runner lims t) inp) w
       = ((\<lparr>rslt_Session = s, rslt_Outcome = ''submitted''\<rparr>, None), w1)
     \<and> sess_State s = SessionCompleted
     \<and> run_state (run_Submit lib (test_rand b) (test_runner lims t) (inp\<lparr>sub_Session := s\<rparr>)) w1
       = ((\<lparr>rslt_Session = s, rslt_Outcome = ''submitted''\<rparr>, None), w2)"
  using assms
  by (simp add: run_Submit_def test_runner_simps run_isExpired_def saveSession_def IsExpired_def
      on_sessions_def on_driver_def fakeSessionStore_ops_def FakeDriver_Submit_def Let_def)

theorem Submit_repeats_witness:
  "\<exists>s w1 w2. run_state (run_Submit lib (test_rand b) (test_runner sample_limits zeroTime)
       ((submit_input True)\<lparr>sub_Session := s\<rparr>)) w1 = ((\<lparr>rslt_Session = s, rslt_Outcome = ''submitted''\<rparr>, None), w2)
     \<and> sess_State s = SessionCompleted"
  using Submit_repeats [of "world_with (fake_driver [] StateSubmitted)" "submit_input True" lib b sample_limits zeroTime]
  by (auto simp: world_with_def fake_driver_def submit_input_def zeroSession_def time_defs)

lemma test_screenshot:
  "\<exists>ref shots. run_state (take_screenshot (test_runner lims t) i) w
     = (ref, w\<lparr>bw_driver := (bw_driver w)\<lparr>fd_screenshotCalls := fd_screenshotCalls (bw_driver w) + 1\<rparr>,
               bw_shots := shots\<rparr>)"
  by (auto simp: take_screenshot_def test_runner_simps on_driver_def FakeDriver_Screenshot_def
      fakeScreenshotStore_Save_def Let_def)

lemma test_saveSession:
  "\<exists>st. run_state (saveSession (test_runner lims t) s) w = ((s, None), w\<lparr>bw_sessions := st\<rparr>)
     \<and> fss_get st = (fss_get (bw_sessions w))(sess_ID s := s)"
proof -
  obtain b err st where S: "run_state (SaveSession fakeSessionStore_ops s) (bw_sessions w) = ((b, err), st)"
    by (metis prod.collapse)
  with fake_sessions.save_session [OF S] show ?thesis
    by (auto simp: saveSession_def test_runner_simps on_sessions_def)
qed

lemma test_pause:
  assumes "run_state (pauseForHuman lib (test_rand b) (test_runner lims t) s reason) w = ((res, None), w1)"
  defines "raw \<equiv> b64_RawURL (take 32 b)"
  shows "\<exists>s1. bw_notes w1 = bw_notes w @ [(sess_ID s, sess_ApplicationID s, reason, ''/recovery/'' @ raw)]
    \<and> fss_get (bw_sessions w1) (sess_ID s) = s1 \<and> sess_ID s1 = sess_ID s
    \<and> sess_State s1 = SessionHumanReq \<and> sess_HumanRequired s1 \<and> sess_FailureReason s1 = reason
    \<and> sess_ExpiresAt s1 = sess_ExpiresAt s
    \<and> bw_tokens w1 = (bw_tokens w)(HashRecoveryToken lib raw \<mapsto> \<lparr>ent_sessionID = sess_ID s,
        ent_expiresAt = time_Add t (30 * time_Minute), ent_revoked = False\<rparr>)
    \<and> bw_driver w1 = (bw_driver w)\<lparr>fd_screenshotCalls := fd_screenshotCalls (bw_driver w) + 1\<rparr>"
proof -
  let ?r = "test_runner lims t"
  obtain ref shots where 1: "run_state (take_screenshot ?r (sess_ID s)) w
      = (ref, w\<lparr>bw_driver := (bw_driver w)\<lparr>fd_screenshotCalls := fd_screenshotCalls (bw_driver w) + 1\<rparr>,
                bw_shots := shots\<rparr>)" (is "_ = (ref, ?w)")
    using test_screenshot by blast
  let ?url = "fd_CurrentURLValue (bw_driver w)"
  let ?s = "(if ?url \<noteq> [] then s\<lparr>sess_CurrentURL := ?url\<rparr> else s)\<lparr>sess_State := SessionHumanReq,
      sess_HumanRequired := True, sess_FailureReason := reason, sess_ScreenshotRef := ref\<rparr>"
  obtain st where 2: "run_state (saveSession ?r ?s) ?w = ((?s, None), ?w\<lparr>bw_sessions := st\<rparr>)"
    and st: "fss_get st = (fss_get (bw_sessions ?w))(sess_ID ?s := ?s)"
    using test_saveSession by blast
  have url: "run_state (drv_CurrentURL (run_Driver ?r)) ?w = ((?url, None), ?w)"
    by (simp add: test_runner_simps on_driver_def FakeDriver_CurrentURL_def)
  have "run_state (pauseForHuman lib (test_rand b) ?r s reason) w
      = run_state (issue_recovery lib (test_rand b) ?r ?s reason) (?w\<lparr>bw_sessions := st\<rparr>)"
    using 1 2 url by (simp add: pauseForHuman_def Let_def)
  with assms(1) have "w1 = ?w\<lparr>bw_sessions := st,
      bw_tokens := (bw_tokens w)(HashRecoveryToken lib raw \<mapsto> \<lparr>ent_sessionID = sess_ID s,
        ent_expiresAt = time_Add t (30 * time_Minute), ent_revoked = False\<rparr>),
      bw_notes := bw_notes w @ [(sess_ID s, sess_ApplicationID s, reason, ''/recovery/'' @ raw)]\<rparr>"
    by (auto simp: issue_recovery_def test_runner_simps NewRecoveryToken_def test_rand_def recoveryTokenBytes_def
        on_tokens_def fakeTokenStore_ops_def fakeNotifier_ops_def raw_def Let_def split: option.splits if_splits)
  with st show ?thesis by simp
qed

lemma test_checkpoint:
  "\<exists>s2 w2. run_state (checkpoint (test_runner lims t) s step) w = ((s2, None), w2)
     \<and> sess_ID s2 = sess_ID s \<and> sess_State s2 = sess_State s \<and> sess_HumanRequired s2 = sess_HumanRequired s
     \<and> sess_FailureReason s2 = sess_FailureReason s \<and> bw_tokens w2 = bw_tokens w
     \<and> fd_FilledFields (bw_driver w2) = fd_FilledFields (bw_driver w)"
proof -
  let ?r = "test_runner lims t"
  obtain ref shots where 1: "run_state (take_screenshot ?r (sess_ID s)) w
      = (ref, w\<lparr>bw_driver := (bw_driver w)\<lparr>fd_screenshotCalls := fd_screenshotCalls (bw_driver w) + 1\<rparr>,
                bw_shots := shots\<rparr>)" (is "_ = (ref, ?w)")
    using test_screenshot by blast
  let ?s = "s\<lparr>sess_LastCheckpointAt := t, sess_ScreenshotRef := ref\<rparr>"
  obtain i w3 where 2: "run_state test_newID ?w = (i, w3)" "bw_driver w3 = bw_driver ?w" "bw_tokens w3 = bw_tokens w"
    by (simp add: test_newID_def)
  obtain c w4 where 3: "run_state (SaveCheckpoint (run_Sessions ?r) \<lparr>chk_ID = i, chk_SessionID = sess_ID s,
      chk_Step = step, chk_CurrentURL = sess_CurrentURL s, chk_ScreenshotRef = ref, chk_CreatedAt = t\<rparr>) w3
      = ((c, None), w4)" "bw_driver w4 = bw_driver ?w" "bw_tokens w4 = bw_tokens w"
    using 2 by (simp add: test_runner_simps on_sessions_def fakeSessionStore_ops_def)
  obtain st where 4: "run_state (saveSession ?r ?s) w4 = ((?s, None), w4\<lparr>bw_sessions := st\<rparr>)"
    using test_saveSession by blast
  have "run_state (checkpoint ?r s step) w = ((?s, None), w4\<lparr>bw_sessions := st\<rparr>)"
    using 1 2(1) 3(1) 4 by (simp add: checkpoint_def test_runner_simps)
  with 3 show ?thesis by simp
qed

lemma nth_only: "\<not> Suc 0 \<le> n \<Longrightarrow> [x] ! n = x"
  by (cases n) simp_all

lemma test_resume:
  assumes "bw_tokens w (HashRecoveryToken lib raw) = Some e" "\<not> ent_revoked e" "\<not> time_After t (ent_expiresAt e)"
    and "fss_get (bw_sessions w) (ent_sessionID e) = s1" "\<not> IsExpired s1 t"
    and "fd_DetectStates (bw_driver w) = [StateNormal]" "fd_FillErr (bw_driver w) = None"
  shows "\<exists>s2 w2. run_state (run_Resume lib (test_rand b) (test_runner lims t) raw fvs) w
      = ((\<lparr>rslt_Session = s2, rslt_Outcome = ''ready_for_review''\<rparr>, None), w2)
    \<and> sess_ID s2 = sess_ID s1 \<and> sess_State s2 = SessionResumed \<and> sess_HumanRequired s2 = sess_HumanRequired s1
    \<and> sess_FailureReason s2 = sess_FailureReason s1
    \<and> bw_tokens w2 = (bw_tokens w)(HashRecoveryToken lib raw \<mapsto> e\<lparr>ent_revoked := True\<rparr>)
    \<and> fd_FilledFields (bw_driver w2) = fd_FilledFields (bw_driver w) @ [fvs]"
proof -
  let ?r = "test_runner lims t"
  let ?w1 = "w\<lparr>bw_tokens := (bw_tokens w)(HashRecoveryToken lib raw \<mapsto> e\<lparr>ent_revoked := True\<rparr>)\<rparr>"
  have 1: "run_state (Redeem lib (run_Tokens ?r) raw t) w = (Inr (ent_sessionID e), ?w1)"
    using assms(1-3) by (simp add: Redeem_def test_runner_simps on_tokens_def fakeTokenStore_ops_def Let_def)
  have 2: "run_state (GetSession (run_Sessions ?r) (ent_sessionID e)) ?w1 = ((s1, None), ?w1)"
    using assms(4) by (simp add: test_runner_simps on_sessions_def fakeSessionStore_ops_def)
  obtain w3 where 3: "run_state (drv_DetectState (run_Driver ?r)) ?w1 = ((StateNormal, None), w3)"
    and w3: "bw_driver w3 = (bw_driver w)\<lparr>fd_detectCalls := fd_detectCalls (bw_driver w) + 1\<rparr>"
      "bw_tokens w3 = bw_tokens ?w1"
    using assms(6) by (simp add: test_runner_simps on_driver_def FakeDriver_DetectState_def nth_only Let_def)
  let ?s = "s1\<lparr>sess_State := SessionResumed\<rparr>"
  obtain w4 where 4: "run_state (saveSession ?r ?s) w3 = ((?s, None), w4)"
    and w4: "bw_driver w4 = bw_driver w3" "bw_tokens w4 = bw_tokens w3"
    using test_saveSession [of lims t ?s w3] by auto
  obtain w5 where 5: "run_state (drv_Fill (run_Driver ?r) fvs) w4 = (None, w5)"
    and w5: "bw_driver w5 = (bw_driver w4)\<lparr>fd_FilledFields := fd_FilledFields (bw_driver w4) @ [fvs]\<rparr>"
      "bw_tokens w5 = bw_tokens w4"
    using assms(7) by (simp add: test_runner_simps on_driver_def FakeDriver_Fill_def w3 w4 Let_def)
  obtain w6 where 6: "run_state (drv_DetectState (run_Driver ?r)) w5 = ((StateNormal, None), w6)"
    and w6: "fd_FilledFields (bw_driver w6) = fd_FilledFields (bw_driver w5)" "bw_tokens w6 = bw_tokens w5"
    using assms(6) by (simp add: test_runner_simps on_driver_def FakeDriver_DetectState_def nth_only w3 w4 w5 Let_def)
  obtain s2 w2 where 7: "run_state (checkpoint ?r ?s ''form_section'') w6 = ((s2, None), w2)"
    and 8: "sess_ID s2 = sess_ID s1" "sess_State s2 = SessionResumed" "sess_HumanRequired s2 = sess_HumanRequired s1"
      "sess_FailureReason s2 = sess_FailureReason s1" "bw_tokens w2 = bw_tokens ?w1"
      "fd_FilledFields (bw_driver w2) = fd_FilledFields (bw_driver w) @ [fvs]"
    using test_checkpoint [of lims t ?s "''form_section''" w6] w3 w4 w5 w6 by auto
  have "run_state (fillAndCheckpoint lib (test_rand b) ?r ?s fvs) w4
      = ((\<lparr>rslt_Session = s2, rslt_Outcome = ''ready_for_review''\<rparr>, None), w2)"
    by (simp add: fillAndCheckpoint_def 5 6 7 handle_normal)
  moreover have "run_state (run_isExpired ?r s1) ?w1 = (False, ?w1)"
    using assms(5) by (simp add: run_isExpired_def test_runner_simps)
  moreover have "run_Now ?r = ret t" by (simp add: test_runner_simps)
  ultimately have "run_state (run_Resume lib (test_rand b) ?r raw fvs) w
      = ((\<lparr>rslt_Session = s2, rslt_Outcome = ''ready_for_review''\<rparr>, None), w2)"
    by (simp add: run_Resume_def 1 2 3 4)
  with 8 show ?thesis by auto
qed

lemma test_resume_revoked:
  assumes "bw_tokens w (HashRecoveryToken lib raw) = Some e" "ent_revoked e"
  shows "run_state (run_Resume lib (test_rand b) (test_runner lims t) raw fvs) w
     = ((zeroResult, Errorf ''browser: resume: '' (ErrorString ''browser: recovery token invalid or expired'')), w)"
  using assms
  by (simp add: run_Resume_def Redeem_def test_runner_simps on_tokens_def fakeTokenStore_ops_def Let_def)

text \<open>
  C16. The human handoff, end to end on the in-memory stores and the scripted driver: a pause
  stores the session as HUMAN_REQUIRED with the reason and tells the human an address
  \<open>/recovery/\<close> with a token; if that token is then used while the session is not expired
  and the page is normal again, the session is resumed, filled, checkpointed and ready for
  review (its HUMAN_REQUIRED flag and reason are still set); and the token works only once.
\<close>

theorem pause_then_resume:
  assumes "run_state (pauseForHuman lib (test_rand b) (test_runner lims t) s reason) w = ((res, None), w1)"
    and "\<not> IsExpired s t" and "fd_DetectStates (bw_driver w) = [StateNormal]"
    and "fd_FillErr (bw_driver w) = None"
  shows "\<exists>raw s2 w2. bw_notes w1 = bw_notes w @ [(sess_ID s, sess_ApplicationID s, reason, ''/recovery/'' @ raw)]
     \<and> sess_State (fss_get (bw_sessions w1) (sess_ID s)) = SessionHumanReq
     \<and> sess_FailureReason (fss_get (bw_sessions w1) (sess_ID s)) = reason
     \<and> run_state (run_Resume lib (test_rand b) (test_runner lims t) raw fvs) w1
         = ((\<lparr>rslt_Session = s2, rslt_Outcome = ''ready_for_review''\<rparr>, None), w2)
     \<and> sess_ID s2 = sess_ID s \<and> sess_State s2 = SessionResumed
     \<and> sess_HumanRequired s2 \<and> sess_FailureReason s2 = reason
     \<and> fd_FilledFields (bw_driver w2) = fd_FilledFields (bw_driver w) @ [fvs]
     \<and> run_state (run_Resume lib (test_rand b) (test_runner lims t) raw fvs) w2
         = ((zeroResult, Errorf ''browser: resume: '' (ErrorString ''browser: recovery token invalid or expired'')), w2)"
proof -
  let ?raw = "b64_RawURL (take 32 b)"
  from test_pause [OF assms(1)] obtain s1 where p:
    "bw_notes w1 = bw_notes w @ [(sess_ID s, sess_ApplicationID s, reason, ''/recovery/'' @ ?raw)]"
    "fss_get (bw_sessions w1) (sess_ID s) = s1" "sess_ID s1 = sess_ID s" "sess_State s1 = SessionHumanReq"
    "sess_HumanRequired s1" "sess_FailureReason s1 = reason" "sess_ExpiresAt s1 = sess_ExpiresAt s"
    "bw_tokens w1 = (bw_tokens w)(HashRecoveryToken lib ?raw \<mapsto> \<lparr>ent_sessionID = sess_ID s,
        ent_expiresAt = time_Add t (30 * time_Minute), ent_revoked = False\<rparr>)"
    "bw_driver w1 = (bw_driver w)\<lparr>fd_screenshotCalls := fd_screenshotCalls (bw_driver w) + 1\<rparr>" by blast
  let ?e = "\<lparr>ent_sessionID = sess_ID s, ent_expiresAt = time_Add t (30 * time_Minute), ent_revoked = False\<rparr>"
  have "bw_tokens w1 (HashRecoveryToken lib ?raw) = Some ?e" "\<not> time_After t (ent_expiresAt ?e)"
    "fss_get (bw_sessions w1) (ent_sessionID ?e) = s1" "\<not> IsExpired s1 t"
    using assms(2) p by (simp_all add: time_defs time_Minute_def IsExpired_def)
  from test_resume [OF this(1) _ this(2-4), of b lims fvs] assms(3,4) p(9) obtain s2 w2 where r:
    "run_state (run_Resume lib (test_rand b) (test_runner lims t) ?raw fvs) w1
      = ((\<lparr>rslt_Session = s2, rslt_Outcome = ''ready_for_review''\<rparr>, None), w2)"
    "sess_ID s2 = sess_ID s1" "sess_State s2 = SessionResumed" "sess_HumanRequired s2 = sess_HumanRequired s1"
    "sess_FailureReason s2 = sess_FailureReason s1"
    "bw_tokens w2 = (bw_tokens w1)(HashRecoveryToken lib ?raw \<mapsto> ?e\<lparr>ent_revoked := True\<rparr>)"
    "fd_FilledFields (bw_driver w2) = fd_FilledFields (bw_driver w) @ [fvs]" by auto
  have "run_state (run_Resume lib (test_rand b) (test_runner lims t) ?raw fvs) w2
      = ((zeroResult, Errorf ''browser: resume: '' (ErrorString ''browser: recovery token invalid or expired'')), w2)"
    by (rule test_resume_revoked [of _ _ _ "?e\<lparr>ent_revoked := True\<rparr>"]) (simp_all add: r(6))
  with p r show ?thesis by (intro exI [of _ ?raw] exI [of _ s2] exI [of _ w2]) simp
qed

theorem pause_then_resume_witness:
  "\<forall>lib :: golib. \<exists>raw s2 w1 w2. run_state (run_Resume lib (test_rand ''0123456789abcdef0123456789abcdef'')
        (test_runner sample_limits zeroTime) raw []) w1
      = ((\<lparr>rslt_Session = s2, rslt_Outcome = ''ready_for_review''\<rparr>, None), w2)
     \<and> sess_State s2 = SessionResumed \<and> bw_notes w1 \<noteq> []"
  (is "\<forall>lib. ?P lib")
proof
  fix lib :: golib
  let ?w = "world_with (fake_driver [StateNormal] StateNormal)"
  let ?b = "''0123456789abcdef0123456789abcdef''"
  obtain res err w1 where run: "run_state (pauseForHuman lib (test_rand ?b) (test_runner sample_limits zeroTime)
      zeroSession ''CAPTCHA detected'') ?w = ((res, err), w1)" by (metis prod.collapse)
  moreover from run have "err = None"
    by (auto simp: pauseForHuman_def issue_recovery_def take_screenshot_def saveSession_def test_runner_simps
        on_driver_def on_sessions_def on_tokens_def FakeDriver_Screenshot_def FakeDriver_CurrentURL_def
        fakeScreenshotStore_Save_def fakeSessionStore_ops_def fakeTokenStore_ops_def fakeNotifier_ops_def
        NewRecoveryToken_def test_rand_def world_with_def fake_driver_def Let_def)
  ultimately have run: "run_state (pauseForHuman lib (test_rand ?b) (test_runner sample_limits zeroTime)
      zeroSession ''CAPTCHA detected'') ?w = ((res, None), w1)" by simp
  have "\<not> IsExpired zeroSession zeroTime" "fd_DetectStates (bw_driver ?w) = [StateNormal]"
    "fd_FillErr (bw_driver ?w) = None"
    by (simp_all add: IsExpired_def zeroSession_def time_defs world_with_def fake_driver_def)
  from pause_then_resume [OF run this, of "[]"] show "?P lib" by fastforce
qed

end
