(* ===== verification/Config.thy ===== *)
theory Config
  imports Go_Lib
begin

text \<open>
  \<open>internal/config/config.go\<close>: configuration from the environment, which is a map from
  variable names to values (\<open>os.LookupEnv\<close>), and the loggers of
  \<open>internal/logging/logging.go\<close>.
\<close>

section \<open>Configuration\<close>

record ConfigLimits =
  cl_JobsDiscoveredPerDay :: int
  cl_DeepEvaluationsPerDay :: int
  cl_ApplicationsPerDay :: int
  cl_BrowserSessionsPerDay :: int
  cl_MaxRetriesPerApp :: int
  cl_MaxSessionMinutes :: int

record Config =
  cfg_Env :: string
  cfg_HTTPAddr :: string
  cfg_DatabaseURL :: string
  cfg_LogLevel :: string
  cfg_Limits :: ConfigLimits

type_synonym env = "string \<Rightarrow> string option"

definition zeroLimits :: ConfigLimits where
  "zeroLimits = \<lparr>cl_JobsDiscoveredPerDay = 0, cl_DeepEvaluationsPerDay = 0,
     cl_ApplicationsPerDay = 0, cl_BrowserSessionsPerDay = 0, cl_MaxRetriesPerApp = 0,
     cl_MaxSessionMinutes = 0\<rparr>"

definition getEnv :: "env \<Rightarrow> string \<Rightarrow> string \<Rightarrow> string" where
  "getEnv env key fallback =
     (case env key of Some v \<Rightarrow> if v \<noteq> [] then v else fallback | None \<Rightarrow> fallback)"

definition getEnvInt :: "env \<Rightarrow> string \<Rightarrow> int \<Rightarrow> goerror + int" where
  "getEnvInt env key fallback =
     (case env key of
        None \<Rightarrow> Inr fallback
      | Some v \<Rightarrow>
          if v = [] then Inr fallback
          else case strconv_Atoi v of
            Inl err \<Rightarrow> Inl (WrapError (''config: invalid integer for '' @ key @ '': '') err)
          | Inr n \<Rightarrow> Inr n)"

definition loadLimits :: "env \<Rightarrow> goerror + ConfigLimits" where
  "loadLimits env =
     (case getEnvInt env ''CAREERPILOT_LIMIT_JOBS_DISCOVERED_PER_DAY'' 100 of
        Inl err \<Rightarrow> Inl err
      | Inr jobs \<Rightarrow>
     (case getEnvInt env ''CAREERPILOT_LIMIT_DEEP_EVALUATIONS_PER_DAY'' 30 of
        Inl err \<Rightarrow> Inl err
      | Inr deep \<Rightarrow>
     (case getEnvInt env ''CAREERPILOT_LIMIT_APPLICATIONS_PER_DAY'' 15 of
        Inl err \<Rightarrow> Inl err
      | Inr apps \<Rightarrow>
     (case getEnvInt env ''CAREERPILOT_LIMIT_BROWSER_SESSIONS_PER_DAY'' 10 of
        Inl err \<Rightarrow> Inl err
      | Inr sessions \<Rightarrow>
     (case getEnvInt env ''CAREERPILOT_LIMIT_MAX_RETRIES_PER_APPLICATION'' 2 of
        Inl err \<Rightarrow> Inl err
      | Inr retries \<Rightarrow>
     (case getEnvInt env ''CAREERPILOT_LIMIT_MAX_SESSION_MINUTES'' 30 of
        Inl err \<Rightarrow> Inl err
      | Inr minutes \<Rightarrow>
          Inr \<lparr>cl_JobsDiscoveredPerDay = jobs, cl_DeepEvaluationsPerDay = deep,
               cl_ApplicationsPerDay = apps, cl_BrowserSessionsPerDay = sessions,
               cl_MaxRetriesPerApp = retries, cl_MaxSessionMinutes = minutes\<rparr>))))))"

definition Load :: "env \<Rightarrow> goerror + Config" where
  "Load env =
     (let cfg = \<lparr>cfg_Env = getEnv env ''CAREERPILOT_ENV'' ''development'',
                 cfg_HTTPAddr = getEnv env ''CAREERPILOT_HTTP_ADDR'' '':8080'',
                 cfg_DatabaseURL = getEnv env ''CAREERPILOT_DATABASE_URL'' '''',
                 cfg_LogLevel = getEnv env ''CAREERPILOT_LOG_LEVEL'' ''info'',
                 cfg_Limits = zeroLimits\<rparr>
      in case loadLimits env of
           Inl err \<Rightarrow> Inl err
         | Inr limits \<Rightarrow>
             let cfg = cfg\<lparr>cfg_Limits := limits\<rparr>
             in if cfg_Env cfg = ''production'' \<and> cfg_DatabaseURL cfg = []
                then Inl (ErrorString
                  ''config: CAREERPILOT_DATABASE_URL is required when CAREERPILOT_ENV=production'')
                else Inr cfg)"

section \<open>Logging\<close>

datatype slog_Level = LevelDebug | LevelInfo | LevelWarn | LevelError

definition parseLevel :: "golib \<Rightarrow> string \<Rightarrow> slog_Level" where
  "parseLevel lib level =
     (let l = strings_ToLower lib level
      in if l = ''debug'' then LevelDebug
         else if l = ''warn'' \<or> l = ''warning'' then LevelWarn
         else if l = ''error'' then LevelError
         else LevelInfo)"

text \<open>
  A logger is its level: \<open>New\<close> puts a JSON handler for the standard output around it.  What
  \<open>log/slog\<close> does with a record is to drop it or to hand it to the handler, which is the
  argument \<open>out\<close>; the numbers of the levels are those of the library.
\<close>

record Logger =
  log_Level :: slog_Level

type_synonym log_record = "slog_Level \<times> string \<times> (string \<times> string) list"

definition logging_New :: "golib \<Rightarrow> string \<Rightarrow> Logger" where
  "logging_New lib level = \<lparr>log_Level = parseLevel lib level\<rparr>"

definition level_num :: "slog_Level \<Rightarrow> int" where
  "level_num l = (case l of LevelDebug \<Rightarrow> - 4 | LevelInfo \<Rightarrow> 0 | LevelWarn \<Rightarrow> 4 | LevelError \<Rightarrow> 8)"

definition slog_Log :: "(log_record \<Rightarrow> ('w, unit) state) \<Rightarrow> Logger \<Rightarrow> slog_Level \<Rightarrow> string
    \<Rightarrow> (string \<times> string) list \<Rightarrow> ('w, unit) state" where
  "slog_Log out logger level msg attrs =
     (if level_num (log_Level logger) \<le> level_num level then out (level, msg, attrs) else ret ())"

text \<open>An error is logged at every level.\<close>

lemma slog_Error [simp]: "slog_Log out logger LevelError msg attrs = out (LevelError, msg, attrs)"
  by (cases "log_Level logger") (simp_all add: slog_Log_def level_num_def)

section \<open>What a loaded configuration guarantees\<close>

text \<open>The integer variables with their documented defaults.\<close>

definition limit_vars :: "(string \<times> int) list" where
  "limit_vars = [(''CAREERPILOT_LIMIT_JOBS_DISCOVERED_PER_DAY'', 100),
     (''CAREERPILOT_LIMIT_DEEP_EVALUATIONS_PER_DAY'', 30),
     (''CAREERPILOT_LIMIT_APPLICATIONS_PER_DAY'', 15),
     (''CAREERPILOT_LIMIT_BROWSER_SESSIONS_PER_DAY'', 10),
     (''CAREERPILOT_LIMIT_MAX_RETRIES_PER_APPLICATION'', 2),
     (''CAREERPILOT_LIMIT_MAX_SESSION_MINUTES'', 30)]"

definition limits_list :: "ConfigLimits \<Rightarrow> int list" where
  "limits_list l = [cl_JobsDiscoveredPerDay l, cl_DeepEvaluationsPerDay l,
     cl_ApplicationsPerDay l, cl_BrowserSessionsPerDay l, cl_MaxRetriesPerApp l,
     cl_MaxSessionMinutes l]"

lemma getEnvInt_int64: "getEnvInt env key d = Inr n \<Longrightarrow> int64 d \<Longrightarrow> int64 n"
  by (auto simp: getEnvInt_def split: option.splits if_splits sum.splits dest: Atoi_int64)

lemma loadLimits_Inr:
  "loadLimits env = Inr l \<longleftrightarrow> map (\<lambda>(k, d). getEnvInt env k d) limit_vars = map Inr (limits_list l)"
  by (cases l) (auto simp: loadLimits_def limit_vars_def limits_list_def split: sum.splits)

lemma Itoa_nonempty: "strconv_Itoa n \<noteq> []"
  by (simp add: strconv_Itoa_def nat_Itoa_digits)

text \<open>A variable set to the decimal notation of a 64-bit integer is read back as it.\<close>

lemma getEnvInt_Itoa: "env key = Some (strconv_Itoa n) \<Longrightarrow> int64 n \<Longrightarrow> getEnvInt env key d = Inr n"
  by (simp add: getEnvInt_def Atoi_Itoa Itoa_nonempty)

text \<open>
  A configuration is loaded exactly when every limit variable is unset, empty or a
  64-bit decimal integer and a production environment names its database; it then holds,
  for each limit, the value of its own variable or its documented default.
\<close>

theorem Load_correct:
  "Load env = Inr cfg \<longleftrightarrow>
     map (\<lambda>(k, d). getEnvInt env k d) limit_vars = map Inr (limits_list (cfg_Limits cfg)) \<and>
     cfg_Env cfg = getEnv env ''CAREERPILOT_ENV'' ''development'' \<and>
     cfg_HTTPAddr cfg = getEnv env ''CAREERPILOT_HTTP_ADDR'' '':8080'' \<and>
     cfg_DatabaseURL cfg = getEnv env ''CAREERPILOT_DATABASE_URL'' '''' \<and>
     cfg_LogLevel cfg = getEnv env ''CAREERPILOT_LOG_LEVEL'' ''info'' \<and>
     \<not> (cfg_Env cfg = ''production'' \<and> cfg_DatabaseURL cfg = [])"
  (is "_ \<longleftrightarrow> ?limits \<and> ?rest")
proof (cases "loadLimits env")
  case (Inl err)
  then have "\<not> ?limits" using loadLimits_Inr [of env "cfg_Limits cfg"] by simp
  with Inl show ?thesis by (simp add: Load_def)
next
  case (Inr l)
  then have "?limits \<longleftrightarrow> l = cfg_Limits cfg" using loadLimits_Inr [of env "cfg_Limits cfg"] by auto
  with Inr show ?thesis by (cases cfg) (auto simp: Load_def Let_def)
qed

end
