(* ===== verification/Notification.thy ===== *)
theory Notification
  imports RunnerStores Config
begin

text \<open>
  The package \<open>internal/notification\<close>: the service that saves a notification and then
  sends it, its two entry points, the log sender, and the service as the notifier of a
  browser runner.  The locale \<open>notify_env\<close> is the contract of a store and a sender; the
  fakes of \<open>notification_test.go\<close> provide it.
\<close>

section \<open>Notifications\<close>

datatype Kind = KindReviewRequired | KindHumanRequired | KindOther string

fun string_of_Kind :: "Kind \<Rightarrow> string" where
  "string_of_Kind KindReviewRequired = ''application.review_required''"
| "string_of_Kind KindHumanRequired = ''application.human_required''"
| "string_of_Kind (KindOther s) = s"

record Notification =
  note_ID :: string
  note_Kind :: Kind
  note_Company :: string
  note_Role :: string
  note_Reason :: string
  note_Progress :: string
  note_ActionURL :: string
  note_ExpiresAt :: Time
  note_CreatedAt :: Time

definition zeroNotification :: Notification where
  [zero_defs]: "zeroNotification =
     \<lparr>note_ID = [], note_Kind = KindOther [], note_Company = [], note_Role = [], note_Reason = [],
      note_Progress = [], note_ActionURL = [], note_ExpiresAt = zeroTime, note_CreatedAt = zeroTime\<rparr>"

record 'w Sender =
  Send :: "Notification \<Rightarrow> ('w, error) state"

record 'w NotificationStore =
  SaveNotification :: "Notification \<Rightarrow> ('w, error) state"

record 'w Service =
  svc_Sender :: "'w Sender"
  svc_Store :: "'w NotificationStore"
  svc_NewID :: "('w, string) state"
  svc_Now :: "('w, Time) state"

definition NewService ::
    "('w, Time) state \<Rightarrow> 'w Sender \<Rightarrow> 'w NotificationStore \<Rightarrow> ('w, string) state \<Rightarrow> 'w Service" where
  "NewService time_Now sender store newID =
     \<lparr>svc_Sender = sender, svc_Store = store, svc_NewID = newID, svc_Now = time_Now\<rparr>"

definition Service_notify :: "'w Service \<Rightarrow> Notification \<Rightarrow> ('w, error) state" where
  "Service_notify s n = do {
     i \<leftarrow> svc_NewID s;
     t \<leftarrow> svc_Now s;
     let n = n\<lparr>note_ID := i, note_CreatedAt := t\<rparr>;
     err \<leftarrow> SaveNotification (svc_Store s) n;
     case err of
       Some e \<Rightarrow> ret (Errorf ''notification: save: '' e)
     | None \<Rightarrow> do {
         err \<leftarrow> Send (svc_Sender s) n;
         case err of
           Some e \<Rightarrow> ret (Errorf ''notification: send: '' e)
         | None \<Rightarrow> ret None
       }
   }"

definition Service_NotifyReviewRequired ::
    "'w Service \<Rightarrow> string \<Rightarrow> string \<Rightarrow> string \<Rightarrow> string \<Rightarrow> string \<Rightarrow> ('w, error) state" where
  "Service_NotifyReviewRequired s company role reason progress actionURL =
     Service_notify s (zeroNotification\<lparr>note_Kind := KindReviewRequired, note_Company := company,
       note_Role := role, note_Reason := reason, note_Progress := progress, note_ActionURL := actionURL\<rparr>)"

definition Service_NotifyHumanRequired ::
    "'w Service \<Rightarrow> string \<Rightarrow> string \<Rightarrow> string \<Rightarrow> string \<Rightarrow> ('w, error) state" where
  "Service_NotifyHumanRequired s sessionID applicationID reason recoveryURL =
     Service_notify s (zeroNotification\<lparr>note_Kind := KindHumanRequired, note_Reason := reason,
       note_Progress := ''session '' @ sessionID @ '' (application '' @ applicationID @ '')'',
       note_ActionURL := recoveryURL\<rparr>)"

text \<open>\<open>*Service\<close> implements \<open>browser.Notifier\<close>.\<close>

definition Service_as_Notifier :: "'w Service \<Rightarrow> 'w Notifier" where
  "Service_as_Notifier s = \<lparr>NotifyHumanRequired = Service_NotifyHumanRequired s\<rparr>"

text \<open>The log sender; where its logger writes is the argument \<open>out\<close>.\<close>

record LogSender =
  ls_Logger :: Logger

definition notification_attrs :: "Notification \<Rightarrow> (string \<times> string) list" where
  "notification_attrs n =
     [(''kind'', string_of_Kind (note_Kind n)), (''company'', note_Company n), (''role'', note_Role n),
      (''reason'', note_Reason n), (''progress'', note_Progress n), (''action_url'', note_ActionURL n)]"

definition LogSender_Send :: "(log_record \<Rightarrow> ('w, unit) state) \<Rightarrow> LogSender \<Rightarrow> Notification \<Rightarrow> ('w, error) state" where
  "LogSender_Send out s n = do {
     _ \<leftarrow> slog_Log out (ls_Logger s) LevelInfo ''notification'' (notification_attrs n);
     ret None
   }"

definition LogSender_as_Sender :: "(log_record \<Rightarrow> ('w, unit) state) \<Rightarrow> LogSender \<Rightarrow> 'w Sender" where
  "LogSender_as_Sender out s = \<lparr>Send = LogSender_Send out s\<rparr>"

subsection \<open>The contract of the store and the sender\<close>

text \<open>
  Saving appends the notification or fails without effect; sending records the attempt,
  whatever its result; neither touches what the other keeps.
\<close>

locale notify_env =
  fixes s :: "'w Service"
    and saved_of :: "'w \<Rightarrow> Notification list"
    and sent_of :: "'w \<Rightarrow> Notification list"
  assumes save: "run_state (SaveNotification (svc_Store s) n) w = (err, w') \<Longrightarrow>
      saved_of w' = saved_of w @ (if err = None then [n] else []) \<and> sent_of w' = sent_of w"
    and send: "run_state (Send (svc_Sender s) n) w = (err, w') \<Longrightarrow>
      saved_of w' = saved_of w \<and> sent_of w' = sent_of w @ [n]"
    and env: "leaves (\<lambda>w. (saved_of w, sent_of w)) (svc_NewID s)"
      "leaves (\<lambda>w. (saved_of w, sent_of w)) (svc_Now s)"
begin

lemma notify_cases:
  assumes "run_state (Service_notify s n) w = (err, w')"
  shows "\<exists>i t. let m = n\<lparr>note_ID := i, note_CreatedAt := t\<rparr> in
     (\<exists>e. err = Errorf ''notification: save: '' e \<and> saved_of w' = saved_of w \<and> sent_of w' = sent_of w)
   \<or> (\<exists>e. err = Errorf ''notification: send: '' e \<and> saved_of w' = saved_of w @ [m] \<and> sent_of w' = sent_of w @ [m])
   \<or> (err = None \<and> saved_of w' = saved_of w @ [m] \<and> sent_of w' = sent_of w @ [m])"
proof -
  obtain i w1 where 1: "run_state (svc_NewID s) w = (i, w1)" by fastforce
  obtain t w2 where 2: "run_state (svc_Now s) w1 = (t, w2)" by fastforce
  let ?m = "n\<lparr>note_ID := i, note_CreatedAt := t\<rparr>"
  obtain e3 w3 where 3: "run_state (SaveNotification (svc_Store s) ?m) w2 = (e3, w3)" by fastforce
  obtain e4 w4 where 4: "run_state (Send (svc_Sender s) ?m) w3 = (e4, w4)" by fastforce
  from leavesD [OF env(1) 1] leavesD [OF env(2) 2] save [OF 3] send [OF 4] assms 1 2 3 4
  show ?thesis
    by (intro exI [of _ i] exI [of _ t])
       (auto simp: Service_notify_def Let_def split: option.splits)
qed

text \<open>Whatever was sent was saved before, and whatever was saved was sent.\<close>

end

record notify_world =
  nw_saved :: "Notification list"
  nw_saveErr :: error
  nw_sent :: "Notification list"
  nw_sendErr :: error
  nw_ids :: nat

definition fakeSender_ops :: "notify_world Sender" where
  "fakeSender_ops = \<lparr>Send = (\<lambda>n. State (\<lambda>w. (nw_sendErr w, w\<lparr>nw_sent := nw_sent w @ [n]\<rparr>)))\<rparr>"

definition fakeStore_ops :: "notify_world NotificationStore" where
  "fakeStore_ops = \<lparr>SaveNotification = (\<lambda>n. State (\<lambda>w.
     case nw_saveErr w of Some e \<Rightarrow> (Some e, w) | None \<Rightarrow> (None, w\<lparr>nw_saved := nw_saved w @ [n]\<rparr>)))\<rparr>"

definition testService :: "Time \<Rightarrow> notify_world Service" where
  "testService t = NewService (ret t) fakeSender_ops fakeStore_ops
     (State (\<lambda>w. (''notif-'' @ rune_string (48 + (nw_ids w + 1)), w\<lparr>nw_ids := nw_ids w + 1\<rparr>)))"

interpretation test_svc: notify_env "testService t" nw_saved nw_sent for t
  by unfold_locales
     (auto simp: testService_def NewService_def fakeSender_ops_def fakeStore_ops_def leaves_def dest: sym
       split: option.splits)

subsection \<open>A runner with the service as its notifier\<close>

definition with_service :: "'n Service \<Rightarrow> 'w Runner \<Rightarrow> ('w \<times> 'n) Runner" where
  "with_service svc r =
     \<lparr>run_Driver = \<lparr>drv_Launch = on_fst (drv_Launch (run_Driver r)),
        drv_Navigate = (\<lambda>url. on_fst (drv_Navigate (run_Driver r) url)),
        drv_Fill = (\<lambda>fvs. on_fst (drv_Fill (run_Driver r) fvs)),
        drv_DetectState = on_fst (drv_DetectState (run_Driver r)),
        drv_Screenshot = on_fst (drv_Screenshot (run_Driver r)),
        drv_CurrentURL = on_fst (drv_CurrentURL (run_Driver r)),
        drv_Submit = (\<lambda>sel. on_fst (drv_Submit (run_Driver r) sel)),
        drv_Close = on_fst (drv_Close (run_Driver r))\<rparr>,
      run_Sessions = \<lparr>GetSession = (\<lambda>i. on_fst (GetSession (run_Sessions r) i)),
        SaveSession = (\<lambda>s. on_fst (SaveSession (run_Sessions r) s)),
        SaveCheckpoint = (\<lambda>c. on_fst (SaveCheckpoint (run_Sessions r) c)),
        ListCheckpoints = (\<lambda>i. on_fst (ListCheckpoints (run_Sessions r) i)),
        CountStartedSince = (\<lambda>t. on_fst (CountStartedSince (run_Sessions r) t))\<rparr>,
      run_Tokens = \<lparr>SaveTokenHash = (\<lambda>h i t. on_fst (SaveTokenHash (run_Tokens r) h i t)),
        LookupByHash = (\<lambda>h t. on_fst (LookupByHash (run_Tokens r) h t)),
        RevokeByHash = (\<lambda>h. on_fst (RevokeByHash (run_Tokens r) h))\<rparr>,
      run_Screens = \<lparr>SaveScreenshot = (\<lambda>i shot. on_fst (SaveScreenshot (run_Screens r) i shot))\<rparr>,
      run_Notifier = Some \<lparr>NotifyHumanRequired =
        (\<lambda>s a reason url. on_snd (NotifyHumanRequired (Service_as_Notifier svc) s a reason url))\<rparr>,
      run_Limits = run_Limits r, run_NewID = on_fst (run_NewID r), run_Now = on_fst (run_Now r),
      run_RecoveryTTL = run_RecoveryTTL r\<rparr>"

lemma with_service_simps:
  "drv_Screenshot (run_Driver (with_service svc r)) = on_fst (drv_Screenshot (run_Driver r))"
  "drv_CurrentURL (run_Driver (with_service svc r)) = on_fst (drv_CurrentURL (run_Driver r))"
  "SaveSession (run_Sessions (with_service svc r)) s = on_fst (SaveSession (run_Sessions r) s)"
  "SaveTokenHash (run_Tokens (with_service svc r)) h i t = on_fst (SaveTokenHash (run_Tokens r) h i t)"
  "SaveScreenshot (run_Screens (with_service svc r)) i shot = on_fst (SaveScreenshot (run_Screens r) i shot)"
  "run_Notifier (with_service svc r) = Some \<lparr>NotifyHumanRequired =
     (\<lambda>s a reason url. on_snd (NotifyHumanRequired (Service_as_Notifier svc) s a reason url))\<rparr>"
  "run_Now (with_service svc r) = on_fst (run_Now r)"
  "run_RecoveryTTL (with_service svc r) = run_RecoveryTTL r"
  by (simp_all add: with_service_def)

lemma take_screenshot_service:
  "take_screenshot (with_service svc r) i = on_fst (take_screenshot r i)"
  by (rule state_ext) (auto simp: take_screenshot_def with_service_simps split: prod.splits)

lemma saveSession_service: "saveSession (with_service svc r) s = on_fst (saveSession r s)"
  by (rule state_ext) (auto simp: saveSession_def with_service_simps split: prod.splits option.splits)

subsection \<open>Properties\<close>

text \<open>
  C37. The audit trail of notifications: one call saves and sends at most one notification;
  it is sent only if it was saved, a failed save is reported and nothing is sent, and a
  failed send is reported with the notification kept; without an error it was both.
\<close>

theorem notify_audit_trail:
  assumes "run_state (Service_notify (testService t) n) w = (err, w')"
  shows "\<exists>new. nw_saved w' = nw_saved w @ new \<and> nw_sent w' = nw_sent w @ new \<and> length new \<le> 1
    \<and> (new = [] \<longleftrightarrow> nw_saveErr w \<noteq> None)
    \<and> (err = None \<longleftrightarrow> nw_saveErr w = None \<and> nw_sendErr w = None)
    \<and> (\<forall>m \<in> set new. note_ActionURL m = note_ActionURL n \<and> note_Reason m = note_Reason n
         \<and> note_CreatedAt m = t)"
  using assms
  by (auto simp: Service_notify_def testService_def NewService_def fakeSender_ops_def fakeStore_ops_def Let_def
      split: option.splits)

definition notify_world0 :: "error \<Rightarrow> notify_world" where
  "notify_world0 senderr =
     \<lparr>nw_saved = [], nw_saveErr = None, nw_sent = [], nw_sendErr = senderr, nw_ids = 0\<rparr>"

theorem notify_audit_trail_witness:
  "\<exists>err w'. run_state (Service_notify (testService zeroTime) zeroNotification) (notify_world0 (Some Canceled)) = (err, w')
     \<and> err \<noteq> None \<and> nw_saved w' \<noteq> []"
proof -
  obtain err w' where run: "run_state (Service_notify (testService zeroTime) zeroNotification)
      (notify_world0 (Some Canceled)) = (err, w')" by fastforce
  from notify_audit_trail [OF run] run show ?thesis by (auto simp: notify_world0_def)
qed

text \<open>
  The log sender is the one sender there is, and it logs at the level \<open>info\<close>: with the
  logger of a service whose log level is \<open>warn\<close> or \<open>error\<close> it writes nothing and reports
  success, so the human is never told of a session that waits.
\<close>

lemma LogSender_silent:
  "LogSender_Send out \<lparr>ls_Logger = logging_New lib level\<rparr> n =
     (if strings_ToLower lib level \<in> {''warn'', ''warning'', ''error''} then ret None
      else do { _ \<leftarrow> out (LevelInfo, ''notification'', notification_attrs n); ret None })"
  by (simp add: LogSender_Send_def slog_Log_def logging_New_def parseLevel_def level_num_def Let_def)

text \<open>
  What a notification does not say: a call for a human names neither the company nor the
  role, and no notification carries the time at which its link expires.
\<close>

lemma notifications_incomplete:
  "\<forall>m \<in> set (nw_saved (snd (run_state (Service_NotifyHumanRequired (testService t) sid aid reason url)
      (notify_world0 e)))). note_Company m = [] \<and> note_Role m = [] \<and> note_ExpiresAt m = zeroTime"
  "\<forall>m \<in> set (nw_saved (snd (run_state (Service_NotifyReviewRequired (testService t) company role reason progress url)
      (notify_world0 e)))). note_ExpiresAt m = zeroTime"
  by (simp_all add: Service_NotifyHumanRequired_def Service_NotifyReviewRequired_def Service_notify_def testService_def
      NewService_def fakeSender_ops_def fakeStore_ops_def notify_world0_def zeroNotification_def Let_def
      split: option.split)

text \<open>
  The raw recovery token is persisted: with the notification service as the runner's
  notifier, a pause that succeeds leaves in the notification store a message whose action
  address ends in the raw token, the very text whose hash the token store now holds as a
  live entry for the session, although only the hash is meant to be kept.
\<close>

theorem pause_persists_raw_token:
  assumes "run_state (pauseForHuman lib (\<lambda>k. on_fst (test_rand b k))
       (with_service (testService t2) (test_runner lims t)) s reason) (w, n) = ((res, None), (w', n'))"
  shows "\<exists>raw note. nw_saved n' = nw_saved n @ [note] \<and> note_ActionURL note = ''/recovery/'' @ raw
    \<and> bw_tokens w' (HashRecoveryToken lib raw) = Some \<lparr>ent_sessionID = sess_ID s,
        ent_expiresAt = time_Add t (30 * time_Minute), ent_revoked = False\<rparr>"
proof -
  let ?r = "test_runner lims t"
  obtain ref w1 where 1: "run_state (take_screenshot ?r (sess_ID s)) w = (ref, w1)" by fastforce
  obtain url e w2 where 2: "run_state (drv_CurrentURL (run_Driver ?r)) w1 = ((url, e), w2)" by (metis prod.collapse)
  let ?s = "(if url \<noteq> [] then s\<lparr>sess_CurrentURL := url\<rparr> else s)\<lparr>sess_State := SessionHumanReq,
      sess_HumanRequired := True, sess_FailureReason := reason, sess_ScreenshotRef := ref\<rparr>"
  obtain w3 where 3: "run_state (saveSession ?r ?s) w2 = ((?s, None), w3)"
    using test_saveSession [of lims t ?s w2] by auto
  have now: "run_Now ?r = ret t" by (simp add: test_runner_simps)
  have "run_state (issue_recovery lib (\<lambda>k. on_fst (test_rand b k)) (with_service (testService t2) ?r) ?s reason)
      (w3, n) = ((res, None), (w', n'))"
    using assms 1 2 3
    by (simp add: pauseForHuman_def take_screenshot_service saveSession_service with_service_simps Let_def)
  moreover have "sess_ID ?s = sess_ID s" by simp
  ultimately show ?thesis
    by (auto simp: issue_recovery_def NewRecoveryToken_def test_rand_def with_service_simps test_runner_simps
        on_tokens_def fakeTokenStore_ops_def Service_as_Notifier_def Service_NotifyHumanRequired_def
        Service_notify_def testService_def NewService_def fakeSender_ops_def fakeStore_ops_def Let_def
        split: option.splits prod.splits)
qed

theorem pause_persists_raw_token_witness:
  "\<exists>raw (note :: Notification) (n' :: notify_world) (w' :: browser_world). nw_saved n' = [note] \<and> note_ActionURL note = ''/recovery/'' @ raw
     \<and> bw_tokens w' (HashRecoveryToken lib raw) \<noteq> None"
proof -
  let ?m = "pauseForHuman lib (\<lambda>k. on_fst (test_rand ''bytes'' k))
      (with_service (testService zeroTime) (test_runner sample_limits zeroTime)) zeroSession ''CAPTCHA detected''"
  let ?w = "(world_with (fake_driver [] StateNormal), notify_world0 None)"
  obtain res err w' n' where run: "run_state ?m ?w = ((res, err), (w', n'))" by (metis prod.collapse)
  moreover from run have "err = None"
    by (auto simp: pauseForHuman_def issue_recovery_def take_screenshot_service saveSession_service
        take_screenshot_def saveSession_def with_service_simps test_runner_simps
        on_driver_def on_sessions_def on_tokens_def FakeDriver_Screenshot_def FakeDriver_CurrentURL_def
        fakeScreenshotStore_Save_def fakeSessionStore_ops_def fakeTokenStore_ops_def
        NewRecoveryToken_def test_rand_def world_with_def fake_driver_def Service_as_Notifier_def
        Service_NotifyHumanRequired_def Service_notify_def testService_def NewService_def fakeSender_ops_def
        fakeStore_ops_def notify_world0_def Let_def)
  ultimately have run: "run_state ?m ?w = ((res, None), (w', n'))" by simp
  from pause_persists_raw_token [OF run] show ?thesis by (auto simp: notify_world0_def)
qed

end
