(* ===== verification/RunnerCalls.thy ===== *)
theory RunnerCalls
  imports RunnerTests
begin

text \<open>
  Which calls the runner of \<open>internal/browser/runner.go\<close> makes to its driver, and in which
  order.  A traced copy of a runner records them; the theorems hold for every driver, store,
  notifier and start state.
\<close>

subsection \<open>Driver calls\<close>

text \<open>
  \<open>traced r\<close> is the runner \<open>r\<close> over a driver that also appends each call to a list.
  \<open>follows m' m R\<close> says that \<open>m'\<close> does what \<open>m\<close> does and appends a list of calls that \<open>R\<close>
  pairs with the result.
\<close>

datatype DriverCall =
    CallLaunch | CallNavigate string | CallFill "FieldValue list" | CallDetectState
  | CallScreenshot | CallCurrentURL | CallSubmit string | CallClose

definition log_call :: "DriverCall \<Rightarrow> ('w, 'a) state \<Rightarrow> ('w \<times> DriverCall list, 'a) state" where
  "log_call c m = State (\<lambda>(w, cs). case run_state m w of (a, w') \<Rightarrow> (a, (w', cs @ [c])))"

definition traced_driver :: "'w Driver \<Rightarrow> ('w \<times> DriverCall list) Driver" where
  "traced_driver d =
     \<lparr>drv_Launch = log_call CallLaunch (drv_Launch d),
      drv_Navigate = (\<lambda>url. log_call (CallNavigate url) (drv_Navigate d url)),
      drv_Fill = (\<lambda>fvs. log_call (CallFill fvs) (drv_Fill d fvs)),
      drv_DetectState = log_call CallDetectState (drv_DetectState d),
      drv_Screenshot = log_call CallScreenshot (drv_Screenshot d),
      drv_CurrentURL = log_call CallCurrentURL (drv_CurrentURL d),
      drv_Submit = (\<lambda>sel. log_call (CallSubmit sel) (drv_Submit d sel)),
      drv_Close = log_call CallClose (drv_Close d)\<rparr>"

definition traced :: "'w Runner \<Rightarrow> ('w \<times> DriverCall list) Runner" where
  "traced r =
     \<lparr>run_Driver = traced_driver (run_Driver r),
      run_Sessions = \<lparr>GetSession = (\<lambda>i. on_fst (GetSession (run_Sessions r) i)),
        SaveSession = (\<lambda>s. on_fst (SaveSession (run_Sessions r) s)),
        SaveCheckpoint = (\<lambda>c. on_fst (SaveCheckpoint (run_Sessions r) c)),
        ListCheckpoints = (\<lambda>i. on_fst (ListCheckpoints (run_Sessions r) i)),
        CountStartedSince = (\<lambda>t. on_fst (CountStartedSince (run_Sessions r) t))\<rparr>,
      run_Tokens = \<lparr>SaveTokenHash = (\<lambda>h i t. on_fst (SaveTokenHash (run_Tokens r) h i t)),
        LookupByHash = (\<lambda>h t. on_fst (LookupByHash (run_Tokens r) h t)),
        RevokeByHash = (\<lambda>h. on_fst (RevokeByHash (run_Tokens r) h))\<rparr>,
      run_Screens = \<lparr>SaveScreenshot = (\<lambda>i shot. on_fst (SaveScreenshot (run_Screens r) i shot))\<rparr>,
      run_Notifier = map_option (\<lambda>n. \<lparr>NotifyHumanRequired =
        (\<lambda>s a reason url. on_fst (NotifyHumanRequired n s a reason url))\<rparr>) (run_Notifier r),
      run_Limits = run_Limits r, run_NewID = on_fst (run_NewID r), run_Now = on_fst (run_Now r),
      run_RecoveryTTL = run_RecoveryTTL r\<rparr>"

definition traced_rand :: "(nat \<Rightarrow> ('w, string \<times> error) state)
    \<Rightarrow> (nat \<Rightarrow> ('w \<times> DriverCall list, string \<times> error) state)" where
  "traced_rand rand_Read n = on_fst (rand_Read n)"

definition follows ::
    "('w \<times> DriverCall list, 'a) state \<Rightarrow> ('w, 'a) state \<Rightarrow> (DriverCall list \<times> 'a) set \<Rightarrow> bool" where
  "follows m' m R \<longleftrightarrow> (\<forall>w cs. \<exists>c. (c, fst (run_state m w)) \<in> R
     \<and> run_state m' (w, cs) = (fst (run_state m w), (snd (run_state m w), cs @ c)))"

lemma follows_return: "([], x) \<in> R \<Longrightarrow> follows (ret x) (ret x) R"
  by (auto simp: follows_def)

lemma follows_lift: "follows (on_fst m) m ({[]} \<times> UNIV)"
  by (simp add: follows_def split: prod.splits)

lemma follows_call: "follows (log_call c m) m ({[c]} \<times> UNIV)"
  by (simp add: follows_def log_call_def split: prod.splits)

lemma follows_bind:
  assumes "follows m' m S" and "\<And>a s. (s, a) \<in> S \<Longrightarrow> follows (f' a) (f a) {(t, b). (s @ t, b) \<in> R}"
  shows "follows (State_Monad.bind m' f') (State_Monad.bind m f) R"
  unfolding follows_def
proof (intro allI)
  fix w cs
  obtain a w1 where m: "run_state m w = (a, w1)" by fastforce
  with assms(1) obtain s where s: "(s, a) \<in> S" "run_state m' (w, cs) = (a, (w1, cs @ s))"
    by (auto simp: follows_def dest!: spec [of _ w] spec [of _ cs])
  from assms(2) [OF s(1)] obtain t where "(s @ t, fst (run_state (f a) w1)) \<in> R"
    "run_state (f' a) (w1, cs @ s) = (fst (run_state (f a) w1), (snd (run_state (f a) w1), (cs @ s) @ t))"
    unfolding follows_def by blast
  with m s show "\<exists>c. (c, fst (run_state (State_Monad.bind m f) w)) \<in> R
      \<and> run_state (State_Monad.bind m' f') (w, cs)
        = (fst (run_state (State_Monad.bind m f) w), (snd (run_state (State_Monad.bind m f) w), cs @ c))"
    by (intro exI [of _ "s @ t"]) auto
qed

lemma follows_weaken: "follows m' m S \<Longrightarrow> S \<subseteq> R \<Longrightarrow> follows m' m R"
  unfolding follows_def by blast

lemma follows_bind_lift:
  "(\<And>a. follows (f' a) (f a) R) \<Longrightarrow> follows (State_Monad.bind (on_fst m) f') (State_Monad.bind m f) R"
  by (rule follows_bind [OF follows_lift]) simp

lemma follows_bind_call:
  "(\<And>a. follows (f' a) (f a) {(t, b). (c # t, b) \<in> R}) \<Longrightarrow>
   follows (State_Monad.bind (log_call c m) f') (State_Monad.bind m f) R"
  by (rule follows_bind [OF follows_call]) simp

lemma follows_if:
  "(b \<Longrightarrow> follows m' m R) \<Longrightarrow> (\<not> b \<Longrightarrow> follows n' n R) \<Longrightarrow>
   follows (if b then m' else n') (if b then m else n) R"
  by simp

lemma follows_option:
  "(x = None \<Longrightarrow> follows m' m R) \<Longrightarrow> (\<And>e. x = Some e \<Longrightarrow> follows (f' e) (f e) R) \<Longrightarrow>
   follows (case x of None \<Rightarrow> m' | Some e \<Rightarrow> f' e) (case x of None \<Rightarrow> m | Some e \<Rightarrow> f e) R"
  by (cases x) auto

lemma follows_sum:
  "(\<And>e. x = Inl e \<Longrightarrow> follows (f' e) (f e) R) \<Longrightarrow> (\<And>v. x = Inr v \<Longrightarrow> follows (g' v) (g v) R) \<Longrightarrow>
   follows (case x of Inl e \<Rightarrow> f' e | Inr v \<Rightarrow> g' v) (case x of Inl e \<Rightarrow> f e | Inr v \<Rightarrow> g v) R"
  by (cases x) auto

lemma follows_prod:
  "(\<And>a b. x = (a, b) \<Longrightarrow> follows (f' a b) (f a b) R) \<Longrightarrow>
   follows (case x of (a, b) \<Rightarrow> f' a b) (case x of (a, b) \<Rightarrow> f a b) R"
  by (cases x) auto

lemma follows_Let: "(\<And>a. a = x \<Longrightarrow> follows (f' a) (f a) R) \<Longrightarrow> follows (let a = x in f' a) (let a = x in f a) R"
  by simp

lemmas follows_rules = follows_bind_lift follows_bind_call follows_if follows_option follows_sum
  follows_prod follows_Let follows_return

lemma traced_simps [simp]:
  "drv_Launch (run_Driver (traced r)) = log_call CallLaunch (drv_Launch (run_Driver r))"
  "drv_Navigate (run_Driver (traced r)) url = log_call (CallNavigate url) (drv_Navigate (run_Driver r) url)"
  "drv_Fill (run_Driver (traced r)) fvs = log_call (CallFill fvs) (drv_Fill (run_Driver r) fvs)"
  "drv_DetectState (run_Driver (traced r)) = log_call CallDetectState (drv_DetectState (run_Driver r))"
  "drv_Screenshot (run_Driver (traced r)) = log_call CallScreenshot (drv_Screenshot (run_Driver r))"
  "drv_CurrentURL (run_Driver (traced r)) = log_call CallCurrentURL (drv_CurrentURL (run_Driver r))"
  "drv_Submit (run_Driver (traced r)) sel = log_call (CallSubmit sel) (drv_Submit (run_Driver r) sel)"
  "GetSession (run_Sessions (traced r)) i = on_fst (GetSession (run_Sessions r) i)"
  "SaveSession (run_Sessions (traced r)) s = on_fst (SaveSession (run_Sessions r) s)"
  "SaveCheckpoint (run_Sessions (traced r)) c = on_fst (SaveCheckpoint (run_Sessions r) c)"
  "CountStartedSince (run_Sessions (traced r)) t = on_fst (CountStartedSince (run_Sessions r) t)"
  "SaveTokenHash (run_Tokens (traced r)) h i t = on_fst (SaveTokenHash (run_Tokens r) h i t)"
  "LookupByHash (run_Tokens (traced r)) h t = on_fst (LookupByHash (run_Tokens r) h t)"
  "RevokeByHash (run_Tokens (traced r)) h = on_fst (RevokeByHash (run_Tokens r) h)"
  "SaveScreenshot (run_Screens (traced r)) i shot = on_fst (SaveScreenshot (run_Screens r) i shot)"
  "run_Limits (traced r) = run_Limits r" "run_NewID (traced r) = on_fst (run_NewID r)"
  "run_Now (traced r) = on_fst (run_Now r)" "run_RecoveryTTL (traced r) = run_RecoveryTTL r"
  by (simp_all add: traced_def traced_driver_def)

text \<open>
  The results a helper can have, whatever the store, the driver and the notifier answer.  A
  result with an error is the zero \<open>Result\<close>, or keeps its outcome with the zero \<open>Session\<close>
  when the session could not be saved, or is complete when only the human was not told.
\<close>

abbreviation save_failed :: "error set" where
  "save_failed \<equiv> range (Errorf ''browser: save session: '')"

abbreviation no_result :: "error set \<Rightarrow> (Result \<times> error) set" where
  "no_result E \<equiv> {zeroResult} \<times> E"

abbreviation with_outcome :: "string \<Rightarrow> error set \<Rightarrow> (Result \<times> error) set" where
  "with_outcome out E \<equiv> range (\<lambda>s. \<lparr>rslt_Session = s, rslt_Outcome = out\<rparr>) \<times> E"

definition ended_results :: "string \<Rightarrow> (Result \<times> error) set" where
  "ended_results out =
     with_outcome out {None} \<union> {\<lparr>rslt_Session = zeroSession, rslt_Outcome = out\<rparr>} \<times> save_failed"

definition pause_results :: "(Result \<times> error) set" where
  "pause_results =
     with_outcome ''human_required'' ({None} \<union> range (Errorf ''browser: notify human required: ''))
     \<union> no_result (save_failed \<union> range (Errorf ''browser: generate recovery token: '')
         \<union> range (Errorf ''browser: save recovery token: ''))"

definition checkpoint_results :: "(Result \<times> error) set" where
  "checkpoint_results =
     with_outcome ''ready_for_review'' {None} \<union> no_result (save_failed \<union> range (Errorf ''browser: save checkpoint: ''))"

lemma follows_saveSession:
  "follows (saveSession (traced r) s) (saveSession r s) ({[]} \<times> (UNIV \<times> {None} \<union> {zeroSession} \<times> save_failed))"
  unfolding saveSession_def traced_simps by (intro follows_rules) auto

lemma follows_isExpired: "follows (run_isExpired (traced r) s) (run_isExpired r s) ({[]} \<times> UNIV)"
  unfolding run_isExpired_def traced_simps by (intro follows_rules) simp_all

lemma follows_startOfToday: "follows (run_startOfToday (traced r)) (run_startOfToday r) ({[]} \<times> UNIV)"
  unfolding run_startOfToday_def traced_simps by (intro follows_rules) simp_all

lemma follows_fail: "follows (run_fail (traced r) s reason) (run_fail r s reason) ({[]} \<times> ended_results ''failed'')"
  unfolding run_fail_def
  by (intro follows_Let follows_bind [OF follows_saveSession] follows_prod follows_return) (auto simp: ended_results_def)

lemma follows_expire: "follows (run_expire (traced r) s) (run_expire r s) ({[]} \<times> ended_results ''expired'')"
  unfolding run_expire_def
  by (intro follows_Let follows_bind [OF follows_saveSession] follows_prod follows_return) (auto simp: ended_results_def)

lemma follows_screenshot: "follows (take_screenshot (traced r) i) (take_screenshot r i) ({[CallScreenshot]} \<times> UNIV)"
  unfolding take_screenshot_def traced_simps by (intro follows_rules) simp_all

lemma follows_checkpoint:
  "follows (checkpoint (traced r) s step) (checkpoint r s step)
     ({[CallScreenshot]} \<times> (UNIV \<times> ({None} \<union> save_failed \<union> range (Errorf ''browser: save checkpoint: ''))))"
  unfolding checkpoint_def traced_simps
  by (intro follows_bind [OF follows_screenshot] follows_rules
        follows_saveSession [THEN follows_weaken]) auto

lemma follows_NewToken:
  "follows (NewRecoveryToken lib (traced_rand rand_Read) i now ttl) (NewRecoveryToken lib rand_Read i now ttl)
     ({[]} \<times> UNIV)"
  unfolding NewRecoveryToken_def traced_rand_def by (intro follows_rules) simp_all

lemma follows_Redeem:
  "follows (Redeem lib (run_Tokens (traced r)) raw now) (Redeem lib (run_Tokens r) raw now) ({[]} \<times> UNIV)"
  unfolding Redeem_def traced_simps by (intro follows_rules) simp_all

abbreviation pause_calls :: "DriverCall list" where
  "pause_calls \<equiv> [CallScreenshot, CallCurrentURL]"

lemma follows_notify:
  assumes "([], x) \<in> R" and "\<And>e. ([], y e) \<in> R"
  shows "follows
      (case run_Notifier (traced r) of None \<Rightarrow> ret x
       | Some n \<Rightarrow> (do { nerr \<leftarrow> NotifyHumanRequired n a b c d;
           case nerr of Some e \<Rightarrow> ret (y e) | None \<Rightarrow> ret x }))
      (case run_Notifier r of None \<Rightarrow> ret x
       | Some n \<Rightarrow> (do { nerr \<leftarrow> NotifyHumanRequired n a b c d;
           case nerr of Some e \<Rightarrow> ret (y e) | None \<Rightarrow> ret x })) R"
  using assms by (cases "run_Notifier r") (auto simp: traced_def intro!: follows_rules)

lemma follows_pause:
  "follows (pauseForHuman lib (traced_rand rand_Read) (traced r) s reason)
     (pauseForHuman lib rand_Read r s reason) ({pause_calls} \<times> pause_results)"
  unfolding pauseForHuman_def issue_recovery_def traced_simps
  by (intro follows_bind [OF follows_screenshot] follows_bind_call follows_prod follows_Let
        follows_bind [OF follows_saveSession] follows_option follows_notify follows_bind_lift
        follows_bind [OF follows_NewToken] follows_sum follows_return) (auto simp: pause_results_def)

lemma follows_handled:
  assumes "follows m' m R" and "{[]} \<times> ended_results ''failed'' \<union> {pause_calls} \<times> pause_results \<subseteq> R"
  shows "follows
     (State_Monad.bind (handleNonNormalState lib (traced_rand rand_Read) (traced r) s st)
        (\<lambda>handled. case handled of Some res \<Rightarrow> ret res | None \<Rightarrow> m'))
     (State_Monad.bind (handleNonNormalState lib rand_Read r s st)
        (\<lambda>handled. case handled of Some res \<Rightarrow> ret res | None \<Rightarrow> m)) R"
proof (cases "st = StateNormal")
  case True
  with assms(1) show ?thesis by (simp add: handle_normal)
next
  case False
  show ?thesis
    unfolding handle_option_some [OF False]
    by (intro follows_if follows_weaken [OF follows_fail] follows_weaken [OF follows_pause]) (use assms(2) in auto)
qed

text \<open>The calls of \<open>Start\<close>, \<open>Resume\<close> and \<open>Submit\<close>, each list with the results it can have.\<close>

definition fill_results :: "FieldValue list \<Rightarrow> (DriverCall list \<times> Result \<times> error) set" where
  "fill_results fvs =
     {[CallFill fvs], [CallFill fvs, CallDetectState]} \<times> ended_results ''failed''
     \<union> {CallFill fvs # CallDetectState # pause_calls} \<times> pause_results
     \<union> {[CallFill fvs, CallDetectState, CallScreenshot]} \<times> checkpoint_results"

definition start_results :: "StartInput \<Rightarrow> (DriverCall list \<times> Result \<times> error) set" where
  "start_results inp =
     {[]} \<times> no_result (range (Errorf ''browser: check session limit: '') \<union> range NewError)
     \<union> {[CallLaunch]} \<times> (with_outcome ''failed'' (range (Errorf ''browser: launch: ''))
         \<union> no_result {Errorf (''browser: launch failed ('' @ Error_msg e @ '') and save session also failed: '') e' | e e'. True}
         \<union> no_result save_failed \<union> ended_results ''expired'')
     \<union> {[CallLaunch, CallNavigate (st_StartURL inp)]} \<times> ended_results ''failed''
     \<union> {CallLaunch # CallNavigate (st_StartURL inp) # pause_calls} \<times> pause_results
     \<union> map_prod (\<lambda>c. CallLaunch # CallNavigate (st_StartURL inp) # c) id ` fill_results (st_Fields inp)"

definition resume_results :: "FieldValue list \<Rightarrow> (DriverCall list \<times> Result \<times> error) set" where
  "resume_results fvs =
     {[]} \<times> (no_result (range (Errorf ''browser: resume: '') \<union> range (Errorf ''browser: resume: load session: ''))
       \<union> ended_results ''expired'')
     \<union> {[CallDetectState]} \<times> (ended_results ''failed'' \<union> no_result save_failed)
     \<union> {CallDetectState # pause_calls} \<times> pause_results
     \<union> map_prod (\<lambda>c. CallDetectState # c) id ` fill_results fvs"

definition submit_results :: "SubmitInput \<Rightarrow> (DriverCall list \<times> Result \<times> error) set" where
  "submit_results inp =
     (if gate_Passed (sub_GateResult inp) then
        {[]} \<times> (ended_results ''expired'' \<union> no_result save_failed)
        \<union> {[CallSubmit (sub_SubmitSelector inp)]} \<times> (with_outcome ''submitted'' {None} \<union> no_result save_failed)
        \<union> {CallSubmit (sub_SubmitSelector inp) # pause_calls} \<times> pause_results
      else {[]} \<times> no_result {NewError (''browser: refusing to submit: safety gate failed: ''
             @ fmt_strings (gate_Reasons (sub_GateResult inp)))})"

lemma follows_fill:
  "follows (fillAndCheckpoint lib (traced_rand rand_Read) (traced r) s fvs)
     (fillAndCheckpoint lib rand_Read r s fvs) (fill_results fvs)"
  unfolding fillAndCheckpoint_def traced_simps
  by (intro follows_bind_call follows_option follows_prod follows_handled follows_return
        follows_weaken [OF follows_fail] follows_bind [OF follows_checkpoint])
     (auto simp: fill_results_def checkpoint_results_def)

lemma follows_navigate:
  "follows (navigateAndFill lib (traced_rand rand_Read) (traced r) s url fvs)
     (navigateAndFill lib rand_Read r s url fvs)
     ({[]} \<times> ended_results ''expired'' \<union> {[CallNavigate url]} \<times> ended_results ''failed''
      \<union> {CallNavigate url # pause_calls} \<times> pause_results \<union> map_prod ((#) (CallNavigate url)) id ` fill_results fvs)"
  unfolding navigateAndFill_def traced_simps
  by (intro follows_bind [OF follows_isExpired] follows_if follows_bind_call follows_option follows_prod
        follows_Let follows_handled follows_weaken [OF follows_fail] follows_weaken [OF follows_expire]
        follows_weaken [OF follows_fill])
     (auto simp: map_prod_def)

lemma follows_Start:
  "follows (run_Start lib (traced_rand rand_Read) (traced r) inp) (run_Start lib rand_Read r inp) (start_results inp)"
  unfolding run_Start_def traced_simps
  by (intro follows_bind [OF follows_startOfToday] follows_bind_lift follows_prod follows_option follows_return
        follows_if follows_Let follows_bind_call follows_bind [OF follows_saveSession]
        follows_weaken [OF follows_navigate])
     (auto simp: start_results_def map_prod_def)

lemma follows_Resume:
  "follows (run_Resume lib (traced_rand rand_Read) (traced r) raw fvs) (run_Resume lib rand_Read r raw fvs)
     (resume_results fvs)"
  unfolding run_Resume_def traced_simps
  by (intro follows_bind_lift follows_bind [OF follows_Redeem] follows_bind [OF follows_isExpired] follows_sum
        follows_prod follows_option follows_return follows_if follows_bind_call
        follows_weaken [OF follows_expire] follows_weaken [OF follows_fail] follows_weaken [OF follows_pause]
        follows_bind [OF follows_saveSession] follows_weaken [OF follows_fill])
     (auto simp: resume_results_def map_prod_def)

lemma follows_Submit:
  "follows (run_Submit lib (traced_rand rand_Read) (traced r) inp) (run_Submit lib rand_Read r inp) (submit_results inp)"
  unfolding run_Submit_def handleNonNormalStateAfterSubmit_def traced_simps
  by (intro follows_if follows_return follows_Let follows_bind [OF follows_isExpired] follows_prod follows_option
        follows_weaken [OF follows_expire] follows_bind [OF follows_saveSession] follows_bind_call
        follows_weaken [OF follows_pause])
     (auto simp: submit_results_def)

lemma followsD:
  "follows m' m R \<Longrightarrow> \<exists>c. (c, fst (run_state m w)) \<in> R
     \<and> run_state m' (w, cs) = (fst (run_state m w), (snd (run_state m w), cs @ c))"
  unfolding follows_def by blast

lemma followsE:
  assumes "follows m' m R" and "fst ` R \<subseteq> L"
  shows "\<exists>c \<in> L. run_state m' (w, cs) = (fst (run_state m w), (snd (run_state m w), cs @ c))"
  using followsD [OF assms(1), of w cs] assms(2) by force

subsection \<open>Properties\<close>

text \<open>
  C2. \<open>Submit\<close> is guarded and never retries: without a passed gate it has no effect at all
  and names the reasons; with one it calls the driver's \<open>Submit\<close> at most once, followed at
  most by the screenshot and the address of a pause.
\<close>

theorem Submit_calls:
  "(\<not> gate_Passed (sub_GateResult inp) \<longrightarrow> run_state (run_Submit lib rand_Read r inp) w
      = ((zeroResult, NewError (''browser: refusing to submit: safety gate failed: ''
            @ fmt_strings (gate_Reasons (sub_GateResult inp)))), w))
   \<and> (\<exists>calls \<in> (if gate_Passed (sub_GateResult inp)
        then {[], [CallSubmit (sub_SubmitSelector inp)],
              [CallSubmit (sub_SubmitSelector inp), CallScreenshot, CallCurrentURL]}
        else {[]}).
      run_state (run_Submit lib (traced_rand rand_Read) (traced r) inp) (w, cs)
      = (fst (run_state (run_Submit lib rand_Read r inp) w),
         (snd (run_state (run_Submit lib rand_Read r inp) w), cs @ calls)))"
proof (intro conjI impI)
  show "\<not> gate_Passed (sub_GateResult inp) \<Longrightarrow> run_state (run_Submit lib rand_Read r inp) w
      = ((zeroResult, NewError (''browser: refusing to submit: safety gate failed: ''
            @ fmt_strings (gate_Reasons (sub_GateResult inp)))), w)"
    by (simp add: run_Submit_def)
qed (rule followsE [OF follows_Submit], auto simp: submit_results_def)

theorem Submit_calls_witness:
  "\<forall>lib b. snd (run_state (run_Submit lib (test_rand b) (test_runner sample_limits zeroTime) (submit_input False))
     (world_with (fake_driver [] StateSubmitted))) = world_with (fake_driver [] StateSubmitted)"
proof (intro allI)
  show "snd (run_state (run_Submit lib (test_rand b) (test_runner sample_limits zeroTime) (submit_input False))
     (world_with (fake_driver [] StateSubmitted))) = world_with (fake_driver [] StateSubmitted)" for lib b
    using Submit_calls [THEN conjunct1, of "submit_input False" lib "test_rand b"
        "test_runner sample_limits zeroTime" "world_with (fake_driver [] StateSubmitted)"]
    by (simp add: submit_input_def)
qed

end
