(* ===== verification/RunnerInv.thy ===== *)
theory RunnerInv
  imports RunnerStores
begin

text \<open>
  What it takes for a property of the world to survive the runner of
  \<open>internal/browser/runner.go\<close>: the locale names the operations of the environment that must
  keep it and the sessions that may be saved, and carries it through every helper of the
  runner.  It is instantiated once per invariant.
\<close>

text \<open>\<open>Resume\<close> after the token was redeemed and the session loaded.\<close>

definition resume_loaded ::
    "golib \<Rightarrow> (nat \<Rightarrow> ('w, string \<times> error) state) \<Rightarrow> 'w Runner \<Rightarrow> FieldValue list \<Rightarrow> Session
     \<Rightarrow> ('w, Result \<times> error) state" where
  "resume_loaded lib rand_Read r fvs session = do {
     expired \<leftarrow> run_isExpired r session;
     if expired then run_expire r session
     else do {
       (st, derr) \<leftarrow> drv_DetectState (run_Driver r);
       case derr of
         Some e \<Rightarrow> run_fail r session (''resume state detection failed: '' @ Error_msg e)
       | None \<Rightarrow>
           if st \<noteq> StateNormal then
             pauseForHuman lib rand_Read r session (''page still not resumable: '' @ string_of_PageState st)
           else do {
             (session, serr) \<leftarrow> saveSession r (session\<lparr>sess_State := SessionResumed\<rparr>);
             case serr of
               Some e \<Rightarrow> ret (zeroResult, Some e)
             | None \<Rightarrow> fillAndCheckpoint lib rand_Read r session fvs
           }
     }
   }"

lemma run_Resume_loaded:
  "run_Resume lib rand_Read r rawToken fvs = do {
     now \<leftarrow> run_Now r;
     red \<leftarrow> Redeem lib (run_Tokens r) rawToken now;
     case red of
       Inl e \<Rightarrow> ret (zeroResult, Errorf ''browser: resume: '' e)
     | Inr sessionID \<Rightarrow> do {
         (session, gerr) \<leftarrow> GetSession (run_Sessions r) sessionID;
         case gerr of
           Some e \<Rightarrow> ret (zeroResult, Errorf ''browser: resume: load session: '' e)
         | None \<Rightarrow> resume_loaded lib rand_Read r fvs session
       }
   }"
  by (simp only: run_Resume_def resume_loaded_def)

text \<open>
  What a call keeps until its last step, \<open>I\<close>, and what it leaves behind, \<open>F\<close>.  They differ
  only for a call that ends in the human handoff: nothing follows the recovery token.
\<close>

locale runner_ends =
  fixes r :: "'w Runner" and lib :: golib and rand_Read :: "nat \<Rightarrow> ('w, string \<times> error) state"
    and I :: "'w \<Rightarrow> bool" and F :: "'w \<Rightarrow> bool" and stored :: "Session \<Rightarrow> 'w \<Rightarrow> bool"
    and base :: "Session \<Rightarrow> bool" and good :: "Session \<Rightarrow> bool"
  assumes base_upd: "base s \<Longrightarrow> base (s\<lparr>sess_CurrentURL := url\<rparr>)"
    and good_expired: "base s \<Longrightarrow> good (s\<lparr>sess_State := SessionExpired\<rparr>)"
    and good_pause: "base s \<Longrightarrow> reason \<noteq> [] \<Longrightarrow> good (s\<lparr>sess_State := SessionHumanReq, sess_HumanRequired := True,
      sess_FailureReason := reason, sess_ScreenshotRef := ref\<rparr>)"
    and good_checkpoint: "base s \<Longrightarrow> sess_State s \<in> {SessionRunning, SessionResumed} \<Longrightarrow>
      good (s\<lparr>sess_LastCheckpointAt := now, sess_ScreenshotRef := ref\<rparr>)"
    and final: "I w \<Longrightarrow> F w"
    and save: "good s \<Longrightarrow> hoare I (saveSession r s)
      (\<lambda>res w. I w \<and> (res = (s, None) \<and> stored s w \<or> (\<exists>e. res = (zeroSession, Some e))))"
    and issue: "good s \<Longrightarrow> sess_State s = SessionHumanReq \<Longrightarrow>
      hoare (\<lambda>w. I w \<and> stored s w) (issue_recovery lib rand_Read r s reason) (\<lambda>_. F)"
    and env: "keeps I (run_Now r)" "keeps I (run_NewID r)" "keeps I (drv_Navigate (run_Driver r) url)"
      "keeps I (drv_Fill (run_Driver r) fvs)" "keeps I (drv_DetectState (run_Driver r))"
      "keeps I (drv_Screenshot (run_Driver r))" "keeps I (drv_CurrentURL (run_Driver r))"
      "keeps I (drv_Submit (run_Driver r) sel)"
      "keeps I (SaveScreenshot (run_Screens r) i shot)" "keeps I (SaveCheckpoint (run_Sessions r) c)"
begin

lemma then_ends: "keeps I m \<Longrightarrow> (\<And>a. hoare I (f a) Q) \<Longrightarrow> hoare I (State_Monad.bind m f) Q"
  by (rule hoare_bind) (auto simp: keeps_hoare)

lemma ret_ends: "hoare I (ret x) (\<lambda>_. F)"
  by (simp add: hoare_def final)

text \<open>A session is saved and in hand, or the save has failed and there is nothing in hand.\<close>

lemma save_then:
  assumes "good s" and "hoare (\<lambda>w. I w \<and> stored s w) (f (s, None)) Q"
    and "\<And>e. hoare I (f (zeroSession, Some e)) Q"
  shows "hoare I (State_Monad.bind (saveSession r s) f) Q"
  by (rule hoare_bind [OF save [OF assms(1)]]) (use assms(2,3) in \<open>auto simp: hoare_def\<close>)

lemma save_ends:
  assumes "good s" and "hoare I (f (s, None)) Q" and "\<And>e. hoare I (f (zeroSession, Some e)) Q"
  shows "hoare I (State_Monad.bind (saveSession r s) f) Q"
  by (rule save_then [OF assms(1)]) (use assms(2,3) in \<open>auto simp: hoare_def\<close>)

lemma screenshot: "keeps I (take_screenshot r i)"
  unfolding take_screenshot_def by (intro keeps_rules env)

lemma isExpired: "keeps I (run_isExpired r s)"
  unfolding run_isExpired_def by (intro keeps_rules env)

lemma expire_ends: "base s \<Longrightarrow> hoare I (run_expire r s) (\<lambda>_. F)"
  unfolding run_expire_def Let_def by (intro save_ends good_expired) (simp_all add: ret_ends)

lemma pause_save:
  assumes "good s" and "sess_State s = SessionHumanReq"
  shows "hoare I (do { (session, err) \<leftarrow> saveSession r s;
     case err of Some e \<Rightarrow> ret (zeroResult, Some e)
     | None \<Rightarrow> issue_recovery lib rand_Read r session reason }) (\<lambda>_. F)"
  by (rule save_then [OF assms(1)]) (simp_all add: issue assms ret_ends)

lemma pause_ends:
  assumes "base s" and "reason \<noteq> []"
  shows "hoare I (pauseForHuman lib rand_Read r s reason) (\<lambda>_. F)"
  unfolding pauseForHuman_def Let_def
  by (intro then_ends [OF screenshot] then_ends [OF env(7)] hoare_prod pause_save good_pause)
     (use assms in \<open>auto intro: base_upd\<close>)

text \<open>\<open>Submit\<close> once the driver has answered.\<close>

lemma uncertain_ends:
  assumes "base s"
  shows "hoare I (handleNonNormalStateAfterSubmit lib rand_Read r s st) (\<lambda>_. F)"
  unfolding handleNonNormalStateAfterSubmit_def by (intro hoare_if pause_ends assms) simp_all

lemma submit_ends:
  assumes "base (sub_Session inp)" and "base ((sub_Session inp)\<lparr>sess_State := SessionRunning\<rparr>)"
    and "good ((sub_Session inp)\<lparr>sess_State := SessionRunning\<rparr>)"
    and "good ((sub_Session inp)\<lparr>sess_State := SessionCompleted\<rparr>)"
  shows "hoare I (run_Submit lib rand_Read r inp) (\<lambda>_. F)"
  unfolding run_Submit_def Let_def
  by (intro hoare_if ret_ends then_ends [OF isExpired] expire_ends save_ends assms)
     (use assms in \<open>auto intro!: then_ends [OF env(8)] hoare_prod hoare_option hoare_if pause_ends uncertain_ends
        save_ends ret_ends\<close>)

end

text \<open>\<open>Start\<close> and \<open>Resume\<close> may also fail; \<open>Submit\<close> never does.\<close>

locale runner_fails = runner_ends +
  assumes good_failed: "base s \<Longrightarrow> good (s\<lparr>sess_State := SessionFailed, sess_FailureReason := reason\<rparr>)"
begin

lemma fail_ends: "base s \<Longrightarrow> hoare I (run_fail r s reason) (\<lambda>_. F)"
  unfolding run_fail_def Let_def by (intro save_ends good_failed) (simp_all add: ret_ends)

lemma handled_ends:
  assumes "base s" and "hoare I m (\<lambda>_. F)"
  shows "hoare I (State_Monad.bind (handleNonNormalState lib rand_Read r s st)
      (\<lambda>handled. case handled of Some res \<Rightarrow> ret res | None \<Rightarrow> m)) (\<lambda>_. F)"
  using assms
  by (cases "st = StateNormal") (simp_all add: handle_normal handle_option_some fail_ends pause_ends)

lemma checkpoint_keeps:
  assumes "base s" and "sess_State s \<in> {SessionRunning, SessionResumed}"
  shows "keeps I (checkpoint r s step)"
proof -
  have "keeps I (saveSession r (s\<lparr>sess_LastCheckpointAt := now, sess_ScreenshotRef := ref\<rparr>))" for now ref
    unfolding keeps_hoare by (rule hoare_weaken [OF save [OF good_checkpoint [OF assms]]]) auto
  then show ?thesis
    unfolding checkpoint_def by (intro keeps_bind screenshot keeps_prod keeps_option keeps_return env)
qed

lemma fill_ends:
  assumes "base s" and "sess_State s \<in> {SessionRunning, SessionResumed}"
  shows "hoare I (fillAndCheckpoint lib rand_Read r s fvs) (\<lambda>_. F)"
  unfolding fillAndCheckpoint_def
  by (intro then_ends [OF env(4)] then_ends [OF env(5)] then_ends [OF checkpoint_keeps] hoare_prod hoare_option
        ret_ends fail_ends handled_ends assms)

lemma navigate_ends:
  assumes "base s" and "sess_State s = SessionRunning"
  shows "hoare I (navigateAndFill lib rand_Read r s url fvs) (\<lambda>_. F)"
  unfolding navigateAndFill_def Let_def
  by (intro then_ends [OF isExpired] then_ends [OF env(3)] hoare_if hoare_prod hoare_option ret_ends expire_ends
        fail_ends handled_ends fill_ends base_upd assms)
     (use assms in simp)

lemma resume_ends:
  assumes "base s" and "good (s\<lparr>sess_State := SessionResumed\<rparr>)" and "base (s\<lparr>sess_State := SessionResumed\<rparr>)"
  shows "hoare I (resume_loaded lib rand_Read r fvs s) (\<lambda>_. F)"
proof -
  have "hoare I (do { (session, serr) \<leftarrow> saveSession r (s\<lparr>sess_State := SessionResumed\<rparr>);
       case serr of Some e \<Rightarrow> ret (zeroResult, Some e)
       | None \<Rightarrow> fillAndCheckpoint lib rand_Read r session fvs }) (\<lambda>_. F)"
    by (rule save_ends [OF assms(2)]) (use fill_ends [OF assms(3)] in \<open>simp_all add: ret_ends\<close>)
  then show ?thesis
    unfolding resume_loaded_def
    by (intro then_ends [OF isExpired] then_ends [OF env(5)] hoare_if hoare_prod hoare_option expire_ends fail_ends
          pause_ends assms) simp_all
qed

end

text \<open>An invariant of the world is what every call keeps to its end.\<close>

locale runner_inv = runner_fails r lib rand_Read I I stored base good
  for r :: "'w Runner" and lib and rand_Read and I :: "'w \<Rightarrow> bool" and stored and base and good
begin

lemma save_keeps:
  "good s \<Longrightarrow> keeps I (f (s, None)) \<Longrightarrow> (\<And>e. keeps I (f (zeroSession, Some e))) \<Longrightarrow>
   keeps I (State_Monad.bind (saveSession r s) f)"
  unfolding keeps_hoare by (rule save_ends)

lemmas ends_keep = fail_ends expire_ends pause_ends fill_ends navigate_ends resume_ends submit_ends

lemmas keep = ends_keep [folded keeps_hoare]

lemmas expire = keep(2) and pause = keep(3) and navigate = keep(5) and resume_session = keep(6)
  and submit = keep(7)

lemma start:
  assumes "keeps I (drv_Launch (run_Driver r))" and "\<And>d. keeps I (CountStartedSince (run_Sessions r) d)"
    and "\<And>s. base (s\<lparr>sess_State := SessionRunning\<rparr>)" and "\<And>s. good (s\<lparr>sess_State := SessionRunning\<rparr>)"
    and "\<And>s reason. good (s\<lparr>sess_State := SessionFailed, sess_FailureReason := reason\<rparr>)"
  shows "keeps I (run_Start lib rand_Read r inp)"
proof -
  have day: "keeps I (run_startOfToday r)"
    unfolding run_startOfToday_def by (intro keeps_rules env)
  have started: "keeps I (do { (session, serr) \<leftarrow> saveSession r (s\<lparr>sess_State := SessionRunning\<rparr>);
      case serr of Some e \<Rightarrow> ret (zeroResult, Some e)
      | None \<Rightarrow> navigateAndFill lib rand_Read r session url fvs })" for s url fvs
    by (rule save_keeps [OF assms(4)]) (simp_all add: navigate assms(3) keeps_return)
  have launch_failed: "keeps I (do { (saved, saveErr) \<leftarrow> saveSession r
        (s\<lparr>sess_State := SessionFailed, sess_FailureReason := m\<rparr>);
      case saveErr of Some se \<Rightarrow> ret (zeroResult, f se)
      | None \<Rightarrow> ret (\<lparr>rslt_Session = saved, rslt_Outcome = ''failed''\<rparr>, e) })" for s m f e
    by (rule save_keeps [OF assms(5)]) (simp_all add: keeps_return)
  show ?thesis
    unfolding run_Start_def Let_def
    by (intro keeps_bind [OF day] keeps_bind [OF assms(1)] keeps_bind [OF assms(2)] keeps_bind [OF env(1)]
          keeps_bind [OF env(2)] keeps_prod keeps_option keeps_if keeps_return started launch_failed)
qed

lemma resume:
  assumes "\<And>now. keeps I (Redeem lib (run_Tokens r) raw now)" and "\<And>i. keeps I (GetSession (run_Sessions r) i)"
    and "\<And>s. base s" and "\<And>s. good (s\<lparr>sess_State := SessionResumed\<rparr>)"
  shows "keeps I (run_Resume lib rand_Read r raw fvs)"
  unfolding run_Resume_loaded
  by (intro keeps_bind [OF env(1)] keeps_bind [OF assms(1)] keeps_sum keeps_return keeps_bind [OF assms(2)]
        keeps_prod keeps_option resume_session assms(3,4))

end

end
