(* ===== verification/RunnerSystem.thy ===== *)
theory RunnerSystem
  imports RunnerInv
begin

text \<open>
  The runner of \<open>internal/browser/runner.go\<close> as a system: any sequence of calls of \<open>Start\<close>,
  \<open>Resume\<close> and \<open>Submit\<close> over the stores of \<open>runner_test.go\<close>, each with its own limits, time
  and random bytes, while between the calls the page and the human in front of it do what
  they like.  An inductive relation collects the histories and an invariant of the stores holds
  after every one of them.  Two histories are worked out, for the theorems to start from.
\<close>

section \<open>Histories of runner calls\<close>

datatype runner_event =
    EvStart StartInput "Result \<times> error"
  | EvResume string "Result \<times> error"
  | EvSubmit SubmitInput "Result \<times> error"
  | EvPage FakeDriver error

inductive runner_step :: "golib \<Rightarrow> browser_world \<Rightarrow> runner_event \<Rightarrow> browser_world \<Rightarrow> bool" for lib where
  start: "run_state (run_Start lib (test_rand b) (test_runner lims t) inp) w = (res, w') \<Longrightarrow>
    runner_step lib w (EvStart inp res) w'"
| resume: "run_state (run_Resume lib (test_rand b) (test_runner lims t) raw fvs) w = (res, w') \<Longrightarrow>
    runner_step lib w (EvResume raw res) w'"
| submit: "run_state (run_Submit lib (test_rand b) (test_runner lims t) inp) w = (res, w') \<Longrightarrow>
    runner_step lib w (EvSubmit inp res) w'"
| page: "runner_step lib w (EvPage d e) (w\<lparr>bw_driver := d, bw_noteErr := e\<rparr>)"

inductive runner_runs :: "golib \<Rightarrow> browser_world \<Rightarrow> runner_event list \<Rightarrow> browser_world \<Rightarrow> bool" for lib where
  none: "runner_runs lib w [] w"
| more: "runner_runs lib w evs w1 \<Longrightarrow> runner_step lib w1 ev w2 \<Longrightarrow> runner_runs lib w (evs @ [ev]) w2"

section \<open>The invariant\<close>

text \<open>
  A stored session has a state the runner sets itself, and one that waits for a human says
  so and why.
\<close>

definition session_ok :: "Session \<Rightarrow> bool" where
  "session_ok s \<longleftrightarrow>
     sess_State s \<in> {SessionRunning, SessionHumanReq, SessionResumed, SessionCompleted, SessionFailed, SessionExpired}
     \<and> (sess_State s = SessionHumanReq \<longrightarrow> sess_HumanRequired s \<and> sess_FailureReason s \<noteq> [])"

text \<open>The part of the world the invariant is about: sessions, tokens, messages to the human.\<close>

definition core :: "browser_world \<Rightarrow> (string \<rightharpoonup> Session) \<times> (string \<rightharpoonup> tokenEntry)
    \<times> (string \<times> string \<times> string \<times> string) list" where
  "core w = (fss_sessions (bw_sessions w), bw_tokens w, bw_notes w)"

fun core_ok :: "golib \<Rightarrow> (string \<rightharpoonup> Session) \<times> (string \<rightharpoonup> tokenEntry)
    \<times> (string \<times> string \<times> string \<times> string) list \<Rightarrow> bool" where
  "core_ok lib (sessions, tokens, notes) \<longleftrightarrow>
     (\<forall>i s. sessions i = Some s \<longrightarrow> sess_ID s = i \<and> session_ok s)
   \<and> (\<forall>h e. tokens h = Some e \<longrightarrow> sessions (ent_sessionID e) \<noteq> None)
   \<and> dom tokens = {HashRecoveryToken lib raw | raw. \<exists>sid aid reason. (sid, aid, reason, ''/recovery/'' @ raw) \<in> set notes}
   \<and> (\<forall>(sid, aid, reason, url) \<in> set notes. \<exists>raw. url = ''/recovery/'' @ raw)"

definition sys_inv :: "golib \<Rightarrow> browser_world \<Rightarrow> bool" where
  "sys_inv lib w \<longleftrightarrow> core_ok lib (core w)"

declare core_ok.simps [simp del]

lemma session_ok_states:
  "session_ok (s\<lparr>sess_State := SessionFailed, sess_FailureReason := reason\<rparr>)"
  "session_ok (s\<lparr>sess_State := SessionExpired\<rparr>)" "session_ok (s\<lparr>sess_State := SessionRunning\<rparr>)"
  "session_ok (s\<lparr>sess_State := SessionResumed\<rparr>)"
  "session_ok (s\<lparr>sess_State := SessionCompleted\<rparr>)"
  "reason \<noteq> [] \<Longrightarrow> session_ok (s\<lparr>sess_State := SessionHumanReq, sess_HumanRequired := True,
      sess_FailureReason := reason, sess_ScreenshotRef := ref\<rparr>)"
  "sess_State s \<in> {SessionRunning, SessionResumed} \<Longrightarrow>
   session_ok (s\<lparr>sess_LastCheckpointAt := now, sess_ScreenshotRef := ref\<rparr>)"
  by (auto simp: session_ok_def)

lemma sys_inv_page: "sys_inv lib (w\<lparr>bw_driver := d, bw_noteErr := e\<rparr>) \<longleftrightarrow> sys_inv lib w"
  by (simp add: sys_inv_def core_def)

subsection \<open>Everything but the session store and the tokens leaves it alone\<close>

lemma core_leaves:
  "leaves core (on_driver m)" "leaves core test_newID" "leaves core (fakeScreenshotStore_Save i shot)"
  "leaves core (on_sessions (GetSession fakeSessionStore_ops i))"
  "leaves core (on_sessions (SaveCheckpoint fakeSessionStore_ops c))"
  "leaves core (on_sessions (CountStartedSince fakeSessionStore_ops since))"
  "leaves core (on_tokens (LookupByHash fakeTokenStore_ops h now))"
  by (simp_all add: leaves_def core_def on_driver_def test_newID_def fakeScreenshotStore_Save_def on_sessions_def
      on_tokens_def fakeSessionStore_ops_def fakeTokenStore_ops_def Let_def split: prod.splits option.splits)

text \<open>A session may be saved when it is a good one, and is stored from then on.\<close>

definition is_stored :: "string \<Rightarrow> browser_world \<Rightarrow> bool" where
  "is_stored i w \<longleftrightarrow> fss_sessions (bw_sessions w) i \<noteq> None"

lemma save_inv:
  assumes "session_ok s"
  shows "hoare (sys_inv lib) (saveSession (test_runner lims t) s)
    (\<lambda>res w. res = (s, None) \<and> sys_inv lib w \<and> is_stored (sess_ID s) w)"
proof (rule hoareI)
  fix w res w'
  assume w: "sys_inv lib w" and run: "run_state (saveSession (test_runner lims t) s) w = (res, w')"
  from run have "res = (s, None)"
    and c: "core w' = ((fss_sessions (bw_sessions w))(sess_ID s \<mapsto> s), bw_tokens w, bw_notes w)"
    by (auto simp: saveSession_def test_runner_simps on_sessions_def fakeSessionStore_ops_def core_def Let_def)
  moreover from c have "fss_sessions (bw_sessions w') (sess_ID s) = Some s"
    by (simp add: core_def)
  moreover from w assms have "sys_inv lib w'"
    unfolding sys_inv_def c by (simp add: core_def core_ok.simps)
  ultimately show "res = (s, None) \<and> sys_inv lib w' \<and> is_stored (sess_ID s) w'" by (simp add: is_stored_def)
qed

lemma keeps_core: "leaves core m \<Longrightarrow> keeps (sys_inv lib) m"
  unfolding sys_inv_def by (rule leaves_keeps)

subsection \<open>The human handoff announces exactly the tokens it stores\<close>

lemma test_issue:
  "\<exists>res. run_state (issue_recovery lib (test_rand b) (test_runner lims t) s reason) w = (res,
      w\<lparr>bw_tokens := (bw_tokens w)(HashRecoveryToken lib (b64_RawURL (take 32 b)) \<mapsto>
          \<lparr>ent_sessionID = sess_ID s, ent_expiresAt = time_Add t (30 * time_Minute), ent_revoked = False\<rparr>),
        bw_notes := bw_notes w @ [(sess_ID s, sess_ApplicationID s, reason,
          ''/recovery/'' @ b64_RawURL (take 32 b))]\<rparr>)
    \<and> (bw_noteErr w = None \<longrightarrow> snd res = None)"
  by (auto simp: issue_recovery_def test_runner_simps NewRecoveryToken_def test_rand_def recoveryTokenBytes_def
      on_tokens_def fakeTokenStore_ops_def fakeNotifier_ops_def Let_def split: option.splits)

lemma core_ok_issue:
  assumes "core_ok lib (sessions, tokens, notes)" and "sessions sid \<noteq> None" and "ent_sessionID e = sid"
  shows "core_ok lib (sessions, tokens(HashRecoveryToken lib raw \<mapsto> e),
    notes @ [(sid, aid, reason, ''/recovery/'' @ raw)])"
proof -
  have "dom (tokens(HashRecoveryToken lib raw \<mapsto> e)) = insert (HashRecoveryToken lib raw) (dom tokens)" by simp
  moreover have "{HashRecoveryToken lib raw' | raw'. \<exists>i a r. (i, a, r, ''/recovery/'' @ raw')
        \<in> set (notes @ [(sid, aid, reason, ''/recovery/'' @ raw)])}
    = insert (HashRecoveryToken lib raw) {HashRecoveryToken lib raw' | raw'. \<exists>i a r. (i, a, r, ''/recovery/'' @ raw') \<in> set notes}"
    by auto
  ultimately show ?thesis using assms by (auto simp: core_ok.simps)
qed

lemma issue_inv:
  "hoare (\<lambda>w. sys_inv lib w \<and> is_stored (sess_ID s) w)
    (issue_recovery lib (test_rand b) (test_runner lims t) s reason) (\<lambda>_. sys_inv lib)"
proof (rule hoareI)
  fix w res w'
  assume w: "sys_inv lib w \<and> is_stored (sess_ID s) w"
    and run: "run_state (issue_recovery lib (test_rand b) (test_runner lims t) s reason) w = (res, w')"
  let ?e = "\<lparr>ent_sessionID = sess_ID s, ent_expiresAt = time_Add t (30 * time_Minute), ent_revoked = False\<rparr>"
  from run test_issue [of lib b lims t s reason w] have "core w' = (fss_sessions (bw_sessions w),
      (bw_tokens w)(HashRecoveryToken lib (b64_RawURL (take 32 b)) \<mapsto> ?e),
      bw_notes w @ [(sess_ID s, sess_ApplicationID s, reason, ''/recovery/'' @ b64_RawURL (take 32 b))])"
    by (auto simp: core_def)
  with w core_ok_issue [of lib "fss_sessions (bw_sessions w)" "bw_tokens w" "bw_notes w" "sess_ID s" ?e]
  show "sys_inv lib w'" by (simp add: sys_inv_def is_stored_def core_def)
qed

interpretation sys: runner_inv "test_runner lims t" lib "test_rand b" "sys_inv lib"
    "\<lambda>s. is_stored (sess_ID s)" "\<lambda>_. True" session_ok
  for lims t lib b
proof
  show "session_ok s \<Longrightarrow> hoare (sys_inv lib) (saveSession (test_runner lims t) s)
      (\<lambda>res w. sys_inv lib w \<and> (res = (s, None) \<and> is_stored (sess_ID s) w \<or> (\<exists>e. res = (zeroSession, Some e))))" for s
    by (rule hoare_weaken [OF save_inv]) auto
  show "hoare (\<lambda>w. sys_inv lib w \<and> is_stored (sess_ID s) w)
      (issue_recovery lib (test_rand b) (test_runner lims t) s reason) (\<lambda>_. sys_inv lib)" for s reason
    by (rule issue_inv)
qed (simp_all add: session_ok_states test_runner_simps keeps_return keeps_core core_leaves)

lemma keeps_Start: "keeps (sys_inv lib) (run_Start lib (test_rand b) (test_runner lims t) inp)"
  by (rule sys.start) (simp_all add: test_runner_simps keeps_core core_leaves session_ok_states)

text \<open>The token store of the runner keeps the laws of one, and does not touch the rest.\<close>

interpretation runner_tokens: token_store "run_Tokens (test_runner lims t)" bw_tokens for lims t
proof
  fix h sid u err e now and w w' :: browser_world
  show "err = None \<and> bw_tokens w' = (bw_tokens w)(h \<mapsto> \<lparr>ent_sessionID = sid, ent_expiresAt = u, ent_revoked = False\<rparr>)"
    if "run_state (SaveTokenHash (run_Tokens (test_runner lims t)) h sid u) w = (err, w')"
    using that by (auto simp: test_runner_simps on_tokens_def fakeTokenStore_ops_def)
  show "err = None \<and> bw_tokens w' = (bw_tokens w)(h \<mapsto> e\<lparr>ent_revoked := True\<rparr>)"
    if "run_state (RevokeByHash (run_Tokens (test_runner lims t)) h) w = (err, w')" and "bw_tokens w h = Some e"
    using that by (auto simp: test_runner_simps on_tokens_def fakeTokenStore_ops_def Let_def)
qed (auto simp: test_runner_simps on_tokens_def fakeTokenStore_ops_def entry_live_def Let_def split: option.splits)

lemma leaves_tokens_rest:
  "leaves (\<lambda>w. (fss_sessions (bw_sessions w), bw_notes w)) (on_tokens m)"
  by (simp add: leaves_def on_tokens_def split: prod.splits)

lemma keeps_Redeem: "keeps (sys_inv lib) (Redeem lib (run_Tokens (test_runner lims t)) raw now)"
  unfolding keeps_hoare
proof (rule hoareI)
  fix w r w'
  assume w: "sys_inv lib w" and run: "run_state (Redeem lib (run_Tokens (test_runner lims t)) raw now) w = (r, w')"
  show "sys_inv lib w'"
  proof (cases "\<exists>sid. runner_tokens.redeemable lib w raw now sid")
    case False
    with runner_tokens.Redeem_fails [of lib w raw now lims t] run w show ?thesis by simp
  next
    case True
    then obtain sid where "runner_tokens.redeemable lib w raw now sid" ..
    from runner_tokens.Redeem_succeeds [OF this, of lims t] run obtain e where
      e: "bw_tokens w (HashRecoveryToken lib raw) = Some e"
      "bw_tokens w' = (bw_tokens w)(HashRecoveryToken lib raw \<mapsto> e\<lparr>ent_revoked := True\<rparr>)" by auto
    have "leaves (\<lambda>w. (fss_sessions (bw_sessions w), bw_notes w)) (Redeem lib (run_Tokens (test_runner lims t)) raw now)"
      unfolding Redeem_def Let_def test_runner_simps by (intro leaves_rules leaves_tokens_rest)
    from leavesD [OF this run] e(2) have c: "core w' = (fss_sessions (bw_sessions w),
        (bw_tokens w)(HashRecoveryToken lib raw \<mapsto> e\<lparr>ent_revoked := True\<rparr>), bw_notes w)" by (simp add: core_def)
    have "dom ((bw_tokens w)(HashRecoveryToken lib raw \<mapsto> e\<lparr>ent_revoked := True\<rparr>)) = dom (bw_tokens w)"
      using e(1) by auto
    with w e(1) show ?thesis unfolding sys_inv_def c by (simp add: core_def core_ok.simps)
  qed
qed

lemma keeps_Resume: "keeps (sys_inv lib) (run_Resume lib (test_rand b) (test_runner lims t) raw fvs)"
  by (rule sys.resume) (simp_all add: keeps_Redeem test_runner_simps keeps_core core_leaves session_ok_states)

subsection \<open>Every history keeps the invariant\<close>

lemma step_inv: "runner_step lib w ev w' \<Longrightarrow> sys_inv lib w \<Longrightarrow> sys_inv lib w'"
  by (induction rule: runner_step.induct)
     (auto simp: sys_inv_page dest: keepsD [OF keeps_Start] keepsD [OF keeps_Resume]
        keepsD [OF sys.submit [OF TrueI TrueI session_ok_states(3,5)]])

lemma runs_inv: "runner_runs lib w evs w' \<Longrightarrow> sys_inv lib w \<Longrightarrow> sys_inv lib w'"
  by (induction rule: runner_runs.induct) (auto dest: step_inv)

lemma world_with_inv: "sys_inv lib (world_with d)"
  by (simp add: sys_inv_def core_def core_ok.simps world_with_def newFakeSessionStore_def)

lemmas reachable_inv = runs_inv [OF _ world_with_inv]

lemma sys_inv_sessions:
  "sys_inv lib w \<Longrightarrow> fss_sessions (bw_sessions w) i = Some s \<Longrightarrow> sess_ID s = i \<and> session_ok s"
  by (simp add: sys_inv_def core_def core_ok.simps)

lemma sys_inv_tokens:
  "sys_inv lib w \<Longrightarrow> bw_tokens w h = Some e \<Longrightarrow> \<exists>s. fss_sessions (bw_sessions w) (ent_sessionID e) = Some s"
  by (auto simp: sys_inv_def core_def core_ok.simps)

lemma sys_inv_dom:
  "sys_inv lib w \<Longrightarrow> dom (bw_tokens w)
     = {HashRecoveryToken lib raw | raw. \<exists>sid aid reason. (sid, aid, reason, ''/recovery/'' @ raw) \<in> set (bw_notes w)}"
  by (simp add: sys_inv_def core_def core_ok.simps)

section \<open>Two histories\<close>

lemma sample_submit:
  "\<exists>inp res w s. runner_runs lib (world_with (fake_driver [] StateSubmitted)) [EvSubmit inp (res, None)] w
     \<and> fss_sessions (bw_sessions w) (sess_ID s) = Some s \<and> sess_State s = SessionCompleted"
proof -
  let ?w = "world_with (fake_driver [] StateSubmitted)"
  let ?inp = "\<lparr>sub_Session = zeroSession\<lparr>sess_ExpiresAt := zeroTime\<rparr>,
      sub_GateResult = \<lparr>gate_Passed = True, gate_Reasons = []\<rparr>, sub_SubmitSelector = ''#go''\<rparr>"
  from test_Submit [of ?w lib "[]" zeroTime zeroSession "''#go''"] obtain s w' where
    r: "run_state (run_Submit lib (test_rand []) (test_runner sample_limits zeroTime) ?inp) ?w
      = ((\<lparr>rslt_Session = s, rslt_Outcome = ''submitted''\<rparr>, None), w')" and st: "sess_State s = SessionCompleted"
    by (auto simp: world_with_def fake_driver_def)
  have "fss_sessions (bw_sessions w') (sess_ID s) = Some s"
    using r by (auto simp: run_Submit_def handleNonNormalStateAfterSubmit_def run_expire_def zeroResult_def
      saveSession_def run_isExpired_def test_runner_simps on_sessions_def on_driver_def fakeSessionStore_ops_def
      FakeDriver_Submit_def Let_def split: prod.splits option.splits if_splits dest: pause_outcome)
  with runner_runs.more [OF runner_runs.none runner_step.submit [OF r]] st show ?thesis
    by (metis append_Nil)
qed

lemma test_pause_ok:
  assumes "bw_noteErr w = None"
  shows "\<exists>res w1. run_state (pauseForHuman lib (test_rand b) (test_runner lims t) s reason) w = ((res, None), w1)"
proof -
  let ?r = "test_runner lims t"
  obtain ref shots where 1: "run_state (take_screenshot ?r (sess_ID s)) w
      = (ref, w\<lparr>bw_driver := (bw_driver w)\<lparr>fd_screenshotCalls := fd_screenshotCalls (bw_driver w) + 1\<rparr>,
                bw_shots := shots\<rparr>)" (is "_ = (ref, ?w)")
    using test_screenshot by blast
  let ?url = "fd_CurrentURLValue (bw_driver w)"
  let ?s = "(if ?url \<noteq> [] then s\<lparr>sess_CurrentURL := ?url\<rparr> else s)\<lparr>sess_State := SessionHumanReq,
      sess_HumanRequired := True, sess_FailureReason := reason, sess_ScreenshotRef := ref\<rparr>"
  obtain st where 2: "run_state (saveSession ?r ?s) ?w = ((?s, None), ?w\<lparr>bw_sessions := st\<rparr>)"
    using test_saveSession by blast
  have "run_state (drv_CurrentURL (run_Driver ?r)) ?w = ((?url, None), ?w)"
    by (simp add: test_runner_simps on_driver_def FakeDriver_CurrentURL_def)
  with 1 2 have "run_state (pauseForHuman lib (test_rand b) ?r s reason) w
      = run_state (issue_recovery lib (test_rand b) ?r ?s reason) (?w\<lparr>bw_sessions := st\<rparr>)"
    by (simp add: pauseForHuman_def Let_def)
  with test_issue [of lib b lims t ?s reason "?w\<lparr>bw_sessions := st\<rparr>"] assms show ?thesis by fastforce
qed

lemma sample_pause:
  "\<exists>inp res w e. runner_runs lib (world_with (fake_driver [] StateCaptcha)) [EvSubmit inp (res, None)] w
     \<and> bw_tokens w (HashRecoveryToken lib (b64_RawURL b)) = Some e \<and> entry_live e zeroTime
     \<and> sess_State (fss_get (bw_sessions w) (ent_sessionID e)) = SessionHumanReq
     \<and> \<not> IsExpired (fss_get (bw_sessions w) (ent_sessionID e)) zeroTime"
  if "length b = 32"
proof -
  let ?w = "world_with (fake_driver [] StateCaptcha)"
  let ?r = "test_runner sample_limits zeroTime"
  let ?s = "zeroSession\<lparr>sess_State := SessionRunning\<rparr>"
  let ?inp = "\<lparr>sub_Session = zeroSession, sub_GateResult = \<lparr>gate_Passed = True, gate_Reasons = []\<rparr>,
      sub_SubmitSelector = ''#go''\<rparr>"
  obtain w1 where p: "run_state (run_Submit lib (test_rand b) ?r ?inp) ?w
      = run_state (pauseForHuman lib (test_rand b) ?r ?s ''CAPTCHA detected after submission attempt'') w1"
    and w1: "bw_noteErr w1 = None"
    by (simp add: run_Submit_def handleNonNormalStateAfterSubmit_def run_isExpired_def saveSession_def IsExpired_def
        zeroSession_def time_defs test_runner_simps on_sessions_def on_driver_def fakeSessionStore_ops_def
        FakeDriver_Submit_def world_with_def fake_driver_def Let_def)
  from test_pause_ok [OF w1] obtain res w2 where
    q: "run_state (pauseForHuman lib (test_rand b) ?r ?s ''CAPTCHA detected after submission attempt'') w1
      = ((res, None), w2)" by blast
  have "runner_runs lib ?w [EvSubmit ?inp (res, None)] w2"
    using runner_runs.more [OF runner_runs.none runner_step.submit [OF p [unfolded q]]] by simp
  with test_pause [OF q] that show ?thesis
    by (fastforce simp: entry_live_def time_defs time_Minute_def IsExpired_def zeroSession_def)
qed

end
