(* ===== verification/Faults.thy ===== *)
theory Faults
  imports CP_Prelude
begin

text \<open>
  An environment that fails by a plan: how a call that may fail runs, what it still keeps,
  and that without faults it is the call itself.  \<open>RunnerFaults\<close> lets everything the browser
  runner calls fail in this way, \<open>PipelineFaults\<close> everything the job pipeline calls.
\<close>

section \<open>Calls that may fail\<close>

abbreviation unavailable :: error where
  "unavailable \<equiv> NewError ''unavailable''"

text \<open>
  A call works; or it is refused and does nothing; or it is done and its answer is lost, as
  when the connection breaks after a commit or after a click.  The caller sees the same
  error for the last two.
\<close>

datatype fault = Works | Refused | Lost

definition or_fail :: "'a \<Rightarrow> ('w, 'a) state \<Rightarrow> ('w \<times> fault list, 'a) state" where
  "or_fail x m = State (\<lambda>(w, plan).
     case plan of
       Refused # rest \<Rightarrow> (x, (w, rest))
     | Lost # rest \<Rightarrow> (x, (snd (run_state m w), rest))
     | _ \<Rightarrow> (case run_state m w of (a, w') \<Rightarrow> (a, (w', tl plan))))"

section \<open>What a faulty call keeps\<close>

lemma or_fail_cases:
  assumes "run_state (or_fail x m) v = (a, v')"
  shows "a = x \<and> fst v' = fst v \<or> (\<exists>y. (a = x \<or> a = y) \<and> run_state m (fst v) = (y, fst v'))"
  using assms by (auto simp: or_fail_def split: list.splits fault.splits prod.splits) (metis prod.collapse)

lemma hoare_or_fail:
  assumes "hoare P m Q" and "\<And>w. P w \<Longrightarrow> Q x w" and "\<And>a w. Q a w \<Longrightarrow> Q x w"
  shows "hoare (\<lambda>v. P (fst v)) (or_fail x m) (\<lambda>a v. Q a (fst v))"
proof (rule hoareI)
  fix v a v'
  assume P: "P (fst v)" and run: "run_state (or_fail x m) v = (a, v')"
  from or_fail_cases [OF run] P assms show "Q a (fst v')" by (auto dest: hoareD)
qed

lemma hoare_on_fst: "hoare P m Q \<Longrightarrow> hoare (\<lambda>v. P (fst v)) (on_fst m) (\<lambda>a v. Q a (fst v))"
  by (auto simp: hoare_def split: prod.splits)

lemma keeps_or_fail: "keeps P m \<Longrightarrow> keeps (\<lambda>v. P (fst v)) (or_fail x m)"
  unfolding keeps_hoare by (rule hoare_or_fail)

lemma leaves_or_fail: "leaves f m \<Longrightarrow> leaves (\<lambda>v. f (fst v)) (or_fail x m)"
  by (rule leavesI) (drule or_fail_cases, auto dest: leavesD)

lemma leaves_on_fst: "leaves f m \<Longrightarrow> leaves (\<lambda>v. f (fst v)) (on_fst m)"
  by (rule leavesI) (auto dest: leavesD split: prod.splits)

section \<open>Without faults\<close>

text \<open>\<open>unfaulted m' m\<close>: with nothing planned to fail, \<open>m'\<close> does what \<open>m\<close> does.\<close>

definition unfaulted :: "('w \<times> fault list, 'a) state \<Rightarrow> ('w, 'a) state \<Rightarrow> bool" where
  "unfaulted m' m \<longleftrightarrow> (\<forall>w. run_state m' (w, []) = (fst (run_state m w), (snd (run_state m w), [])))"

lemma unfaultedD: "unfaulted m' m \<Longrightarrow> run_state m w = (a, w') \<Longrightarrow> run_state m' (w, []) = (a, (w', []))"
  by (simp add: unfaulted_def)

lemma unfaulted_ret: "unfaulted (ret x) (ret x)"
  by (simp add: unfaulted_def)

lemma unfaulted_or_fail: "unfaulted (or_fail x m) m"
  by (simp add: unfaulted_def or_fail_def split: prod.splits)

lemma unfaulted_on_fst: "unfaulted (on_fst m) m"
  by (simp add: unfaulted_def split: prod.splits)

lemma unfaulted_bind:
  "unfaulted m' m \<Longrightarrow> (\<And>a. unfaulted (f' a) (f a)) \<Longrightarrow> unfaulted (State_Monad.bind m' f') (State_Monad.bind m f)"
  by (simp add: unfaulted_def split: prod.splits)

lemma unfaulted_if:
  "unfaulted m' m \<Longrightarrow> unfaulted n' n \<Longrightarrow> unfaulted (if c then m' else n') (if c then m else n)"
  by simp

lemma unfaulted_option:
  "unfaulted m' m \<Longrightarrow> (\<And>e. unfaulted (f' e) (f e)) \<Longrightarrow>
   unfaulted (case x of None \<Rightarrow> m' | Some e \<Rightarrow> f' e) (case x of None \<Rightarrow> m | Some e \<Rightarrow> f e)"
  by (cases x) auto

lemma unfaulted_sum:
  "(\<And>e. unfaulted (f' e) (f e)) \<Longrightarrow> (\<And>v. unfaulted (g' v) (g v)) \<Longrightarrow>
   unfaulted (case x of Inl e \<Rightarrow> f' e | Inr v \<Rightarrow> g' v) (case x of Inl e \<Rightarrow> f e | Inr v \<Rightarrow> g v)"
  by (cases x) auto

lemma unfaulted_prod:
  "(\<And>a b. unfaulted (f' a b) (f a b)) \<Longrightarrow> unfaulted (case x of (a, b) \<Rightarrow> f' a b) (case x of (a, b) \<Rightarrow> f a b)"
  by (cases x) auto

lemma unfaulted_Let: "(\<And>a. unfaulted (f' a) (f a)) \<Longrightarrow> unfaulted (let a = x in f' a) (let a = x in f a)"
  by simp

lemmas unfaulted_rules = unfaulted_bind unfaulted_or_fail unfaulted_on_fst unfaulted_if unfaulted_option unfaulted_sum
  unfaulted_prod unfaulted_Let unfaulted_ret

end
