(* ===== verification/RunnerFaults.thy ===== *)
theory RunnerFaults
  imports RunnerSystem Faults
begin

text \<open>
  The runner of \<open>internal/browser/runner.go\<close> when anything it calls may fail: the browser,
  the stores, the screenshots, the notifier and the random source.  Each call of the
  environment takes the next fault of a plan, which says whether it works, is refused, or
  takes place and then reports an error.  With the empty plan the runner is the one without
  faults.  Histories of such calls are the setting of \<open>RunnerCompleted\<close>, \<open>RunnerStored\<close>,
  \<open>RunnerBudget\<close> and \<open>RunnerLifecycle\<close>.
\<close>

section \<open>A runner whose environment fails by a plan\<close>

definition faulty :: "'w Runner \<Rightarrow> ('w \<times> fault list) Runner" where
  "faulty r =
     \<lparr>run_Driver =
        \<lparr>drv_Launch = or_fail unavailable (drv_Launch (run_Driver r)),
         drv_Navigate = (\<lambda>url. or_fail (StateUnknown, unavailable) (drv_Navigate (run_Driver r) url)),
         drv_Fill = (\<lambda>fvs. or_fail unavailable (drv_Fill (run_Driver r) fvs)),
         drv_DetectState = or_fail (StateUnknown, unavailable) (drv_DetectState (run_Driver r)),
         drv_Screenshot = or_fail (zeroScreenshot, unavailable) (drv_Screenshot (run_Driver r)),
         drv_CurrentURL = or_fail ([], unavailable) (drv_CurrentURL (run_Driver r)),
         drv_Submit = (\<lambda>sel. or_fail (StateUnknown, unavailable) (drv_Submit (run_Driver r) sel)),
         drv_Close = or_fail unavailable (drv_Close (run_Driver r))\<rparr>,
      run_Sessions =
        \<lparr>GetSession = (\<lambda>i. or_fail (zeroSession, unavailable) (GetSession (run_Sessions r) i)),
         SaveSession = (\<lambda>s. or_fail (zeroSession, unavailable) (SaveSession (run_Sessions r) s)),
         SaveCheckpoint = (\<lambda>c. or_fail (c, unavailable) (SaveCheckpoint (run_Sessions r) c)),
         ListCheckpoints = (\<lambda>i. or_fail ([], unavailable) (ListCheckpoints (run_Sessions r) i)),
         CountStartedSince = (\<lambda>t. or_fail (0, unavailable) (CountStartedSince (run_Sessions r) t))\<rparr>,
      run_Tokens =
        \<lparr>SaveTokenHash = (\<lambda>h i t. or_fail unavailable (SaveTokenHash (run_Tokens r) h i t)),
         LookupByHash = (\<lambda>h t. or_fail ([], False, unavailable) (LookupByHash (run_Tokens r) h t)),
         RevokeByHash = (\<lambda>h. or_fail unavailable (RevokeByHash (run_Tokens r) h))\<rparr>,
      run_Screens = \<lparr>SaveScreenshot = (\<lambda>i shot. or_fail ([], unavailable) (SaveScreenshot (run_Screens r) i shot))\<rparr>,
      run_Notifier = map_option (\<lambda>n. \<lparr>NotifyHumanRequired =
        (\<lambda>s a reason url. or_fail unavailable (NotifyHumanRequired n s a reason url))\<rparr>) (run_Notifier r),
      run_Limits = run_Limits r, run_NewID = on_fst (run_NewID r), run_Now = on_fst (run_Now r),
      run_RecoveryTTL = run_RecoveryTTL r\<rparr>"

definition faulty_rand :: "(nat \<Rightarrow> ('w, string \<times> error) state) \<Rightarrow> (nat \<Rightarrow> ('w \<times> fault list, string \<times> error) state)" where
  "faulty_rand rand_Read n = or_fail ([], unavailable) (rand_Read n)"

lemma faulty_simps [simp]:
  "drv_Launch (run_Driver (faulty r)) = or_fail unavailable (drv_Launch (run_Driver r))"
  "drv_Navigate (run_Driver (faulty r)) url = or_fail (StateUnknown, unavailable) (drv_Navigate (run_Driver r) url)"
  "drv_Fill (run_Driver (faulty r)) fvs = or_fail unavailable (drv_Fill (run_Driver r) fvs)"
  "drv_DetectState (run_Driver (faulty r)) = or_fail (StateUnknown, unavailable) (drv_DetectState (run_Driver r))"
  "drv_Screenshot (run_Driver (faulty r)) = or_fail (zeroScreenshot, unavailable) (drv_Screenshot (run_Driver r))"
  "drv_CurrentURL (run_Driver (faulty r)) = or_fail ([], unavailable) (drv_CurrentURL (run_Driver r))"
  "drv_Submit (run_Driver (faulty r)) sel = or_fail (StateUnknown, unavailable) (drv_Submit (run_Driver r) sel)"
  "GetSession (run_Sessions (faulty r)) i = or_fail (zeroSession, unavailable) (GetSession (run_Sessions r) i)"
  "SaveSession (run_Sessions (faulty r)) s = or_fail (zeroSession, unavailable) (SaveSession (run_Sessions r) s)"
  "SaveCheckpoint (run_Sessions (faulty r)) c = or_fail (c, unavailable) (SaveCheckpoint (run_Sessions r) c)"
  "CountStartedSince (run_Sessions (faulty r)) t = or_fail (0, unavailable) (CountStartedSince (run_Sessions r) t)"
  "SaveTokenHash (run_Tokens (faulty r)) h i t = or_fail unavailable (SaveTokenHash (run_Tokens r) h i t)"
  "LookupByHash (run_Tokens (faulty r)) h t = or_fail ([], False, unavailable) (LookupByHash (run_Tokens r) h t)"
  "RevokeByHash (run_Tokens (faulty r)) h = or_fail unavailable (RevokeByHash (run_Tokens r) h)"
  "SaveScreenshot (run_Screens (faulty r)) i shot = or_fail ([], unavailable) (SaveScreenshot (run_Screens r) i shot)"
  "run_Limits (faulty r) = run_Limits r" "run_NewID (faulty r) = on_fst (run_NewID r)"
  "run_Now (faulty r) = on_fst (run_Now r)" "run_RecoveryTTL (faulty r) = run_RecoveryTTL r"
  by (simp_all add: faulty_def)

section \<open>Without faults\<close>

lemma unfaulted_parts:
  "unfaulted (saveSession (faulty r) s) (saveSession r s)"
  "unfaulted (run_isExpired (faulty r) s) (run_isExpired r s)"
  "unfaulted (run_startOfToday (faulty r)) (run_startOfToday r)"
  "unfaulted (take_screenshot (faulty r) i) (take_screenshot r i)"
  "unfaulted (NewRecoveryToken lib (faulty_rand rand_Read) i now ttl) (NewRecoveryToken lib rand_Read i now ttl)"
  "unfaulted (Redeem lib (run_Tokens (faulty r)) raw now) (Redeem lib (run_Tokens r) raw now)"
  unfolding saveSession_def run_isExpired_def run_startOfToday_def take_screenshot_def NewRecoveryToken_def
    Redeem_def faulty_rand_def faulty_simps
  by (intro unfaulted_rules)+

lemma unfaulted_ends:
  "unfaulted (run_fail (faulty r) s reason) (run_fail r s reason)"
  "unfaulted (run_expire (faulty r) s) (run_expire r s)"
  "unfaulted (checkpoint (faulty r) s step) (checkpoint r s step)"
  unfolding run_fail_def run_expire_def checkpoint_def faulty_simps
  by (intro unfaulted_rules unfaulted_parts)+

lemma unfaulted_pause:
  "unfaulted (pauseForHuman lib (faulty_rand rand_Read) (faulty r) s reason) (pauseForHuman lib rand_Read r s reason)"
proof -
  have notify: "unfaulted
      (case run_Notifier (faulty r) of None \<Rightarrow> ret x
       | Some n \<Rightarrow> (do { nerr \<leftarrow> NotifyHumanRequired n a b c d;
           case nerr of Some e \<Rightarrow> ret (y e) | None \<Rightarrow> ret x }))
      (case run_Notifier r of None \<Rightarrow> ret x
       | Some n \<Rightarrow> (do { nerr \<leftarrow> NotifyHumanRequired n a b c d;
           case nerr of Some e \<Rightarrow> ret (y e) | None \<Rightarrow> ret x }))" for x y a b c d
    by (cases "run_Notifier r") (auto simp: faulty_def intro!: unfaulted_rules)
  show ?thesis
    unfolding pauseForHuman_def issue_recovery_def faulty_simps
    by (intro unfaulted_bind [OF unfaulted_or_fail] unfaulted_bind [OF unfaulted_on_fst] unfaulted_bind unfaulted_parts
          unfaulted_prod unfaulted_Let unfaulted_sum notify unfaulted_option unfaulted_ret)
qed

lemma unfaulted_handled:
  assumes "unfaulted m' m"
  shows "unfaulted
     (State_Monad.bind (handleNonNormalState lib (faulty_rand rand_Read) (faulty r) s st)
        (\<lambda>handled. case handled of Some res \<Rightarrow> ret res | None \<Rightarrow> m'))
     (State_Monad.bind (handleNonNormalState lib rand_Read r s st)
        (\<lambda>handled. case handled of Some res \<Rightarrow> ret res | None \<Rightarrow> m))"
  using assms
  by (cases "st = StateNormal") (simp_all add: handle_normal handle_option_some unfaulted_ends unfaulted_pause)

lemma unfaulted_fill:
  "unfaulted (fillAndCheckpoint lib (faulty_rand rand_Read) (faulty r) s fvs) (fillAndCheckpoint lib rand_Read r s fvs)"
  unfolding fillAndCheckpoint_def faulty_simps
  by (intro unfaulted_handled unfaulted_rules unfaulted_ends)

lemma unfaulted_navigate:
  "unfaulted (navigateAndFill lib (faulty_rand rand_Read) (faulty r) s url fvs) (navigateAndFill lib rand_Read r s url fvs)"
  unfolding navigateAndFill_def faulty_simps
  by (intro unfaulted_handled unfaulted_rules unfaulted_parts unfaulted_ends unfaulted_fill)

lemma unfaulted_calls:
  "unfaulted (run_Start lib (faulty_rand rand_Read) (faulty r) inp) (run_Start lib rand_Read r inp)"
  "unfaulted (run_Resume lib (faulty_rand rand_Read) (faulty r) raw fvs) (run_Resume lib rand_Read r raw fvs)"
  "unfaulted (run_Submit lib (faulty_rand rand_Read) (faulty r) sinp) (run_Submit lib rand_Read r sinp)"
  unfolding run_Start_def run_Resume_def run_Submit_def handleNonNormalStateAfterSubmit_def faulty_simps
  by (intro unfaulted_rules unfaulted_parts unfaulted_ends unfaulted_pause unfaulted_fill unfaulted_navigate)+

section \<open>Histories of calls in which anything may fail\<close>

text \<open>
  The calls of \<open>RunnerSystem\<close>, each with a plan of faults of its own.  A history in which
  nothing fails is one of them.
\<close>

abbreviation test_faulty :: "Limits \<Rightarrow> Time \<Rightarrow> (browser_world \<times> fault list) Runner" where
  "test_faulty lims t \<equiv> faulty (test_runner lims t)"

abbreviation faulty_bytes :: "string \<Rightarrow> nat \<Rightarrow> (browser_world \<times> fault list, string \<times> error) state" where
  "faulty_bytes b \<equiv> faulty_rand (test_rand b)"

inductive fault_step :: "golib \<Rightarrow> browser_world \<Rightarrow> runner_event \<Rightarrow> browser_world \<Rightarrow> bool" for lib where
  start: "run_state (run_Start lib (faulty_bytes b) (test_faulty lims t) inp) (w, plan) = (res, (w', plan')) \<Longrightarrow>
    fault_step lib w (EvStart inp res) w'"
| resume: "run_state (run_Resume lib (faulty_bytes b) (test_faulty lims t) raw fvs) (w, plan) = (res, (w', plan')) \<Longrightarrow>
    fault_step lib w (EvResume raw res) w'"
| submit: "run_state (run_Submit lib (faulty_bytes b) (test_faulty lims t) inp) (w, plan) = (res, (w', plan')) \<Longrightarrow>
    fault_step lib w (EvSubmit inp res) w'"
| page: "fault_step lib w (EvPage d e) (w\<lparr>bw_driver := d, bw_noteErr := e\<rparr>)"

inductive_cases fault_step_submit: "fault_step lib w (EvSubmit inp res) w'"

inductive fault_runs :: "golib \<Rightarrow> browser_world \<Rightarrow> runner_event list \<Rightarrow> browser_world \<Rightarrow> bool" for lib where
  none: "fault_runs lib w [] w"
| more: "fault_runs lib w evs w1 \<Longrightarrow> fault_step lib w1 ev w2 \<Longrightarrow> fault_runs lib w (evs @ [ev]) w2"

lemma runner_step_fault: "runner_step lib w ev w' \<Longrightarrow> fault_step lib w ev w'"
  by (induction rule: runner_step.induct)
     (auto intro: fault_step.intros unfaultedD [OF unfaulted_calls(1)] unfaultedD [OF unfaulted_calls(2)]
        unfaultedD [OF unfaulted_calls(3)])

lemma runner_runs_fault: "runner_runs lib w evs w' \<Longrightarrow> fault_runs lib w evs w'"
  by (induction rule: runner_runs.induct) (auto intro: fault_runs.intros runner_step_fault)

lemma fault_runs_split:
  assumes "fault_runs lib w evs w'" and "ev \<in> set evs"
  shows "\<exists>evs1 w1 w2 evs2. evs = evs1 @ ev # evs2 \<and> fault_runs lib w evs1 w1 \<and> fault_step lib w1 ev w2"
  using assms
proof (induction rule: fault_runs.induct)
  case (none w)
  then show ?case by simp
next
  case (more w evs w1 ev' w2)
  then show ?case by (cases "ev = ev'") fastforce+
qed

section \<open>What a faulty call of the stores does\<close>

abbreviation sessions_of :: "browser_world \<Rightarrow> string \<rightharpoonup> Session" where
  "sessions_of w \<equiv> fss_sessions (bw_sessions w)"

text \<open>A faulty save of a session does what the save does, whatever it answers, or nothing.\<close>

lemma faulty_save_cases:
  assumes "run_state (saveSession (faulty r) s) v = (res, v')"
  shows "(\<exists>e. res = (zeroSession, Some e))
      \<and> (fst v' = fst v \<or> (\<exists>res'. run_state (saveSession r s) (fst v) = (res', fst v')))
    \<or> run_state (saveSession r s) (fst v) = (res, fst v')"
proof -
  obtain b err v1 where r: "run_state (or_fail (zeroSession, unavailable) (SaveSession (run_Sessions r) s)) v
      = ((b, err), v1)" by (metis prod.collapse)
  with assms or_fail_cases [OF r] show ?thesis
    by (auto simp: saveSession_def split: option.splits prod.splits)
qed

lemma test_save:
  "run_state (saveSession (test_runner lims t) s) w = (res, w') \<Longrightarrow>
     res = (s, None) \<and> sessions_of w' = (sessions_of w)(sess_ID s \<mapsto> s) \<and> bw_tokens w' = bw_tokens w
     \<and> bw_driver w' = bw_driver w \<and> bw_notes w' = bw_notes w"
  by (auto simp: saveSession_def test_runner_simps on_sessions_def fakeSessionStore_ops_def Let_def)

text \<open>The part of the world that sessions and tokens are in, and what leaves it alone.\<close>

lemma core_left:
  "leaves core (run_Now (test_runner lims t))" "leaves core (run_NewID (test_runner lims t))"
  "leaves core (drv_Launch (run_Driver (test_runner lims t)))"
  "leaves core (drv_Navigate (run_Driver (test_runner lims t)) url)"
  "leaves core (drv_Fill (run_Driver (test_runner lims t)) fvs)"
  "leaves core (drv_DetectState (run_Driver (test_runner lims t)))"
  "leaves core (drv_Screenshot (run_Driver (test_runner lims t)))"
  "leaves core (drv_CurrentURL (run_Driver (test_runner lims t)))"
  "leaves core (drv_Submit (run_Driver (test_runner lims t)) sel)"
  "leaves core (SaveScreenshot (run_Screens (test_runner lims t)) k shot)"
  "leaves core (SaveCheckpoint (run_Sessions (test_runner lims t)) c)"
  "leaves core (GetSession (run_Sessions (test_runner lims t)) k)"
  "leaves core (CountStartedSince (run_Sessions (test_runner lims t)) d)"
  "leaves core (LookupByHash (run_Tokens (test_runner lims t)) h now)"
  "leaves core (test_rand b n)"
  by (simp_all add: test_runner_simps test_rand_def leaves_return core_leaves)

lemmas core_left_faulty = core_left [THEN leaves_or_fail] core_left(1,2) [THEN leaves_on_fst]

text \<open>
  The handoff and the redemption leave alone whatever the token store and the notifier leave
  alone.
\<close>

lemma leaves_issue_faulty:
  assumes "\<And>h i u. leaves f (SaveTokenHash (run_Tokens (test_runner lims t)) h i u)"
    and "\<And>i a c u. leaves f (NotifyHumanRequired fakeNotifier_ops i a c u)"
  shows "leaves (\<lambda>v. f (fst v)) (issue_recovery lib (faulty_bytes b) (test_faulty lims t) s reason)"
proof -
  have parts: "leaves (\<lambda>v. f (fst v)) (on_fst (run_Now (test_runner lims t)))"
    "leaves (\<lambda>v. f (fst v)) (or_fail x (test_rand b n))" for x n
    by (auto intro!: leaves_or_fail leaves_on_fst simp: test_runner_simps test_rand_def leaves_return)
  have notifier: "run_Notifier (test_faulty lims t)
      = Some \<lparr>NotifyHumanRequired = (\<lambda>s a reason url. or_fail unavailable (NotifyHumanRequired fakeNotifier_ops s a reason url))\<rparr>"
    by (simp add: faulty_def test_runner_simps)
  show ?thesis
    unfolding issue_recovery_def NewRecoveryToken_def faulty_rand_def faulty_simps notifier option.case
    by (intro leaves_rules parts leaves_or_fail assms) (simp add: leaves_rules parts leaves_or_fail assms)
qed

lemma leaves_Redeem_faulty:
  assumes "\<And>h u. leaves f (LookupByHash (run_Tokens (test_runner lims t)) h u)"
    and "\<And>h. leaves f (RevokeByHash (run_Tokens (test_runner lims t)) h)"
  shows "leaves (\<lambda>v. f (fst v)) (Redeem lib (run_Tokens (test_faulty lims t)) raw now)"
  unfolding Redeem_def Let_def faulty_simps by (intro leaves_rules leaves_or_fail assms)

text \<open>
  A redemption finds an open token of a session and closes it, and may still report an
  error; or it changes neither sessions nor tokens.
\<close>

lemma faulty_Redeem:
  assumes "run_state (Redeem lib (run_Tokens (test_faulty lims t)) raw now) v = (red, v')"
  shows "(\<exists>x. red = Inl x) \<and> core (fst v') = core (fst v)
    \<or> (\<exists>e. (red = Inr (ent_sessionID e) \<or> (\<exists>x. red = Inl x))
         \<and> bw_tokens (fst v) (HashRecoveryToken lib raw) = Some e \<and> \<not> ent_revoked e
         \<and> sessions_of (fst v') = sessions_of (fst v)
         \<and> bw_tokens (fst v') = (bw_tokens (fst v))(HashRecoveryToken lib raw \<mapsto> e\<lparr>ent_revoked := True\<rparr>))"
proof -
  let ?h = "HashRecoveryToken lib raw" and ?R = "run_Tokens (test_runner lims t)"
  obtain sid ok err v1 where l: "run_state (or_fail ([], False, unavailable) (LookupByHash ?R ?h now)) v = ((sid, ok, err), v1)"
    by (metis prod.collapse)
  from or_fail_cases [OF l] have l1: "fst v1 = fst v"
    and l2: "err = None \<Longrightarrow> ok \<Longrightarrow> \<exists>e. bw_tokens (fst v) ?h = Some e \<and> \<not> ent_revoked e \<and> ent_sessionID e = sid"
    by (auto simp: test_runner_simps on_tokens_def fakeTokenStore_ops_def split: option.splits if_splits)
  show ?thesis
  proof (cases "err = None \<and> ok")
    case False
    with assms l l1 show ?thesis by (auto simp: Redeem_def Let_def split: option.splits)
  next
    case True
    with l2 obtain e where e: "bw_tokens (fst v) ?h = Some e" "\<not> ent_revoked e" "ent_sessionID e = sid" by blast
    obtain rerr v2 where r: "run_state (or_fail unavailable (RevokeByHash ?R ?h)) v1 = (rerr, v2)"
      by (metis prod.collapse)
    with assms l True have red: "v' = v2" "red = (case rerr of None \<Rightarrow> Inr sid
        | Some e \<Rightarrow> Inl (WrapError ''browser: revoke recovery token after redemption: '' e))"
      by (auto simp: Redeem_def Let_def split: option.splits)
    from or_fail_cases [OF r] consider "rerr = unavailable" "fst v2 = fst v1"
      | y where "run_state (RevokeByHash ?R ?h) (fst v1) = (y, fst v2)" by blast
    then show ?thesis
    proof cases
      case 1
      with red l1 show ?thesis by auto
    next
      case 2
      with e l1 have "fst v2 = (fst v)\<lparr>bw_tokens := (bw_tokens (fst v))(?h \<mapsto> e\<lparr>ent_revoked := True\<rparr>)\<rparr>"
        by (simp_all add: test_runner_simps on_tokens_def fakeTokenStore_ops_def Let_def)
      with red e show ?thesis by (auto split: option.splits)
    qed
  qed
qed

end
