(* ===== verification/RunnerCompleted.thy ===== *)
theory RunnerCompleted
  imports RunnerFaults
begin

text \<open>
  Which sessions of the runner (\<open>internal/browser/runner.go\<close>) can be COMPLETED, whatever fails
  and whether or not what failed had taken effect.
\<close>

section \<open>Completed sessions\<close>

text \<open>\<open>C\<close> holds the ids of the sessions that may be COMPLETED.\<close>

definition done_in :: "string set \<Rightarrow> browser_world \<Rightarrow> bool" where
  "done_in C w \<longleftrightarrow> (\<forall>i s. sessions_of w i = Some s \<longrightarrow> sess_State s = SessionCompleted \<longrightarrow> i \<in> C)"

lemma done_in_mono: "done_in C w \<Longrightarrow> C \<subseteq> D \<Longrightarrow> done_in D w"
  by (auto simp: done_in_def)

lemma keeps_done:
  assumes "leaves (\<lambda>v. core (fst v)) m"
  shows "keeps (\<lambda>v. done_in C (fst v)) m"
  unfolding keeps_hoare by (rule hoareI) (use leavesD [OF assms] in \<open>auto simp: done_in_def core_def\<close>)

lemma leaves_sessions_issue:
  "leaves (\<lambda>v. sessions_of (fst v)) (issue_recovery lib (faulty_bytes b) (test_faulty lims t) s reason)"
  by (rule leaves_issue_faulty)
     (simp_all add: leaves_def test_runner_simps on_tokens_def fakeNotifier_ops_def split: prod.splits)

lemma leaves_sessions_Redeem: "leaves (\<lambda>v. sessions_of (fst v)) (Redeem lib (run_Tokens (test_faulty lims t)) raw now)"
  by (rule leaves_Redeem_faulty) (simp_all add: leaves_def test_runner_simps on_tokens_def split: prod.splits)

lemma done_save:
  "hoare (\<lambda>v. done_in C (fst v)) (saveSession (test_faulty lims t) s)
    (\<lambda>res v. done_in (if sess_State s = SessionCompleted then insert (sess_ID s) C else C) (fst v)
       \<and> (res = (s, None) \<or> (\<exists>e. res = (zeroSession, Some e))))"
  (is "hoare _ _ (\<lambda>res v. done_in ?D (fst v) \<and> _)")
proof (rule hoareI)
  fix v res v'
  assume v: "done_in C (fst v)" and run: "run_state (saveSession (test_faulty lims t) s) v = (res, v')"
  have "done_in ?D w'" if "run_state (saveSession (test_runner lims t) s) (fst v) = (res', w')" for res' w'
    using v test_save [OF that] by (auto simp: done_in_def)
  moreover from v have "done_in ?D (fst v)" by (rule done_in_mono) auto
  ultimately show "done_in ?D (fst v') \<and> (res = (s, None) \<or> (\<exists>e. res = (zeroSession, Some e)))"
    using faulty_save_cases [OF run] test_save by metis
qed

interpretation completed: runner_inv "test_faulty lims t" lib "faulty_bytes b" "\<lambda>v. done_in C (fst v)"
    "\<lambda>_ _. True" "\<lambda>_. True" "\<lambda>s. sess_State s \<noteq> SessionCompleted"
  for lims t lib b C
proof
  show "hoare (\<lambda>v. done_in C (fst v)) (saveSession (test_faulty lims t) s)
      (\<lambda>res v. done_in C (fst v) \<and> (res = (s, None) \<and> True \<or> (\<exists>e. res = (zeroSession, Some e))))"
    if "sess_State s \<noteq> SessionCompleted" for s
    by (rule hoare_weaken [OF done_save]) (use that in auto)
  show "hoare (\<lambda>v. done_in C (fst v) \<and> True) (issue_recovery lib (faulty_bytes b) (test_faulty lims t) s reason)
      (\<lambda>_ v. done_in C (fst v))" for s reason
    by (rule hoareI) (use leavesD [OF leaves_sessions_issue] in \<open>auto simp: done_in_def\<close>)
qed (auto simp: keeps_done core_left_faulty)

lemma keeps_done_Start: "keeps (\<lambda>v. done_in C (fst v)) (run_Start lib (faulty_bytes b) (test_faulty lims t) inp)"
  by (rule completed.start) (simp_all add: keeps_done core_left_faulty)

lemma keeps_done_Resume: "keeps (\<lambda>v. done_in C (fst v)) (run_Resume lib (faulty_bytes b) (test_faulty lims t) raw fvs)"
proof (rule completed.resume)
  show "keeps (\<lambda>v. done_in C (fst v)) (Redeem lib (run_Tokens (test_faulty lims t)) raw now)" for now
    unfolding keeps_hoare by (rule hoareI) (use leavesD [OF leaves_sessions_Redeem] in \<open>auto simp: done_in_def\<close>)
qed (simp_all add: keeps_done core_left_faulty)

text \<open>The driver is what it was until the page is asked to submit.\<close>

lemma keeps_driver:
  "keeps (\<lambda>v. bw_driver (fst v) = d) (run_isExpired (test_faulty lims t) s)"
  "keeps (\<lambda>v. bw_driver (fst v) = d) (saveSession (test_faulty lims t) s)"
proof -
  show "keeps (\<lambda>v. bw_driver (fst v) = d) (run_isExpired (test_faulty lims t) s)"
    unfolding run_isExpired_def by (simp add: keeps_def test_runner_simps split: prod.splits)
  show "keeps (\<lambda>v. bw_driver (fst v) = d) (saveSession (test_faulty lims t) s)"
    unfolding keeps_hoare
  proof (rule hoareI)
    fix v res v'
    assume v: "bw_driver (fst v) = d" and run: "run_state (saveSession (test_faulty lims t) s) v = (res, v')"
    from faulty_save_cases [OF run] v show "bw_driver (fst v') = d" by (auto dest: test_save)
  qed
qed

text \<open>The page confirms a click.\<close>

definition confirms :: "FakeDriver \<Rightarrow> bool" where
  "confirms d \<longleftrightarrow> fd_SubmitState d = StateSubmitted \<and> fd_SubmitErr d = None"

lemma click_confirmed:
  "hoare (\<lambda>v. done_in C (fst v) \<and> bw_driver (fst v) = d) (drv_Submit (run_Driver (test_faulty lims t)) sel)
    (\<lambda>res v. (res = (StateSubmitted, None) \<longrightarrow> confirms d) \<and> done_in C (fst v))"
proof -
  have "hoare (\<lambda>w. done_in C w \<and> bw_driver w = d) (drv_Submit (run_Driver (test_runner lims t)) sel)
      (\<lambda>res w. (res = (StateSubmitted, None) \<longrightarrow> confirms d) \<and> done_in C w)"
    by (auto simp: hoare_def test_runner_simps on_driver_def FakeDriver_Submit_def confirms_def done_in_def
        split: option.splits)
  from hoare_or_fail [OF this] show ?thesis by simp
qed

text \<open>
  A submission may complete its own session, and no other, if its gate has passed and the
  page confirms; and then it says so, or returns an error.
\<close>

definition completes :: "FakeDriver \<Rightarrow> SubmitInput \<Rightarrow> Result \<times> error \<Rightarrow> string set" where
  "completes d inp res =
     (if gate_Passed (sub_GateResult inp) \<and> confirms d \<and> (snd res = None \<longrightarrow> rslt_Outcome (fst res) = ''submitted'')
      then {sess_ID (sub_Session inp)} else {})"

lemma done_Submit:
  "hoare (\<lambda>v. done_in C (fst v) \<and> bw_driver (fst v) = d) (run_Submit lib (faulty_bytes b) (test_faulty lims t) inp)
    (\<lambda>res v. done_in (C \<union> completes d inp res) (fst v))"
proof -
  let ?r = "test_faulty lims t" and ?I = "\<lambda>v. done_in C (fst v)"
  let ?ID = "\<lambda>v. done_in C (fst v) \<and> bw_driver (fst v) = d"
  let ?Q = "\<lambda>res v. done_in (C \<union> completes d inp res) (fst v)"
  have up: "hoare ?I m (\<lambda>_. ?I) \<Longrightarrow> hoare ?I m ?Q" for m
    by (erule hoare_weaken) (auto intro: done_in_mono)
  have drop: "hoare ?I m Q \<Longrightarrow> hoare ?ID m Q" for m Q
    by (erule hoare_pre) simp
  have both: "hoare ?ID m (\<lambda>_. ?ID)" if "keeps ?I m" and "keeps (\<lambda>v. bw_driver (fst v) = d) m" for m
    using that unfolding keeps_def hoare_def by blast
  have expired: "hoare ?ID (State_Monad.bind (run_isExpired ?r s) f) Q" if "\<And>b. hoare ?ID (f b) Q" for s f Q
    by (rule hoare_bind [OF both [OF completed.isExpired keeps_driver(1)] that])
  have saved: "hoare ?ID (State_Monad.bind (saveSession ?r s) f) Q"
    if "sess_State s \<noteq> SessionCompleted" and "hoare ?ID (f (s, None)) Q" and "\<And>e. hoare ?ID (f (zeroSession, Some e)) Q"
    for s f Q
  proof (rule hoare_bind)
    show "hoare ?ID (saveSession ?r s) (\<lambda>res v. ?ID v \<and> (res = (s, None) \<or> (\<exists>e. res = (zeroSession, Some e))))"
    proof (rule hoareI)
      fix v res v'
      assume v: "?ID v" and run: "run_state (saveSession ?r s) v = (res, v')"
      from v hoareD [OF done_save _ run, of C] that(1) keepsD [OF keeps_driver(2) _ run, of d]
      show "?ID v' \<and> (res = (s, None) \<or> (\<exists>e. res = (zeroSession, Some e)))" by simp
    qed
  qed (use that(2,3) in \<open>auto simp: hoare_def\<close>)
  have clicked: "hoare ?ID (State_Monad.bind (drv_Submit (run_Driver ?r) sel) f) Q"
    if "\<And>res. (res = (StateSubmitted, None) \<longrightarrow> confirms d) \<Longrightarrow> hoare ?I (f res) Q" for sel f Q
    by (rule hoare_bind [OF click_confirmed hoare_pure]) (rule that)
  have plain: "hoare ?I (ret x) ?Q" for x
    by (rule up) (simp add: hoare_def)
  have confirmed: "hoare ?I
      (do { (session, serr) \<leftarrow> saveSession ?r (s\<lparr>sess_State := SessionCompleted\<rparr>);
            case serr of Some e \<Rightarrow> ret (zeroResult, Some e)
            | None \<Rightarrow> ret (\<lparr>rslt_Session = session, rslt_Outcome = ''submitted''\<rparr>, None) }) ?Q"
    if "gate_Passed (sub_GateResult inp)" and "sess_ID s = sess_ID (sub_Session inp)" and "confirms d" for s
    by (rule hoare_bind [OF done_save])
       (use that in \<open>auto simp: hoare_def completes_def zeroResult_def split: option.splits\<close>)
  show ?thesis
    unfolding run_Submit_def Let_def
    by (intro hoare_if drop [OF plain] expired drop [OF up [OF completed.expire_ends]] saved)
       (auto intro!: clicked drop [OF plain] hoare_prod hoare_option hoare_if up [OF completed.pause_ends]
          up [OF completed.uncertain_ends] confirmed simp del: faulty_simps)
qed

text \<open>
  The sessions that a history has submitted: behind a passed gate, in front of a page that
  confirmed the click, and with a result that says so or an error.
\<close>

definition submitted_ids :: "golib \<Rightarrow> browser_world \<Rightarrow> runner_event list \<Rightarrow> string set" where
  "submitted_ids lib w0 evs = {sess_ID (sub_Session inp) | inp res err evs1 evs2 w1.
     evs = evs1 @ EvSubmit inp (res, err) # evs2 \<and> fault_runs lib w0 evs1 w1 \<and> confirms (bw_driver w1)
     \<and> gate_Passed (sub_GateResult inp) \<and> (err = None \<longrightarrow> rslt_Outcome res = ''submitted'')}"

lemma submitted_ids_snoc: "submitted_ids lib w0 evs \<subseteq> submitted_ids lib w0 (evs @ [ev])"
  unfolding submitted_ids_def by (fastforce simp: append_Cons)

lemma submitted_ids_completes:
  assumes "fault_runs lib w0 evs w1"
  shows "submitted_ids lib w0 evs \<union> completes (bw_driver w1) inp res \<subseteq> submitted_ids lib w0 (evs @ [EvSubmit inp res])"
proof (rule Un_least [OF submitted_ids_snoc])
  show "completes (bw_driver w1) inp res \<subseteq> submitted_ids lib w0 (evs @ [EvSubmit inp res])"
  proof
    fix i assume "i \<in> completes (bw_driver w1) inp res"
    with assms show "i \<in> submitted_ids lib w0 (evs @ [EvSubmit inp res])"
      unfolding submitted_ids_def mem_Collect_eq
      by (intro exI [of _ inp] exI [of _ "fst res"] exI [of _ "snd res"] exI [of _ evs] exI [of _ "[]"] exI [of _ w1])
         (simp add: completes_def split: if_splits)
  qed
qed

lemma fault_step_done:
  assumes "fault_step lib w ev w'" and "fault_runs lib w0 evs w" and "done_in (submitted_ids lib w0 evs) w"
  shows "done_in (submitted_ids lib w0 (evs @ [ev])) w'"
  using assms
proof (induction rule: fault_step.induct)
  case (start b lims t inp w plan res w' plan')
  from keepsD [OF keeps_done_Start, of _ "(w, plan)"] start submitted_ids_snoc show ?case
    by (metis done_in_mono fst_conv)
next
  case (resume b lims t raw fvs w plan res w' plan')
  from keepsD [OF keeps_done_Resume, of _ "(w, plan)"] resume submitted_ids_snoc show ?case
    by (metis done_in_mono fst_conv)
next
  case (submit b lims t inp w plan res w' plan')
  from hoareD [OF done_Submit _ submit.hyps] submit.prems(2)
  have "done_in (submitted_ids lib w0 evs \<union> completes (bw_driver w) inp res) w'" by simp
  then show ?case using submitted_ids_completes [OF submit.prems(1)] by (rule done_in_mono)
next
  case (page w d e)
  then have "done_in (submitted_ids lib w0 evs) (w\<lparr>bw_driver := d, bw_noteErr := e\<rparr>)" by (simp add: done_in_def)
  then show ?case using submitted_ids_snoc by (rule done_in_mono)
qed

lemma fault_runs_done: "fault_runs lib w evs w' \<Longrightarrow> done_in {} w \<Longrightarrow> done_in (submitted_ids lib w evs) w'"
proof (induction rule: fault_runs.induct)
  case (none w)
  then show ?case by (auto simp: done_in_def)
next
  case (more w evs w1 ev w2)
  from fault_step_done [OF more.hyps(2,1) more.IH [OF more.prems]] show ?case .
qed

section \<open>Properties\<close>

text \<open>
  C3. No session is ever COMPLETED behind the safety gate's back, whatever fails: after any
  history of calls in which the pages show and the human does anything and each call of the
  browser, the stores, the notifier or the random source may fail, with or without having
  taken effect, a session that is stored as COMPLETED was given to some \<open>Submit\<close> of the
  history whose gate had passed and in front of a page that confirmed the submission; and
  that call returned \<open>submitted\<close> or an error, never anything else.
\<close>

theorem completed_only_by_gated_submit:
  assumes "fault_runs lib (world_with d) evs w" and "fss_sessions (bw_sessions w) i = Some s"
    and "sess_State s = SessionCompleted"
  shows "\<exists>evs1 evs2 inp res err w1. evs = evs1 @ EvSubmit inp (res, err) # evs2
    \<and> fault_runs lib (world_with d) evs1 w1
    \<and> fd_SubmitState (bw_driver w1) = StateSubmitted \<and> fd_SubmitErr (bw_driver w1) = None
    \<and> gate_Passed (sub_GateResult inp) \<and> sess_ID (sub_Session inp) = i
    \<and> (err = None \<longrightarrow> rslt_Outcome res = ''submitted'')"
proof -
  have "done_in {} (world_with d)"
    by (simp add: done_in_def world_with_def newFakeSessionStore_def)
  from fault_runs_done [OF assms(1) this] assms(2,3) have "i \<in> submitted_ids lib (world_with d) evs"
    unfolding done_in_def by blast
  then show ?thesis unfolding submitted_ids_def confirms_def by blast
qed

theorem completed_only_by_gated_submit_witness:
  "\<forall>lib. \<exists>inp res w s. fault_runs lib (world_with (fake_driver [] StateSubmitted)) [EvSubmit inp (res, None)] w
    \<and> fss_sessions (bw_sessions w) (sess_ID (sub_Session inp)) = Some s \<and> sess_State s = SessionCompleted
    \<and> gate_Passed (sub_GateResult inp)"
  (is "\<forall>lib. ?P lib")
proof
  fix lib
  from sample_submit obtain inp res w s where run: "runner_runs lib (world_with (fake_driver [] StateSubmitted))
      [EvSubmit inp (res, None)] w" and s: "fss_sessions (bw_sessions w) (sess_ID s) = Some s" "sess_State s = SessionCompleted"
    by metis
  note r = runner_runs_fault [OF run]
  from completed_only_by_gated_submit [OF r s] have "gate_Passed (sub_GateResult inp) \<and> sess_ID (sub_Session inp) = sess_ID s"
    by (auto simp: Cons_eq_append_conv)
  with r s show "?P lib" by metis
qed

end
