(* ===== verification/RunnerLifecycle.thy ===== *)
theory RunnerLifecycle
  imports RunnerFaults
begin

text \<open>
  The session lifecycle of \<open>docs/BROWSER-RECOVERY.md\<close> as an abstract specification of the
  runner (\<open>internal/browser/runner.go\<close>).  The runner keeps to it in every history of calls,
  whatever fails on the way, with or without having taken effect, in which the caller keeps
  to it as well: it starts sessions under new ids and submits only stored sessions that are
  RUNNING or RESUMED.  The runner does not check the second of these; one section shows what
  a submission of a waiting session leads to.  Another shows how a fault can leave a session
  waiting for ever, and the last one where the runner leaves the document: a session whose
  page cannot be read on resume is FAILED and not handed back.
\<close>

section \<open>The lifecycle\<close>

text \<open>
  The arrows the document draws (the first four rules), and the moves its text describes: a
  resumed session goes on from its checkpoint, a page that has changed is handed back to
  the human, and every session that has not ended can expire.
\<close>

inductive life_edge :: "SessionState \<Rightarrow> SessionState \<Rightarrow> bool" where
  "life_edge SessionQueued SessionStarting"
| "life_edge SessionStarting SessionRunning"
| "life_edge SessionRunning s" if "s \<in> {SessionHumanReq, SessionCompleted, SessionFailed, SessionExpired}"
| "life_edge SessionHumanReq SessionResumed"
| "life_edge SessionResumed s" if "s \<in> {SessionRunning, SessionHumanReq}"
| "life_edge s SessionExpired" if "s \<in> {SessionQueued, SessionStarting, SessionHumanReq, SessionResumed}"

inductive_cases life_edge_ended:
  "life_edge SessionCompleted s" "life_edge SessionFailed s" "life_edge SessionExpired s"

abbreviation life_path :: "SessionState \<Rightarrow> SessionState \<Rightarrow> bool" where
  "life_path \<equiv> life_edge\<^sup>*\<^sup>*"

abbreviation ended :: "SessionState set" where
  "ended \<equiv> {SessionCompleted, SessionFailed, SessionExpired}"

lemma life_path_ended: "life_path a b \<Longrightarrow> a \<in> ended \<Longrightarrow> b = a"
  by (induction rule: rtranclp_induct) (auto elim: life_edge_ended)

text \<open>From which state to which each call can take a session; QUEUED stands for no session yet.\<close>

fun call_edges :: "runner_event \<Rightarrow> (SessionState \<times> SessionState) set" where
  "call_edges (EvStart inp res) =
     {SessionQueued} \<times> {SessionRunning, SessionHumanReq, SessionFailed, SessionExpired}"
| "call_edges (EvResume raw res) =
     {SessionHumanReq} \<times> {SessionResumed, SessionHumanReq, SessionFailed, SessionExpired}"
| "call_edges (EvSubmit inp res) =
     {SessionRunning, SessionResumed} \<times> {SessionRunning, SessionHumanReq, SessionCompleted, SessionExpired}
     \<union> {(SessionResumed, SessionResumed)}"
| "call_edges (EvPage d e) = {}"

declare call_edges.simps [simp del]

text \<open>
  Each of them is a path of the lifecycle, of which the call need not store every state, and
  none leaves a session that has ended.  One is set apart: \<open>Resume\<close> can take a session that
  waits for the human to FAILED.
\<close>

lemma call_edges_paths:
  assumes "(a, b) \<in> call_edges ev"
  shows "((a, b) = (SessionHumanReq, SessionFailed) \<and> (\<exists>raw res. ev = EvResume raw res) \<or> life_path a b)
    \<and> a \<notin> ended"
proof -
  have e: "life_edge SessionQueued SessionStarting" "life_edge SessionStarting SessionRunning"
    "life_edge SessionResumed SessionRunning" "life_edge SessionHumanReq SessionResumed"
    "life_edge SessionHumanReq SessionExpired"
    "s \<in> {SessionHumanReq, SessionCompleted, SessionFailed, SessionExpired} \<Longrightarrow> life_edge SessionRunning s" for s
    by (simp_all add: life_edge.intros)
  have run: "life_path SessionQueued SessionRunning" "life_path SessionResumed SessionRunning"
    using e(1-3) by (auto intro: converse_rtranclp_into_rtranclp)
  have two: "life_path a s" if "life_path a SessionRunning"
    "s \<in> {SessionRunning, SessionHumanReq, SessionCompleted, SessionFailed, SessionExpired}" for a s
    using that e(6) [of s] by (cases "s = SessionRunning") (auto intro: rtranclp.rtrancl_into_rtrancl)
  show ?thesis
    by (cases ev) (use assms run e(4,5) in \<open>auto simp: call_edges.simps intro: two\<close>)
qed

section \<open>What one call may do\<close>

text \<open>A token that can still be redeemed, before it expires.\<close>

definition open_token :: "browser_world \<Rightarrow> string \<Rightarrow> string \<Rightarrow> bool" where
  "open_token w h sid \<longleftrightarrow> (\<exists>e. bw_tokens w h = Some e \<and> \<not> ent_revoked e \<and> ent_sessionID e = sid)"

text \<open>
  A call about session \<open>i\<close> in the world \<open>w0\<close>: it changes no other session, it takes its own
  to a state of \<open>T\<close>, and it leaves no token of its own open while it runs.  When it ends,
  there may be one, and then the session waits for the human.
\<close>

definition life_moved :: "string \<Rightarrow> SessionState set \<Rightarrow> browser_world \<Rightarrow> browser_world \<Rightarrow> bool" where
  "life_moved i T w0 w \<longleftrightarrow> (\<forall>j. j \<noteq> i \<longrightarrow> sessions_of w j = sessions_of w0 j)
     \<and> (\<forall>s. sessions_of w i = Some s \<longrightarrow> sess_ID s = i \<and> sess_State s \<in> T)
     \<and> (sessions_of w0 i \<noteq> None \<longrightarrow> sessions_of w i \<noteq> None)"

definition life_mid :: "string \<Rightarrow> SessionState set \<Rightarrow> browser_world \<Rightarrow> browser_world \<Rightarrow> bool" where
  "life_mid i T w0 w \<longleftrightarrow> life_moved i T w0 w
     \<and> (\<forall>h sid. open_token w h sid \<longrightarrow> open_token w0 h sid \<and> sid \<noteq> i)"

definition life_end :: "string \<Rightarrow> SessionState set \<Rightarrow> browser_world \<Rightarrow> browser_world \<Rightarrow> bool" where
  "life_end i T w0 w \<longleftrightarrow> life_moved i T w0 w
     \<and> (\<forall>h sid. open_token w h sid \<longrightarrow> (if sid = i
          then map_option sess_State (sessions_of w i) = Some SessionHumanReq else open_token w0 h sid))
     \<and> (\<forall>h h'. open_token w h i \<and> open_token w h' i \<longrightarrow> h = h')"

lemma life_mid_end: "life_mid i T w0 w \<Longrightarrow> life_end i T w0 w"
  by (auto simp: life_mid_def life_end_def)

lemma life_core: "core w' = core w \<Longrightarrow> life_mid i T w0 w' \<longleftrightarrow> life_mid i T w0 w"
  by (simp add: life_mid_def life_moved_def open_token_def core_def)

lemma keeps_life:
  assumes "leaves (\<lambda>v. core (fst v)) m"
  shows "keeps (\<lambda>v. life_mid i T w0 (fst v)) m"
  unfolding keeps_hoare by (rule hoareI) (metis leavesD [OF assms] life_core)

lemma life_save:
  assumes "sess_ID s = i" and "sess_State s \<in> T"
  shows "hoare (\<lambda>v. life_mid i T w0 (fst v)) (saveSession (test_faulty lims t) s)
    (\<lambda>res v. life_mid i T w0 (fst v)
       \<and> (res = (s, None) \<and> sessions_of (fst v) (sess_ID s) = Some s \<or> (\<exists>e. res = (zeroSession, Some e))))"
proof (rule hoareI)
  fix v res v'
  assume v: "life_mid i T w0 (fst v)" and run: "run_state (saveSession (test_faulty lims t) s) v = (res, v')"
  have ok: "life_mid i T w0 w' \<and> sessions_of w' (sess_ID s) = Some s \<and> res' = (s, None)"
    if "run_state (saveSession (test_runner lims t) s) (fst v) = (res', w')" for res' w'
  proof -
    from test_save [OF that] have res: "res' = (s, None)"
      and sess: "sessions_of w' = (sessions_of (fst v))(sess_ID s \<mapsto> s)" and toks: "bw_tokens w' = bw_tokens (fst v)"
      by simp_all
    from v assms have "life_moved i T w0 w'" by (simp add: life_mid_def life_moved_def sess)
    with v res show ?thesis by (simp add: life_mid_def open_token_def toks sess)
  qed
  from faulty_save_cases [OF run] v ok
  show "life_mid i T w0 (fst v')
    \<and> (res = (s, None) \<and> sessions_of (fst v') (sess_ID s) = Some s \<or> (\<exists>e. res = (zeroSession, Some e)))"
    by metis
qed

text \<open>A token is saved for the session in hand, or nothing happens.\<close>

lemma life_token:
  assumes "sess_ID s = i" and "sess_State s = SessionHumanReq"
  shows "hoare (\<lambda>v. life_mid i T w0 (fst v) \<and> sessions_of (fst v) (sess_ID s) = Some s)
    (or_fail unavailable (SaveTokenHash (run_Tokens (test_runner lims t)) h (sess_ID s) u))
    (\<lambda>_ v. life_end i T w0 (fst v))"
proof (rule hoare_or_fail)
  show "hoare (\<lambda>w. life_mid i T w0 w \<and> sessions_of w (sess_ID s) = Some s)
      (SaveTokenHash (run_Tokens (test_runner lims t)) h (sess_ID s) u) (\<lambda>_. life_end i T w0)"
  proof (rule hoareI)
    fix w err w'
    assume w: "life_mid i T w0 w \<and> sessions_of w (sess_ID s) = Some s"
      and run: "run_state (SaveTokenHash (run_Tokens (test_runner lims t)) h (sess_ID s) u) w = (err, w')"
    from run have same: "sessions_of w' = sessions_of w"
      and toks: "open_token w' h' sid \<longleftrightarrow> (if h' = h then sid = i else open_token w h' sid)" for h' sid
      using assms(1) by (auto simp: open_token_def test_runner_simps on_tokens_def fakeTokenStore_ops_def)
    from w same have "life_moved i T w0 w'" by (simp add: life_mid_def life_moved_def)
    moreover from w have "\<not> open_token w h' i" for h' by (auto simp: life_mid_def)
    ultimately show "life_end i T w0 w'"
      using w assms same by (auto simp: life_end_def life_mid_def toks split: if_splits)
  qed
qed (auto intro: life_mid_end)

text \<open>What happens to the message to the human changes neither sessions nor tokens.\<close>

lemma life_notify:
  "keeps (\<lambda>v. life_end i T w0 (fst v)) (or_fail e (NotifyHumanRequired fakeNotifier_ops a c d u))"
proof (rule keeps_or_fail)
  have parts: "bw_sessions (w\<lparr>bw_notes := n\<rparr>) = bw_sessions w" "bw_tokens (w\<lparr>bw_notes := n\<rparr>) = bw_tokens w"
    for w :: browser_world and n by simp_all
  have "life_end i T w0 (w\<lparr>bw_notes := n\<rparr>) \<longleftrightarrow> life_end i T w0 w" for w n
    by (simp only: life_end_def life_moved_def open_token_def parts)
  then show "keeps (life_end i T w0) (NotifyHumanRequired fakeNotifier_ops a c d u)"
    by (simp add: keeps_def fakeNotifier_ops_def)
qed

lemma life_issue:
  assumes "sess_ID s = i" and "sess_State s = SessionHumanReq"
  shows "hoare (\<lambda>v. life_mid i T w0 (fst v) \<and> sessions_of (fst v) (sess_ID s) = Some s)
    (issue_recovery lib (faulty_bytes b) (test_faulty lims t) s reason) (\<lambda>_ v. life_end i T w0 (fst v))"
proof -
  let ?P = "\<lambda>v. life_mid i T w0 (fst v) \<and> sessions_of (fst v) (sess_ID s) = Some s"
  have core: "hoare ?P m (\<lambda>_. ?P)" if "leaves (\<lambda>v. core (fst v)) m" for m :: "(browser_world \<times> fault list, 'a) state"
  proof (rule hoareI)
    fix v x v' assume v: "?P v" and run: "run_state m v = (x, v')"
    from leavesD [OF that run] have c: "core (fst v') = core (fst v)" .
    then have "sessions_of (fst v') = sessions_of (fst v)" by (simp add: core_def)
    with v life_core [OF c] show "?P v'" by metis
  qed
  have now: "leaves (\<lambda>v. core (fst v)) (run_Now (test_faulty lims t))"
    by (simp add: core_left_faulty)
  have new: "leaves (\<lambda>v. core (fst v)) (NewRecoveryToken lib (faulty_bytes b) k u ttl)" for k u ttl
    unfolding NewRecoveryToken_def faulty_rand_def Let_def by (intro leaves_rules core_left_faulty)
  have mid: "hoare ?P (ret x) (\<lambda>_ v. life_end i T w0 (fst v))" for x
    by (auto simp: hoare_def intro: life_mid_end)
  have finish: "hoare (\<lambda>v. life_end i T w0 (fst v)) (ret x) (\<lambda>_ v. life_end i T w0 (fst v))" for x
    by (simp add: hoare_def)
  have notifier: "run_Notifier (test_faulty lims t)
      = Some \<lparr>NotifyHumanRequired = (\<lambda>s a reason url. or_fail unavailable (NotifyHumanRequired fakeNotifier_ops s a reason url))\<rparr>"
    by (simp add: faulty_def test_runner_simps)
  show ?thesis
    unfolding issue_recovery_def notifier option.case Let_def faulty_simps(12) Notifier.select_convs
    by (intro hoare_bind [OF core [OF now]] hoare_bind [OF core [OF new]] hoare_sum mid
          hoare_bind [OF life_token [OF assms]] hoare_option hoare_bind [OF life_notify [unfolded keeps_hoare]] finish)
qed

text \<open>The session in hand may be any of \<open>T\<close>, as long as \<open>T\<close> has the ways out that the call can take.\<close>

interpretation life: runner_ends "test_faulty lims t" lib "faulty_bytes b"
    "\<lambda>v. life_mid i T w0 (fst v)" "\<lambda>v. life_end i T w0 (fst v)"
    "\<lambda>s v. sessions_of (fst v) (sess_ID s) = Some s"
    "\<lambda>s. sess_ID s = i \<and> sess_State s \<in> T \<and> {SessionExpired, SessionHumanReq} \<subseteq> T"
    "\<lambda>s. sess_ID s = i \<and> sess_State s \<in> T"
  for lims t lib b i T w0
  by unfold_locales (auto simp: life_mid_end life_save life_issue keeps_life core_left_faulty)

interpretation life_fails: runner_fails "test_faulty lims t" lib "faulty_bytes b"
    "\<lambda>v. life_mid i T w0 (fst v)" "\<lambda>v. life_end i T w0 (fst v)"
    "\<lambda>s v. sessions_of (fst v) (sess_ID s) = Some s"
    "\<lambda>s. sess_ID s = i \<and> sess_State s \<in> T \<and> {SessionFailed, SessionExpired, SessionHumanReq} \<subseteq> T"
    "\<lambda>s. sess_ID s = i \<and> sess_State s \<in> T"
  for lims t lib b i T w0
  by unfold_locales (auto simp: life_mid_end life_save life_issue keeps_life core_left_faulty)

section \<open>The calls\<close>

text \<open>
  Between calls: every session is stored under its own id, an open token belongs to a
  session that waits for the human, and no session has two.
\<close>

definition life_ok :: "browser_world \<Rightarrow> bool" where
  "life_ok w \<longleftrightarrow> (\<forall>i s. sessions_of w i = Some s \<longrightarrow> sess_ID s = i)
     \<and> (\<forall>h sid. open_token w h sid \<longrightarrow> map_option sess_State (sessions_of w sid) = Some SessionHumanReq)
     \<and> (\<forall>h h' sid. open_token w h sid \<and> open_token w h' sid \<longrightarrow> h = h')"

lemma life_mid_refl:
  assumes "life_ok w" and "\<forall>s. sessions_of w i = Some s \<longrightarrow> sess_State s \<in> T - {SessionHumanReq}"
  shows "life_mid i T w w"
proof -
  have "map_option sess_State (sessions_of w i) \<noteq> Some SessionHumanReq" using assms(2) by auto
  with assms(1) have "\<not> open_token w h i" for h unfolding life_ok_def by blast
  moreover have "life_moved i T w w"
    using assms by (simp add: life_moved_def life_ok_def)
  ultimately show ?thesis unfolding life_mid_def by blast
qed

lemma life_end_ok:
  assumes "life_ok w0" and "life_end i T w0 w"
  shows "life_ok w"
proof -
  from assms(2) have other: "j \<noteq> i \<Longrightarrow> sessions_of w j = sessions_of w0 j"
    and own: "sessions_of w i = Some s \<Longrightarrow> sess_ID s = i" for j s
    by (auto simp: life_end_def life_moved_def)
  from assms(2) have open_i: "open_token w h i \<Longrightarrow> map_option sess_State (sessions_of w i) = Some SessionHumanReq"
    and open_j: "open_token w h j \<Longrightarrow> j \<noteq> i \<Longrightarrow> open_token w0 h j"
    and one: "open_token w h i \<Longrightarrow> open_token w h' i \<Longrightarrow> h = h'" for h h' j
    unfolding life_end_def by (auto split: if_splits)
  from assms(1) have ok: "sessions_of w0 j = Some s \<Longrightarrow> sess_ID s = j"
    "open_token w0 h sid \<Longrightarrow> map_option sess_State (sessions_of w0 sid) = Some SessionHumanReq"
    "open_token w0 h sid \<Longrightarrow> open_token w0 h' sid \<Longrightarrow> h = h'" for j s h h' sid
    unfolding life_ok_def by blast+
  show ?thesis
    unfolding life_ok_def
  proof (intro conjI allI impI)
    show "sess_ID s = j" if "sessions_of w j = Some s" for j s
      using that own ok(1) other by (cases "j = i") auto
    show "map_option sess_State (sessions_of w sid) = Some SessionHumanReq" if "open_token w h sid" for h sid
      using that open_i ok(2) [OF open_j] other by (cases "sid = i") auto
    show "h = h'" if "open_token w h sid \<and> open_token w h' sid" for h h' sid
      using that one ok(3) [OF open_j open_j] by (cases "sid = i") auto
  qed
qed

abbreviation start_targets :: "SessionState set" where
  "start_targets \<equiv> {SessionRunning, SessionHumanReq, SessionFailed, SessionExpired}"

abbreviation resume_targets :: "SessionState set" where
  "resume_targets \<equiv> {SessionHumanReq, SessionResumed, SessionFailed, SessionExpired}"

abbreviation submit_targets :: "SessionState \<Rightarrow> SessionState set" where
  "submit_targets a \<equiv> {a, SessionRunning, SessionHumanReq, SessionCompleted, SessionExpired}"

lemma Start_life:
  assumes "life_ok w" and "sessions_of w i = None" and "fst (run_state test_newID w) = i"
  shows "hoare (\<lambda>v. fst v = w) (run_Start lib (faulty_bytes b) (test_faulty lims t) inp)
    (\<lambda>_ v. life_end i start_targets w (fst v))"
proof -
  let ?r = "test_faulty lims t" and ?I = "\<lambda>v. life_mid i start_targets w (fst v)" and ?w = "\<lambda>v. fst v = w"
  have I: "life_mid i start_targets w w" using assms(1,2) by (intro life_mid_refl) simp_all
  have now: "hoare ?w (run_Now ?r) (\<lambda>_. ?w)"
    by (simp add: hoare_def test_runner_simps split: prod.splits)
  then have day: "hoare ?w (run_startOfToday ?r) (\<lambda>_. ?w)"
    unfolding run_startOfToday_def by (rule hoare_bind) (simp add: hoare_def)
  have count: "hoare ?w (CountStartedSince (run_Sessions ?r) d) (\<lambda>_. ?w)" for d
    unfolding faulty_simps
    by (rule hoare_or_fail [where P = "\<lambda>x. x = w"])
       (simp_all add: hoare_def test_runner_simps on_sessions_def fakeSessionStore_ops_def)
  have new: "hoare ?w (run_NewID ?r) (\<lambda>x v. x = i \<and> ?I v)"
    using I assms(3) life_core [of "snd (run_state test_newID w)" w]
    by (auto simp: hoare_def test_runner_simps test_newID_def core_def split: prod.splits)
  have refused: "hoare ?w (ret x) (\<lambda>_ v. life_end i start_targets w (fst v))" for x
    using I by (auto simp: hoare_def life_mid_end)
  have launch: "keeps ?I (drv_Launch (run_Driver ?r))"
    by (simp add: keeps_life core_left_faulty)
  show ?thesis
    unfolding run_Start_def Let_def
    by (intro hoare_bind [OF day] hoare_bind [OF count] hoare_bind [OF now] hoare_bind [OF new] hoare_pure
          hoare_prod hoare_option hoare_if refused life.then_ends [OF launch] life.save_ends)
       (auto intro!: life.ret_ends life_fails.navigate_ends)
qed

lemma Submit_life:
  assumes "life_ok w" and "sessions_of w (sess_ID (sub_Session inp)) = Some (sub_Session inp)"
    and "sess_State (sub_Session inp) \<in> {SessionRunning, SessionResumed}"
  shows "hoare (\<lambda>v. fst v = w) (run_Submit lib (faulty_bytes b) (test_faulty lims t) inp)
    (\<lambda>_ v. life_end (sess_ID (sub_Session inp)) (submit_targets (sess_State (sub_Session inp))) w (fst v))"
proof -
  let ?i = "sess_ID (sub_Session inp)" and ?T = "submit_targets (sess_State (sub_Session inp))"
  have I: "life_mid ?i ?T w w" using assms by (intro life_mid_refl) auto
  have "hoare (\<lambda>v. life_mid ?i ?T w (fst v)) (run_Submit lib (faulty_bytes b) (test_faulty lims t) inp)
      (\<lambda>_ v. life_end ?i ?T w (fst v))"
    by (rule life.submit_ends) simp_all
  then show ?thesis by (rule hoare_pre) (use I in simp)
qed

lemma Resume_life:
  assumes ok: "life_ok (fst v)"
    and run: "run_state (run_Resume lib (faulty_bytes b) (test_faulty lims t) raw fvs) v = (res, v')"
  shows "core (fst v') = core (fst v)
    \<or> (\<exists>i h. life_end i resume_targets (fst v) (fst v') \<and> open_token (fst v) h i)"
proof -
  let ?r = "test_faulty lims t" and ?h = "HashRecoveryToken lib raw" and ?w = "fst v"
  have now: "run_state (run_Now ?r) v = (t, v)"
    by (cases v) (simp add: test_runner_simps)
  obtain red v1 where red: "run_state (Redeem lib (run_Tokens ?r) raw t) v = (red, v1)" by (metis prod.collapse)
  from faulty_Redeem [OF red] consider (nothing) x where "red = Inl x" "core (fst v1) = core ?w"
    | (revoked) e where "red = Inr (ent_sessionID e) \<or> (\<exists>x. red = Inl x)"
      "bw_tokens ?w ?h = Some e" "\<not> ent_revoked e" "sessions_of (fst v1) = sessions_of ?w"
      "bw_tokens (fst v1) = (bw_tokens ?w)(?h \<mapsto> e\<lparr>ent_revoked := True\<rparr>)" by blast
  then show ?thesis
  proof cases
    case nothing
    with run now red show ?thesis by (auto simp: run_Resume_loaded)
  next
    case (revoked e)
    note e = revoked(2,3) and sess = revoked(4) and toks = revoked(5)
    let ?i = "ent_sessionID e"
    from e have op: "open_token ?w ?h ?i" by (simp add: open_token_def)
    with ok have h: "map_option sess_State (sessions_of ?w ?i) = Some SessionHumanReq"
      unfolding life_ok_def by blast
    then obtain s where s: "sessions_of ?w ?i = Some s" "sess_State s = SessionHumanReq" by auto
    with ok have id: "sess_ID s = ?i" by (simp add: life_ok_def)
    have toks1: "open_token (fst v1) h sid \<Longrightarrow> open_token ?w h sid \<and> h \<noteq> ?h" for h sid
      using e by (auto simp: open_token_def toks split: if_splits)
    have "sid \<noteq> ?i" if "open_token (fst v1) h sid" for h sid
      using toks1 [OF that] op ok unfolding life_ok_def by blast
    with toks1 have I: "life_mid ?i resume_targets ?w (fst v1)"
      using s id unfolding life_mid_def life_moved_def sess by simp
    have "life_end ?i resume_targets ?w (fst v')"
    proof (cases red)
      case (Inl x)
      with run now red have "v' = v1" by (simp add: run_Resume_loaded)
      with life_mid_end [OF I] show ?thesis by simp
    next
      case (Inr i)
      with revoked(1) have i: "red = Inr ?i" by simp
      obtain s' gerr v2 where g: "run_state (GetSession (run_Sessions ?r) ?i) v1 = ((s', gerr), v2)" by (metis prod.collapse)
      from or_fail_cases [OF g [unfolded faulty_simps]] s sess
      have g1: "fst v2 = fst v1" and g2: "gerr = None \<Longrightarrow> s' = s"
        by (auto simp: test_runner_simps on_sessions_def fakeSessionStore_ops_def fss_get_def)
      show ?thesis
      proof (cases gerr)
        case (Some x)
        with run now red i g have "v' = v2" by (simp add: run_Resume_loaded)
        with g1 life_mid_end [OF I] show ?thesis by simp
      next
        case None
        with run now red i g g2 have "run_state (resume_loaded lib (faulty_bytes b) ?r fvs s) v2 = (res, v')"
          by (simp add: run_Resume_loaded)
        moreover have "hoare (\<lambda>v. life_mid ?i resume_targets ?w (fst v)) (resume_loaded lib (faulty_bytes b) ?r fvs s)
            (\<lambda>_ v. life_end ?i resume_targets ?w (fst v))"
          by (rule life_fails.resume_ends) (use s id in auto)
        ultimately show ?thesis using I g1 by (metis hoareD)
      qed
    qed
    with op show ?thesis by blast
  qed
qed

section \<open>Histories of calls that keep to the lifecycle\<close>

text \<open>
  What the caller has to see to: a new session gets an id that is not taken, and what is
  submitted is a session as it is stored, while it is RUNNING or RESUMED.  Any token may be
  resumed at any time.
\<close>

definition orderly :: "browser_world \<Rightarrow> runner_event \<Rightarrow> bool" where
  "orderly w ev \<longleftrightarrow>
     (case ev of
        EvStart inp res \<Rightarrow> sessions_of w (fst (run_state test_newID w)) = None
      | EvSubmit inp res \<Rightarrow> sessions_of w (sess_ID (sub_Session inp)) = Some (sub_Session inp)
          \<and> sess_State (sub_Session inp) \<in> {SessionRunning, SessionResumed}
      | _ \<Rightarrow> True)"

inductive orderly_runs :: "golib \<Rightarrow> browser_world \<Rightarrow> runner_event list \<Rightarrow> browser_world \<Rightarrow> bool" for lib where
  none: "orderly_runs lib w [] w"
| more: "orderly_runs lib w evs w1 \<Longrightarrow> fault_step lib w1 ev w2 \<Longrightarrow> orderly w1 ev \<Longrightarrow>
    orderly_runs lib w (evs @ [ev]) w2"

text \<open>
  The abstract step of a call: at most one session, new or old, moves as the call allows.
\<close>

abbreviation state_in :: "(string \<rightharpoonup> Session) \<Rightarrow> string \<Rightarrow> SessionState" where
  "state_in m i \<equiv> (case m i of None \<Rightarrow> SessionQueued | Some s \<Rightarrow> sess_State s)"

definition life_step :: "runner_event \<Rightarrow> (string \<rightharpoonup> Session) \<Rightarrow> (string \<rightharpoonup> Session) \<Rightarrow> bool" where
  "life_step ev m m' \<longleftrightarrow> m' = m \<or> (\<exists>i s'. m' = m(i \<mapsto> s') \<and> (state_in m i, sess_State s') \<in> call_edges ev)"

lemma life_step_core: "core w' = core w \<Longrightarrow> life_step ev (sessions_of w) (sessions_of w')"
  by (simp add: core_def life_step_def)

lemma life_ok_core:
  assumes "core w' = core w" and "life_ok w"
  shows "life_ok w'"
proof -
  from assms(1) have "open_token w' = open_token w" and "sessions_of w' = sessions_of w"
    by (simp_all add: core_def open_token_def fun_eq_iff)
  with assms(2) show ?thesis by (simp add: life_ok_def)
qed

lemma life_end_step:
  assumes "life_end i T w w'" and "{state_in (sessions_of w) i} \<times> T \<subseteq> call_edges ev"
  shows "life_step ev (sessions_of w) (sessions_of w')"
proof (cases "sessions_of w' i")
  case None
  with assms(1) have "sessions_of w' j = sessions_of w j" for j
    by (cases "j = i") (auto simp: life_end_def life_moved_def)
  then show ?thesis by (simp add: life_step_def fun_eq_iff)
next
  case (Some s')
  with assms(1) have eq: "sessions_of w' = (sessions_of w)(i \<mapsto> s')" and "sess_State s' \<in> T"
    by (auto simp: life_end_def life_moved_def fun_eq_iff)
  with assms(2) show ?thesis unfolding life_step_def eq by blast
qed

text \<open>
  What an orderly call is about: nothing, or one session that moves as the call allows; a
  session that waits for the human only by one of its open tokens.
\<close>

lemma orderly_about:
  assumes "fault_step lib w ev w'" and "orderly w ev" and ok: "life_ok w"
  shows "core w' = core w \<or> (\<exists>i T. life_end i T w w' \<and> {state_in (sessions_of w) i} \<times> T \<subseteq> call_edges ev
    \<and> (state_in (sessions_of w) i = SessionHumanReq \<longrightarrow> (\<exists>h. open_token w h i)))"
  using assms(1)
proof cases
  case (start b lims t inp plan res plan')
  let ?i = "fst (run_state test_newID w)"
  from assms(2) start have free: "sessions_of w ?i = None" by (simp add: orderly_def)
  from hoareD [OF Start_life [OF ok free refl] _ start(2)] have "life_end ?i start_targets w w'" by simp
  with free start(1) show ?thesis
    by (intro disjI2 exI [of _ ?i] exI [of _ start_targets]) (auto simp: call_edges.simps)
next
  case (resume b lims t raw fvs plan res plan')
  from Resume_life [of "(w, plan)", OF _ resume(2)] ok
  have "core w' = core w \<or> (\<exists>i h. life_end i resume_targets w w' \<and> open_token w h i)" by simp
  then show ?thesis
  proof (elim disjE exE conjE)
    fix i h assume F: "life_end i resume_targets w w'" and op: "open_token w h i"
    with ok have "map_option sess_State (sessions_of w i) = Some SessionHumanReq"
      unfolding life_ok_def by blast
    then have "state_in (sessions_of w) i = SessionHumanReq" by auto
    with F op resume(1) show ?thesis
      by (intro disjI2 exI [of _ i] exI [of _ resume_targets]) (auto simp: call_edges.simps)
  qed simp
next
  case (submit b lims t inp plan res plan')
  let ?s = "sub_Session inp"
  from assms(2) submit have s: "sessions_of w (sess_ID ?s) = Some ?s" "sess_State ?s \<in> {SessionRunning, SessionResumed}"
    by (simp_all add: orderly_def)
  from hoareD [OF Submit_life [OF ok s] _ submit(2)]
  have "life_end (sess_ID ?s) (submit_targets (sess_State ?s)) w w'" by simp
  with s submit(1) show ?thesis
    by (intro disjI2 exI [of _ "sess_ID ?s"] exI [of _ "submit_targets (sess_State ?s)"])
       (auto simp: call_edges.simps)
next
  case (page d e)
  then show ?thesis by (simp add: core_def)
qed

lemma orderly_step:
  assumes "fault_step lib w ev w'" and "orderly w ev" and "life_ok w"
  shows "life_ok w' \<and> life_step ev (sessions_of w) (sessions_of w')"
  using orderly_about [OF assms]
proof (elim disjE exE conjE)
  assume c: "core w' = core w"
  with life_ok_core [OF c] life_step_core [OF c] assms(3) show ?thesis by blast
next
  fix i T assume F: "life_end i T w w'" and "{state_in (sessions_of w) i} \<times> T \<subseteq> call_edges ev"
  with life_end_ok [OF assms(3) F] life_end_step [OF F] show ?thesis by blast
qed

lemma world_with_life: "life_ok (world_with d)"
  by (simp add: life_ok_def open_token_def world_with_def newFakeSessionStore_def)

lemma orderly_life: "orderly_runs lib w evs w' \<Longrightarrow> life_ok w \<Longrightarrow> life_ok w'"
  by (induction rule: orderly_runs.induct) (auto dest: orderly_step)

lemma life_step_ended: "life_step ev m m' \<Longrightarrow> m i = Some s \<Longrightarrow> sess_State s \<in> ended \<Longrightarrow> m' i = Some s"
  by (cases ev) (auto simp: life_step_def call_edges.simps)

lemma orderly_ended:
  assumes "orderly_runs lib w evs w'" and "life_ok w" and "sessions_of w i = Some s" and "sess_State s \<in> ended"
  shows "sessions_of w' i = Some s"
  using assms
proof (induction rule: orderly_runs.induct)
  case (none w)
  then show ?case by simp
next
  case (more w evs w1 ev w2)
  have "life_step ev (sessions_of w1) (sessions_of w2)"
    by (rule orderly_step [OF more.hyps(2,3) orderly_life [OF more.hyps(1) more.prems(1)], THEN conjunct2])
  with life_step_ended [of ev "sessions_of w1" "sessions_of w2" i s] more.IH [OF more.prems] more.prems(3)
  show ?case by simp
qed

section \<open>A completed session that is reopened\<close>

text \<open>
  A submission that could not be confirmed is handed to the human; it is then submitted
  again, which the runner does not refuse, and confirmed.  The recovery link of the first
  attempt is still open: using it takes the COMPLETED session back to RESUMED and fills the
  form once more.
\<close>

abbreviation first_submit :: SubmitInput where
  "first_submit \<equiv> \<lparr>sub_Session = zeroSession, sub_GateResult = \<lparr>gate_Passed = True, gate_Reasons = []\<rparr>,
     sub_SubmitSelector = ''#go''\<rparr>"

lemma unconfirmed_submit:
  "\<exists>s w. run_state (run_Submit lib (test_rand b) (test_runner sample_limits zeroTime) first_submit)
        (world_with (fake_driver [] StateNormal)) = ((\<lparr>rslt_Session = s, rslt_Outcome = ''human_required''\<rparr>, None), w)
     \<and> sess_ID s = [] \<and> sess_ExpiresAt s = zeroTime \<and> sess_State s = SessionHumanReq \<and> sessions_of w [] = Some s
     \<and> bw_tokens w = [HashRecoveryToken lib (b64_RawURL (take 32 b)) \<mapsto>
         \<lparr>ent_sessionID = [], ent_expiresAt = time_Add zeroTime (30 * time_Minute), ent_revoked = False\<rparr>]
     \<and> bw_noteErr w = None"
  by (simp add: run_Submit_def run_isExpired_def IsExpired_def saveSession_def pauseForHuman_def take_screenshot_def
      issue_recovery_def NewRecoveryToken_def test_rand_def recoveryTokenBytes_def test_runner_simps on_driver_def
      on_sessions_def on_tokens_def fakeSessionStore_ops_def fakeTokenStore_ops_def fakeNotifier_ops_def
      fakeScreenshotStore_Save_def FakeDriver_Submit_def FakeDriver_Screenshot_def FakeDriver_CurrentURL_def
      world_with_def newFakeSessionStore_def fake_driver_def zeroSession_def time_defs Let_def)

abbreviation again :: "Session \<Rightarrow> SubmitInput" where
  "again s \<equiv> \<lparr>sub_Session = s, sub_GateResult = \<lparr>gate_Passed = True, gate_Reasons = []\<rparr>, sub_SubmitSelector = ''#go''\<rparr>"

lemma confirmed_submit:
  assumes "sess_ExpiresAt s = zeroTime"
  shows "\<exists>w'. run_state (run_Submit lib (test_rand b) (test_runner sample_limits zeroTime) (again s))
        (w\<lparr>bw_driver := fake_driver [] StateSubmitted, bw_noteErr := None\<rparr>)
        = ((\<lparr>rslt_Session = s\<lparr>sess_State := SessionCompleted\<rparr>, rslt_Outcome = ''submitted''\<rparr>, None), w')
     \<and> sessions_of w' (sess_ID s) = Some (s\<lparr>sess_State := SessionCompleted\<rparr>) \<and> bw_tokens w' = bw_tokens w"
  using assms
  by (simp add: run_Submit_def run_isExpired_def IsExpired_def saveSession_def test_runner_simps on_driver_def
      on_sessions_def fakeSessionStore_ops_def FakeDriver_Submit_def fake_driver_def time_defs Let_def)

theorem completed_session_reopened:
  "\<exists>r1 r2 r3 raw w1 w2.
     runner_runs lib (world_with (fake_driver [] StateNormal))
       [EvSubmit first_submit (r1, None), EvPage (fake_driver [] StateSubmitted) None,
        EvSubmit (again (rslt_Session r1)) (r2, None)] w1
     \<and> sess_State (rslt_Session r1) = SessionHumanReq \<and> rslt_Outcome r2 = ''submitted''
     \<and> map_option sess_State (sessions_of w1 (sess_ID (rslt_Session r1))) = Some SessionCompleted
     \<and> runner_runs lib w1 [EvPage (fake_driver [StateNormal] StateNormal) None, EvResume raw (r3, None)] w2
     \<and> map_option sess_State (sessions_of w2 (sess_ID (rslt_Session r1))) = Some SessionResumed"
proof -
  let ?b = "''0123456789abcdef0123456789abcdef''" and ?w = "world_with (fake_driver [] StateNormal)"
  let ?raw = "b64_RawURL (take 32 ?b)" and ?page = "\<lambda>d w. w\<lparr>bw_driver := d, bw_noteErr := None\<rparr>"
  from unconfirmed_submit [of lib ?b] obtain s w where
    1: "run_state (run_Submit lib (test_rand ?b) (test_runner sample_limits zeroTime) first_submit) ?w
      = ((\<lparr>rslt_Session = s, rslt_Outcome = ''human_required''\<rparr>, None), w)"
    and s: "sess_ID s = []" "sess_ExpiresAt s = zeroTime" "sess_State s = SessionHumanReq"
    and tok: "bw_tokens w = [HashRecoveryToken lib ?raw \<mapsto>
      \<lparr>ent_sessionID = [], ent_expiresAt = time_Add zeroTime (30 * time_Minute), ent_revoked = False\<rparr>]"
    by blast
  let ?s2 = "s\<lparr>sess_State := SessionCompleted\<rparr>"
  from confirmed_submit [OF s(2), of lib ?b w] obtain w1 where
    2: "run_state (run_Submit lib (test_rand ?b) (test_runner sample_limits zeroTime) (again s))
      (?page (fake_driver [] StateSubmitted) w) = ((\<lparr>rslt_Session = ?s2, rslt_Outcome = ''submitted''\<rparr>, None), w1)"
    and w1: "sessions_of w1 [] = Some ?s2" "bw_tokens w1 = bw_tokens w" using s(1) by auto
  let ?d = "fake_driver [StateNormal] StateNormal"
  from test_resume [of "?page ?d w1" lib ?raw _ zeroTime ?s2 ?b sample_limits "[]"] tok w1 s(2)
  obtain s3 w2 where
    3: "run_state (run_Resume lib (test_rand ?b) (test_runner sample_limits zeroTime) ?raw []) (?page ?d w1)
      = ((\<lparr>rslt_Session = s3, rslt_Outcome = ''ready_for_review''\<rparr>, None), w2)"
    and s3: "sess_ID s3 = sess_ID ?s2" "sess_State s3 = SessionResumed"
    by (auto simp: fss_get_def time_defs time_Minute_def IsExpired_def fake_driver_def)
  have "fss_get (bw_sessions w2) (sess_ID s3) = s3"
    using hoareD [OF test_run.hoare_Resume TrueI 3]
    by (simp add: test_run.result_ok_def test_run.persisted_def bw_session_def)
  with s3 s(1) have stored: "map_option sess_State (sessions_of w2 []) = Some SessionResumed"
    by (auto simp: fss_get_def zeroSession_def split: option.splits)
  have "runner_runs lib ?w [EvSubmit first_submit (\<lparr>rslt_Session = s, rslt_Outcome = ''human_required''\<rparr>, None)] w"
    using runner_runs.more [OF runner_runs.none runner_step.submit [OF 1]] by simp
  from runner_runs.more [OF runner_runs.more [OF this runner_step.page] runner_step.submit [OF 2]]
  have r: "runner_runs lib ?w [EvSubmit first_submit (\<lparr>rslt_Session = s, rslt_Outcome = ''human_required''\<rparr>, None),
      EvPage (fake_driver [] StateSubmitted) None, EvSubmit (again s) (\<lparr>rslt_Session = ?s2, rslt_Outcome = ''submitted''\<rparr>, None)] w1"
    by simp
  from runner_runs.more [OF runner_runs.more [OF runner_runs.none runner_step.page] runner_step.resume [OF 3]]
  have r': "runner_runs lib w1 [EvPage ?d None, EvResume ?raw (\<lparr>rslt_Session = s3, rslt_Outcome = ''ready_for_review''\<rparr>, None)] w2"
    by simp
  show ?thesis
    by (rule exI [of _ "\<lparr>rslt_Session = s, rslt_Outcome = ''human_required''\<rparr>"],
        rule exI [of _ "\<lparr>rslt_Session = ?s2, rslt_Outcome = ''submitted''\<rparr>"],
        rule exI [of _ "\<lparr>rslt_Session = s3, rslt_Outcome = ''ready_for_review''\<rparr>"], rule exI [of _ ?raw],
        rule exI [of _ w1], rule exI [of _ w2])
       (use r r' s w1 stored in auto)
qed

section \<open>A handoff that is lost\<close>

text \<open>
  A session that waits for the human and has no open token is out of reach of every later
  call, whatever it is given.
\<close>

lemma waiting_step:
  assumes "fault_step lib w ev w'" and "orderly w ev" and "life_ok w"
    and s: "sessions_of w i = Some s" "sess_State s = SessionHumanReq" and no: "\<And>h. \<not> open_token w h i"
  shows "sessions_of w' i = Some s \<and> \<not> open_token w' h i"
  using orderly_about [OF assms(1-3)]
proof (elim disjE exE conjE)
  assume "core w' = core w"
  then have "sessions_of w' = sessions_of w" "open_token w' = open_token w"
    by (simp_all add: core_def open_token_def fun_eq_iff)
  with s no show ?thesis by simp
next
  fix j T assume F: "life_end j T w w'" and "state_in (sessions_of w) j = SessionHumanReq \<longrightarrow> (\<exists>h. open_token w h j)"
  with s no have "j \<noteq> i" by auto
  with F s(1) no show ?thesis unfolding life_end_def life_moved_def by metis
qed

lemma waiting_runs:
  assumes "orderly_runs lib w evs w'" and "life_ok w"
    and "sessions_of w i = Some s" "sess_State s = SessionHumanReq" and "\<And>h. \<not> open_token w h i"
  shows "sessions_of w' i = Some s \<and> (\<forall>h. \<not> open_token w' h i)"
  using assms
proof (induction rule: orderly_runs.induct)
  case (none w)
  then show ?case by simp
next
  case (more w evs w1 ev w2)
  from more.IH [OF more.prems] have w1: "sessions_of w1 i = Some s" "\<And>h. \<not> open_token w1 h i" by auto
  from waiting_step [OF more.hyps(2,3) orderly_life [OF more.hyps(1) more.prems(1)] w1(1) more.prems(3) w1(2)]
  show ?case by blast
qed

text \<open>
  That is what a fault in the wrong place leads to.  The session of \<open>first_submit\<close> waits for
  the human; the recovery link is used while the session store is down.  \<open>Resume\<close> revokes
  the token before it loads the session: it returns an error, the session goes on waiting,
  and its only token is spent.
\<close>

theorem resume_loses_handoff:
  "\<exists>r1 r2 raw w w'.
     fault_runs lib (world_with (fake_driver [] StateNormal)) [EvSubmit first_submit (r1, None)] w
     \<and> (\<exists>h. open_token w h (sess_ID (rslt_Session r1)))
     \<and> fault_step lib w (EvResume raw (zeroResult, r2)) w' \<and> r2 \<noteq> None
     \<and> sessions_of w' (sess_ID (rslt_Session r1)) = Some (rslt_Session r1)
     \<and> sess_State (rslt_Session r1) = SessionHumanReq
     \<and> (\<forall>h. \<not> open_token w' h (sess_ID (rslt_Session r1)))"
proof -
  let ?b = "''0123456789abcdef0123456789abcdef''" and ?w = "world_with (fake_driver [] StateNormal)"
  let ?raw = "b64_RawURL (take 32 ?b)"
  let ?h = "HashRecoveryToken lib ?raw"
  let ?e = "\<lparr>ent_sessionID = [], ent_expiresAt = time_Add zeroTime (30 * time_Minute), ent_revoked = False\<rparr>"
  from unconfirmed_submit [of lib ?b] obtain s w where
    1: "run_state (run_Submit lib (test_rand ?b) (test_runner sample_limits zeroTime) first_submit) ?w
      = ((\<lparr>rslt_Session = s, rslt_Outcome = ''human_required''\<rparr>, None), w)"
    and s: "sess_ID s = []" "sess_State s = SessionHumanReq" "sessions_of w [] = Some s"
    and toks: "bw_tokens w = [?h \<mapsto> ?e]"
    by blast
  let ?w' = "w\<lparr>bw_tokens := [?h \<mapsto> ?e\<lparr>ent_revoked := True\<rparr>]\<rparr>"
  have "\<exists>e. run_state (run_Resume lib (faulty_bytes ?b) (test_faulty sample_limits zeroTime) ?raw [])
      (w, [Works, Works, Refused]) = ((zeroResult, Some e), (?w', []))"
    using toks by (simp add: run_Resume_def Redeem_def or_fail_def test_runner_simps on_tokens_def
        fakeTokenStore_ops_def entry_live_def time_defs time_Minute_def Let_def)
  then obtain e where 2: "run_state (run_Resume lib (faulty_bytes ?b) (test_faulty sample_limits zeroTime) ?raw [])
      (w, [Works, Works, Refused]) = ((zeroResult, Some e), (?w', []))" by blast
  have "fault_runs lib ?w [EvSubmit first_submit (\<lparr>rslt_Session = s, rslt_Outcome = ''human_required''\<rparr>, None)] w"
    using fault_runs.more [OF fault_runs.none runner_step_fault [OF runner_step.submit [OF 1]]] by simp
  moreover have "open_token w ?h []" by (simp add: open_token_def toks)
  moreover have "\<not> open_token ?w' h []" for h by (simp add: open_token_def)
  ultimately show ?thesis
    using s fault_step.resume [OF 2]
    by (intro exI [of _ "\<lparr>rslt_Session = s, rslt_Outcome = ''human_required''\<rparr>"] exI [of _ "Some e"]
          exI [of _ ?raw] exI [of _ w] exI [of _ ?w']) auto
qed

section \<open>Properties\<close>

text \<open>
  C4. The runner keeps to the documented session lifecycle, for callers that start sessions
  under new ids and submit stored sessions that are RUNNING or RESUMED, whatever tokens are
  used, whatever fails and whatever the pages and the human do in between.  Each call changes
  at most one session, and only as \<open>call_edges\<close> lists for it.  Those are paths of the arrows
  of the document, with one exception: a \<open>Resume\<close> may take a session from HUMAN_REQUIRED to
  FAILED, which the document does not provide for (\<open>Resume_unverified_fails\<close>).  A token that
  can still be redeemed belongs to a session that waits for the human, and there is one for
  each at most; and a session that is COMPLETED, FAILED or EXPIRED is never touched again.
\<close>

theorem orderly_lifecycle:
  assumes "orderly_runs lib (world_with d) evs w"
  shows "(fault_step lib w ev w' \<and> orderly w ev \<longrightarrow> life_step ev (sessions_of w) (sessions_of w'))
    \<and> (\<forall>a b. (a, b) \<in> call_edges ev \<longrightarrow> life_path a b
        \<or> a = SessionHumanReq \<and> b = SessionFailed \<and> (\<exists>raw res. ev = EvResume raw res))
    \<and> (\<forall>h sid. open_token w h sid \<longrightarrow> map_option sess_State (sessions_of w sid) = Some SessionHumanReq
        \<and> (\<forall>h'. open_token w h' sid \<longrightarrow> h' = h))
    \<and> (\<forall>i s evs' w''. sessions_of w i = Some s \<and> sess_State s \<in> {SessionCompleted, SessionFailed, SessionExpired}
        \<and> orderly_runs lib w evs' w'' \<longrightarrow> sessions_of w'' i = Some s)"
proof (intro conjI)
  have ok: "life_ok w" by (rule orderly_life [OF assms world_with_life])
  show "fault_step lib w ev w' \<and> orderly w ev \<longrightarrow> life_step ev (sessions_of w) (sessions_of w')"
    using orderly_step [OF _ _ ok] by blast
  show "\<forall>a b. (a, b) \<in> call_edges ev \<longrightarrow> life_path a b
      \<or> a = SessionHumanReq \<and> b = SessionFailed \<and> (\<exists>raw res. ev = EvResume raw res)"
    by (intro allI impI) (drule call_edges_paths, metis prod.inject)
  show "\<forall>h sid. open_token w h sid \<longrightarrow> map_option sess_State (sessions_of w sid) = Some SessionHumanReq
      \<and> (\<forall>h'. open_token w h' sid \<longrightarrow> h' = h)"
    using ok unfolding life_ok_def by blast
  show "\<forall>i s evs' w''. sessions_of w i = Some s \<and> sess_State s \<in> {SessionCompleted, SessionFailed, SessionExpired}
      \<and> orderly_runs lib w evs' w'' \<longrightarrow> sessions_of w'' i = Some s"
    using orderly_ended [OF _ ok] by blast
qed

lemma sample_orderly:
  "\<exists>res w. orderly_runs lib (world_with (fake_driver [StateNormal] StateNormal)) [EvStart inp res] w"
proof -
  let ?w = "world_with (fake_driver [StateNormal] StateNormal)"
  obtain res w where "run_state (run_Start lib (test_rand []) (test_runner sample_limits zeroTime) inp) ?w = (res, w)"
    by fastforce
  moreover have "orderly ?w (EvStart inp res)"
    by (simp add: orderly_def world_with_def newFakeSessionStore_def)
  ultimately have "orderly_runs lib ?w ([] @ [EvStart inp res]) w"
    by (intro orderly_runs.more [OF orderly_runs.none] runner_step_fault runner_step.start)
  then show ?thesis by (simp only: append_Nil) blast
qed

theorem orderly_lifecycle_witness:
  "\<forall>lib inp. \<exists>res w. orderly_runs lib (world_with (fake_driver [StateNormal] StateNormal)) [EvStart inp res] w
    \<and> (\<forall>h sid. open_token w h sid \<longrightarrow> map_option sess_State (sessions_of w sid) = Some SessionHumanReq)"
proof (intro allI)
  fix lib inp
  from sample_orderly obtain res w where
    r: "orderly_runs lib (world_with (fake_driver [StateNormal] StateNormal)) [EvStart inp res] w" by blast
  from orderly_lifecycle [OF r] have "\<forall>h sid. open_token w h sid \<longrightarrow>
      map_option sess_State (sessions_of w sid) = Some SessionHumanReq" by blast
  with r show "\<exists>res w. orderly_runs lib (world_with (fake_driver [StateNormal] StateNormal)) [EvStart inp res] w
    \<and> (\<forall>h sid. open_token w h sid \<longrightarrow> map_option sess_State (sessions_of w sid) = Some SessionHumanReq)" by blast
qed

text \<open>
  C12. A handoff is kept or lost for good.  In every orderly history, whatever fails, a session
  that waits for the human has exactly one recovery token that is not spent, or nothing that
  is done later changes the session again: there is no third case, in which a second link
  is issued or the session goes on without the human.
\<close>

theorem handoff_kept_or_lost:
  assumes "orderly_runs lib (world_with d) evs w" and "sessions_of w i = Some s" and "sess_State s = SessionHumanReq"
  shows "(\<exists>!h. open_token w h i) \<or> (\<forall>evs' w'. orderly_runs lib w evs' w' \<longrightarrow> sessions_of w' i = Some s)"
proof (cases "\<exists>h. open_token w h i")
  case True
  have "life_ok w" by (rule orderly_life [OF assms(1) world_with_life])
  with True show ?thesis unfolding life_ok_def by blast
next
  case False
  with waiting_runs [OF _ orderly_life [OF assms(1) world_with_life] assms(2,3)] show ?thesis by blast
qed

lemma captcha_token:
  "\<exists>res w s. run_state (run_Start lib (test_rand b) (test_runner sample_limits zeroTime)
        \<lparr>st_ApplicationID = [], st_Platform = [], st_StartURL = [], st_Fields = []\<rparr>)
        (world_with (fake_driver [StateCaptcha] StateNormal)) = (res, w)
     \<and> sessions_of w (''id-'' @ rune_string 49) = Some s \<and> sess_State s = SessionHumanReq
     \<and> sess_ID s = ''id-'' @ rune_string 49 \<and> sess_ExpiresAt s = time_Add zeroTime (30 * time_Minute)
     \<and> bw_tokens w = [HashRecoveryToken lib (b64_RawURL (take 32 b)) \<mapsto>
         \<lparr>ent_sessionID = ''id-'' @ rune_string 49, ent_expiresAt = time_Add zeroTime (30 * time_Minute),
          ent_revoked = False\<rparr>]"
  by (simp add: run_Start_def run_startOfToday_def navigateAndFill_def fillAndCheckpoint_def handleNonNormalState_def
      run_isExpired_def IsExpired_def saveSession_def pauseForHuman_def take_screenshot_def
      issue_recovery_def NewRecoveryToken_def test_rand_def recoveryTokenBytes_def test_runner_simps on_driver_def
      on_sessions_def on_tokens_def fakeSessionStore_ops_def fakeTokenStore_ops_def fakeNotifier_ops_def
      fakeScreenshotStore_Save_def FakeDriver_Launch_def FakeDriver_Navigate_def FakeDriver_Fill_def
      FakeDriver_DetectState_def FakeDriver_Screenshot_def FakeDriver_CurrentURL_def test_newID_def
      world_with_def newFakeSessionStore_def fake_driver_def zeroSession_def time_defs time_Minute_def startOfDay_def
      nth_only wrap64_def Let_def)

theorem handoff_kept_or_lost_witness:
  "\<forall>lib. \<exists>inp res w s. orderly_runs lib (world_with (fake_driver [StateCaptcha] StateNormal)) [EvStart inp res] w
     \<and> sessions_of w (''id-'' @ rune_string 49) = Some s \<and> sess_State s = SessionHumanReq
     \<and> ((\<exists>!h. open_token w h (''id-'' @ rune_string 49))
         \<or> (\<forall>evs' w'. orderly_runs lib w evs' w' \<longrightarrow> sessions_of w' (''id-'' @ rune_string 49) = Some s))"
  (is "\<forall>lib. ?P lib")
proof
  fix lib
  let ?w = "world_with (fake_driver [StateCaptcha] StateNormal)"
  let ?inp = "\<lparr>st_ApplicationID = [], st_Platform = [], st_StartURL = [], st_Fields = []\<rparr>"
  from captcha_token [of lib "[]"] obtain res w s where
    run: "run_state (run_Start lib (test_rand []) (test_runner sample_limits zeroTime) ?inp) ?w = (res, w)"
    and s: "sessions_of w (''id-'' @ rune_string 49) = Some s" "sess_State s = SessionHumanReq" by blast
  have "orderly ?w (EvStart ?inp res)"
    by (simp add: orderly_def world_with_def newFakeSessionStore_def)
  then have "orderly_runs lib ?w ([] @ [EvStart ?inp res]) w"
    by (intro orderly_runs.more [OF orderly_runs.none] runner_step_fault runner_step.start [OF run])
  then have r: "orderly_runs lib ?w [EvStart ?inp res] w" by (simp only: append_Nil)
  show "?P lib"
    by (intro exI conjI) (rule r, rule s(1), rule s(2), rule handoff_kept_or_lost [OF r s])
qed

section \<open>A waiting session that fails\<close>

text \<open>
  Where the runner leaves the document: when the page cannot be read after the human's
  work, the document wants the session back at HUMAN_REQUIRED, and \<open>Resume\<close> makes it FAILED.
\<close>

lemma Resume_unverified_fails:
  "\<exists>inp res w raw res' w' s. orderly_runs lib (world_with (fake_driver [StateCaptcha] StateNormal)) [EvStart inp res] w
     \<and> sessions_of w (''id-'' @ rune_string 49) = Some s \<and> sess_State s = SessionHumanReq
     \<and> fault_step lib w (EvResume raw res') w'
     \<and> map_option sess_State (sessions_of w' (''id-'' @ rune_string 49)) = Some SessionFailed"
proof -
  let ?b = "''0123456789abcdef0123456789abcdef''" and ?w = "world_with (fake_driver [StateCaptcha] StateNormal)"
  let ?inp = "\<lparr>st_ApplicationID = [], st_Platform = [], st_StartURL = [], st_Fields = []\<rparr>"
  let ?raw = "b64_RawURL (take 32 ?b)" and ?i = "''id-'' @ rune_string 49"
  from captcha_token [of lib ?b] obtain res w s where
    1: "run_state (run_Start lib (test_rand ?b) (test_runner sample_limits zeroTime) ?inp) ?w = (res, w)"
    and s: "sessions_of w ?i = Some s" "sess_State s = SessionHumanReq" "sess_ID s = ?i"
      "sess_ExpiresAt s = time_Add zeroTime (30 * time_Minute)"
    and toks: "bw_tokens w = [HashRecoveryToken lib ?raw \<mapsto> \<lparr>ent_sessionID = ?i,
         ent_expiresAt = time_Add zeroTime (30 * time_Minute), ent_revoked = False\<rparr>]" by blast
  have "\<exists>res' w'. run_state (run_Resume lib (faulty_bytes ?b) (test_faulty sample_limits zeroTime) ?raw [])
      (w, [Works, Works, Works, Refused]) = (res', (w', []))
      \<and> map_option sess_State (sessions_of w' ?i) = Some SessionFailed"
    using toks s by (simp add: run_Resume_def Redeem_def or_fail_def test_runner_simps on_tokens_def
        fakeTokenStore_ops_def entry_live_def time_defs time_Minute_def Let_def on_sessions_def
        fakeSessionStore_ops_def fss_get_def run_isExpired_def IsExpired_def run_fail_def saveSession_def on_driver_def)
  then obtain res' w' where 2: "run_state (run_Resume lib (faulty_bytes ?b) (test_faulty sample_limits zeroTime) ?raw [])
      (w, [Works, Works, Works, Refused]) = (res', (w', []))"
    and w': "map_option sess_State (sessions_of w' ?i) = Some SessionFailed" by blast
  have "orderly ?w (EvStart ?inp res)"
    by (simp add: orderly_def world_with_def newFakeSessionStore_def)
  then have "orderly_runs lib ?w ([] @ [EvStart ?inp res]) w"
    by (intro orderly_runs.more [OF orderly_runs.none] runner_step_fault runner_step.start [OF 1])
  then have "orderly_runs lib ?w [EvStart ?inp res] w" by (simp only: append_Nil)
  with s w' fault_step.resume [OF 2] show ?thesis by blast
qed

end
