(* ===== verification/RunnerErrors.thy ===== *)
theory RunnerErrors
  imports RunnerCalls RunnerStores
begin

text \<open>
  What a caller can tell from the result of \<open>Start\<close>, \<open>Resume\<close> and \<open>Submit\<close>
  (\<open>internal/browser/runner.go\<close>) about the calls that were made to the driver, when any of
  the stores, the notifier and the driver may fail.
\<close>

section \<open>Stores that fail\<close>

text \<open>A runner whose stores answer every call and keep nothing.\<close>

definition stateless_runner :: "'w Driver \<Rightarrow> 'w Runner" where
  "stateless_runner d = NewRunner (ret zeroTime) d
     \<lparr>GetSession = (\<lambda>_. ret (zeroSession, None)), SaveSession = (\<lambda>s. ret (s, None)),
      SaveCheckpoint = (\<lambda>c. ret (c, None)), ListCheckpoints = (\<lambda>_. ret ([], None)),
      CountStartedSince = (\<lambda>_. ret (0, None))\<rparr>
     \<lparr>SaveTokenHash = (\<lambda>_ _ _. ret None), LookupByHash = (\<lambda>_ _. ret ([], False, None)),
      RevokeByHash = (\<lambda>_. ret None)\<rparr>
     \<lparr>SaveScreenshot = (\<lambda>_ _. ret ([], None))\<rparr> None sample_limits (ret ''id'')"

text \<open>
  Such a runner, without a notifier, whose world is the number of sessions saved so far: the store
  saves the first \<open>n\<close> sessions and then fails.
\<close>

definition failing_runner :: "nat \<Rightarrow> nat Driver \<Rightarrow> nat Runner" where
  "failing_runner n d = (stateless_runner d)
     \<lparr>run_Sessions := (run_Sessions (stateless_runner d))
        \<lparr>SaveSession := (\<lambda>s. State (\<lambda>k. ((s, if k < n then None else NewError ''disk full''), k + 1)))\<rparr>\<rparr>"

text \<open>A driver whose page is normal and answers a submission with the given state.\<close>

definition page_driver :: "PageState \<Rightarrow> 'w Driver" where
  "page_driver answer =
     \<lparr>drv_Launch = ret None, drv_Navigate = (\<lambda>_. ret (StateNormal, None)), drv_Fill = (\<lambda>_. ret None),
      drv_DetectState = ret (StateNormal, None), drv_Screenshot = ret (zeroScreenshot, None), drv_CurrentURL = ret ([], None),
      drv_Submit = (\<lambda>_. ret (answer, None)), drv_Close = ret None\<rparr>"

lemma failing_runner_simps [simp]:
  "run_Driver (failing_runner n d) = d" "run_Now (failing_runner n d) = ret zeroTime"
  "SaveSession (run_Sessions (failing_runner n d)) s
     = State (\<lambda>k. ((s, if k < n then None else NewError ''disk full''), k + 1))"
  by (simp_all add: failing_runner_def stateless_runner_def NewRunner_def)

text \<open>What the results of \<open>Submit\<close> say of its calls.\<close>

lemma submit_results_cases:
  assumes "(calls, res, err) \<in> submit_results inp"
  shows "(rslt_Outcome res = ''submitted'' \<longrightarrow> calls = [CallSubmit (sub_SubmitSelector inp)] \<and> err = None)
    \<and> (rslt_Outcome res = ''human_required'' \<longrightarrow> calls = CallSubmit (sub_SubmitSelector inp) # pause_calls)
    \<and> (rslt_Outcome res = ''expired'' \<longrightarrow> calls = [])
    \<and> rslt_Outcome res \<in> {''submitted'', ''human_required'', ''expired'', []}
    \<and> (rslt_Outcome res = [] \<longrightarrow> res = zeroResult \<and> err \<noteq> None)"
  using assms
  by (auto simp: submit_results_def ended_results_def pause_results_def zeroResult_def split: if_splits)

section \<open>Properties\<close>

text \<open>
  C8. Every result of the runner, error results included, with the driver calls behind it:
  for every driver, store, notifier and start state, what \<open>Start\<close>, \<open>Resume\<close> and \<open>Submit\<close>
  return and the calls they made are paired as listed.  The result of \<open>Submit\<close> has the
  outcome \<open>submitted\<close> only after exactly one click and without an error, \<open>human_required\<close>
  only after one click and the two calls of a pause, \<open>expired\<close> only without a click, and
  otherwise it is the zero result with an error.
\<close>

theorem Call_results:
  "(\<exists>calls. (calls, fst (run_state (run_Start lib rand_Read r inp) w)) \<in> start_results inp
      \<and> run_state (run_Start lib (traced_rand rand_Read) (traced r) inp) (w, cs)
        = (fst (run_state (run_Start lib rand_Read r inp) w), (snd (run_state (run_Start lib rand_Read r inp) w), cs @ calls)))
   \<and> (\<exists>calls. (calls, fst (run_state (run_Resume lib rand_Read r raw fvs) w)) \<in> resume_results fvs
      \<and> run_state (run_Resume lib (traced_rand rand_Read) (traced r) raw fvs) (w, cs)
        = (fst (run_state (run_Resume lib rand_Read r raw fvs) w), (snd (run_state (run_Resume lib rand_Read r raw fvs) w), cs @ calls)))
   \<and> (\<exists>calls res err w'. run_state (run_Submit lib rand_Read r sinp) w = ((res, err), w')
      \<and> run_state (run_Submit lib (traced_rand rand_Read) (traced r) sinp) (w, cs) = ((res, err), (w', cs @ calls))
      \<and> (calls, res, err) \<in> submit_results sinp
      \<and> (rslt_Outcome res = ''submitted'' \<longrightarrow> calls = [CallSubmit (sub_SubmitSelector sinp)] \<and> err = None)
      \<and> (rslt_Outcome res = ''human_required'' \<longrightarrow>
           calls = [CallSubmit (sub_SubmitSelector sinp), CallScreenshot, CallCurrentURL])
      \<and> (rslt_Outcome res = ''expired'' \<longrightarrow> calls = [])
      \<and> rslt_Outcome res \<in> {''submitted'', ''human_required'', ''expired'', []}
      \<and> (rslt_Outcome res = [] \<longrightarrow> res = zeroResult \<and> err \<noteq> None))"
  (is "?start \<and> ?resume \<and> ?submit")
proof (intro conjI)
  show ?start by (rule followsD [OF follows_Start])
  show ?resume by (rule followsD [OF follows_Resume])
  obtain res err w' where run: "run_state (run_Submit lib rand_Read r sinp) w = ((res, err), w')"
    by (metis prod.collapse)
  with followsD [OF follows_Submit [of lib rand_Read r sinp], of w cs] obtain calls where
    c: "(calls, res, err) \<in> submit_results sinp"
      "run_state (run_Submit lib (traced_rand rand_Read) (traced r) sinp) (w, cs) = ((res, err), (w', cs @ calls))"
    by auto
  show ?submit
    by (intro exI conjI) (fact run c submit_results_cases [OF c(1), THEN conjunct1]
      submit_results_cases [OF c(1), THEN conjunct2, THEN conjunct1]
      submit_results_cases [OF c(1), THEN conjunct2, THEN conjunct2, THEN conjunct1]
      submit_results_cases [OF c(1), THEN conjunct2, THEN conjunct2, THEN conjunct2, THEN conjunct1]
      submit_results_cases [OF c(1), THEN conjunct2, THEN conjunct2, THEN conjunct2, THEN conjunct2])+
qed

theorem Call_results_witness:
  "\<forall>lib. \<exists>calls res w'. run_state (run_Submit lib (traced_rand (\<lambda>n. ret ([], None)))
        (traced (failing_runner 2 (page_driver StateSubmitted))) (submit_input True)) (0, []) = ((res, None), (w', calls))
      \<and> rslt_Outcome res = ''submitted'' \<and> calls = [CallSubmit ''#submit'']"
proof
  fix lib
  let ?r = "failing_runner 2 (page_driver StateSubmitted)"
  have "\<exists>s w'. run_state (run_Submit lib (\<lambda>n. ret ([], None)) ?r (submit_input True)) 0
      = ((\<lparr>rslt_Session = s, rslt_Outcome = ''submitted''\<rparr>, None), w')"
    by (simp add: run_Submit_def submit_input_def run_isExpired_def saveSession_def IsExpired_def zeroSession_def
        time_defs page_driver_def Let_def)
  then obtain s w' where r: "run_state (run_Submit lib (\<lambda>n. ret ([], None)) ?r (submit_input True)) 0
      = ((\<lparr>rslt_Session = s, rslt_Outcome = ''submitted''\<rparr>, None), w')" by blast
  from Call_results [THEN conjunct2, THEN conjunct2, of lib "\<lambda>n. ret ([], None)" ?r "submit_input True" 0 "[]"] r
  obtain calls where "run_state (run_Submit lib (traced_rand (\<lambda>n. ret ([], None))) (traced ?r) (submit_input True)) (0, [])
      = ((\<lparr>rslt_Session = s, rslt_Outcome = ''submitted''\<rparr>, None), (w', calls))"
    "calls = [CallSubmit (sub_SubmitSelector (submit_input True))]" by auto
  then show "\<exists>calls res w'. run_state (run_Submit lib (traced_rand (\<lambda>n. ret ([], None))) (traced ?r)
      (submit_input True)) (0, []) = ((res, None), (w', calls)) \<and> rslt_Outcome res = ''submitted'' \<and> calls = [CallSubmit ''#submit'']"
    by (simp add: submit_input_def)
qed

text \<open>
  The remaining case hides a submission: when the store fails after the click, the result
  and the error are those of a store that failed before it.
\<close>

theorem Submit_outcome_lost:
  "run_state (run_Submit lib (traced_rand rand_Read) (traced (failing_runner 1 (page_driver StateSubmitted)))
        (submit_input True)) (0, [])
      = ((zeroResult, Errorf ''browser: save session: '' (ErrorString ''disk full'')), (2, [CallSubmit ''#submit'']))
   \<and> run_state (run_Submit lib (traced_rand rand_Read) (traced (failing_runner 0 (page_driver StateSubmitted)))
        (submit_input True)) (0, [])
      = ((zeroResult, Errorf ''browser: save session: '' (ErrorString ''disk full'')), (1, []))"
  by (simp add: run_Submit_def submit_input_def run_isExpired_def saveSession_def IsExpired_def zeroSession_def
      time_defs page_driver_def log_call_def Let_def)

end
