(* ===== verification/RedeemRace.thy ===== *)
theory RedeemRace
  imports Recovery
begin

text \<open>
  Concurrent calls of \<open>Redeem\<close> (\<open>internal/browser/recovery.go\<close>).  A redemption makes two
  calls to the token store, a lookup and a revocation, and nothing keeps another redemption
  from running between them: in a server each recovery link is handled by a goroutine of its
  own.  The theory cuts \<open>Redeem\<close> at its store calls, shows that the pieces run one after
  the other are \<open>Redeem\<close>, and then lets any number of redemptions interleave.
\<close>

section \<open>A redemption in steps\<close>

datatype redeem_pc = NotStarted | LookedUp string | Finished "goerror + string"

fun redeem_step ::
    "golib \<Rightarrow> 'w RecoveryTokenStore \<Rightarrow> string \<Rightarrow> Time \<Rightarrow> redeem_pc \<Rightarrow> ('w, redeem_pc) state" where
  "redeem_step lib store rawToken now NotStarted = do {
     (sessionID, ok, err) \<leftarrow> LookupByHash store (HashRecoveryToken lib rawToken) now;
     case err of
       Some e \<Rightarrow> ret (Finished (Inl (WrapError ''browser: redeem recovery token: '' e)))
     | None \<Rightarrow>
         if \<not> ok then ret (Finished (Inl (ErrorString ''browser: recovery token invalid or expired'')))
         else ret (LookedUp sessionID)
   }"
| "redeem_step lib store rawToken now (LookedUp sessionID) = do {
     rerr \<leftarrow> RevokeByHash store (HashRecoveryToken lib rawToken);
     case rerr of
       Some e \<Rightarrow> ret (Finished (Inl (WrapError ''browser: revoke recovery token after redemption: '' e)))
     | None \<Rightarrow> ret (Finished (Inr sessionID))
   }"
| "redeem_step lib store rawToken now (Finished r) = ret (Finished r)"

declare redeem_step.simps(1,2) [simp del]

text \<open>Without interference the steps are \<open>Redeem\<close>, for every store.\<close>

lemma redeem_steps_Redeem:
  "State_Monad.bind (redeem_step lib store raw now NotStarted) (redeem_step lib store raw now)
     = State_Monad.bind (Redeem lib store raw now) (\<lambda>r. ret (Finished r))"
  by (rule state.expand)
    (auto simp: redeem_step.simps Redeem_def Let_def fun_eq_iff split: option.splits prod.splits)

section \<open>Interleaved redemptions\<close>

text \<open>
  Redemption \<open>i\<close> is called with the token \<open>raw i\<close> at the time \<open>now i\<close>.  A step of the
  system is a step of one of them on the shared store.
\<close>

type_synonym 'w redeem_sys = "(nat \<Rightarrow> redeem_pc) \<times> 'w"

inductive race_step ::
    "golib \<Rightarrow> 'w RecoveryTokenStore \<Rightarrow> (nat \<Rightarrow> string) \<Rightarrow> (nat \<Rightarrow> Time) \<Rightarrow> 'w redeem_sys \<Rightarrow> 'w redeem_sys \<Rightarrow> bool"
  for lib store raw now where
  step: "run_state (redeem_step lib store (raw i) (now i) (pcs i)) w = (pc, w') \<Longrightarrow>
    race_step lib store raw now (pcs, w) (pcs(i := pc), w')"

abbreviation race ::
    "golib \<Rightarrow> 'w RecoveryTokenStore \<Rightarrow> (nat \<Rightarrow> string) \<Rightarrow> (nat \<Rightarrow> Time) \<Rightarrow> 'w redeem_sys \<Rightarrow> 'w redeem_sys \<Rightarrow> bool" where
  "race lib store raw now \<equiv> (race_step lib store raw now)\<^sup>*\<^sup>*"

context token_store
begin

lemma step_NotStarted:
  "run_state (redeem_step lib store raw now NotStarted) w =
     (case entry_of w (HashRecoveryToken lib raw) of
        Some e \<Rightarrow> if entry_live e now then (LookedUp (ent_sessionID e), w)
          else (Finished (Inl (ErrorString ''browser: recovery token invalid or expired'')), w)
      | None \<Rightarrow> (Finished (Inl (ErrorString ''browser: recovery token invalid or expired'')), w))"
  by (auto simp: redeem_step.simps lookup_token split: option.splits)

lemma step_NotStarted_pc:
  assumes "run_state (redeem_step lib store raw now NotStarted) w = (pc, w')"
  shows "w' = w \<and>
    (pc = Finished (Inl (ErrorString ''browser: recovery token invalid or expired''))
     \<or> (\<exists>e. entry_of w (HashRecoveryToken lib raw) = Some e \<and> entry_live e now \<and> pc = LookedUp (ent_sessionID e)))"
  using assms unfolding step_NotStarted by (auto split: option.splits if_splits)

lemma step_LookedUp:
  assumes "entry_of w (HashRecoveryToken lib raw) = Some e"
  shows "\<exists>w'. run_state (redeem_step lib store raw now (LookedUp sid)) w = (Finished (Inr sid), w')
    \<and> entry_of w' = (entry_of w)(HashRecoveryToken lib raw \<mapsto> e\<lparr>ent_revoked := True\<rparr>)"
proof -
  obtain err w' where r: "run_state (RevokeByHash store (HashRecoveryToken lib raw)) w = (err, w')" by fastforce
  from revoke_token [OF r assms] r show ?thesis by (simp add: redeem_step.simps)
qed

text \<open>
  What every interleaving keeps, relative to the store \<open>w0\<close> at the start: an entry changes
  only by being revoked, a redemption that has looked up its token saw a live entry, and one
  that succeeded has revoked it.
\<close>

definition race_inv ::
    "golib \<Rightarrow> (nat \<Rightarrow> string) \<Rightarrow> (nat \<Rightarrow> Time) \<Rightarrow> 'w \<Rightarrow> 'w redeem_sys \<Rightarrow> bool" where
  "race_inv lib raw now w0 t \<longleftrightarrow>
     (\<forall>h. entry_of (snd t) h = entry_of w0 h
        \<or> (\<exists>e. entry_of w0 h = Some e \<and> entry_of (snd t) h = Some (e\<lparr>ent_revoked := True\<rparr>)))
   \<and> (\<forall>i sid. fst t i \<in> {LookedUp sid, Finished (Inr sid)} \<longrightarrow> redeemable lib w0 (raw i) (now i) sid)
   \<and> (\<forall>i sid. fst t i = Finished (Inr sid) \<longrightarrow>
        (\<exists>e. entry_of (snd t) (HashRecoveryToken lib (raw i)) = Some e \<and> ent_revoked e))"

lemma race_inv_init: "race_inv lib raw now w (\<lambda>_. NotStarted, w)"
  by (simp add: race_inv_def)

lemma race_inv_entry:
  assumes "race_inv lib raw now w0 t" and "redeemable lib w0 r n sid"
  shows "\<exists>e e0. entry_of (snd t) (HashRecoveryToken lib r) = Some e \<and> entry_of w0 (HashRecoveryToken lib r) = Some e0
    \<and> e\<lparr>ent_revoked := True\<rparr> = e0\<lparr>ent_revoked := True\<rparr>"
proof -
  from assms(2) obtain e0 where e0: "entry_of w0 (HashRecoveryToken lib r) = Some e0" by (auto simp: redeemable_def)
  have "entry_of (snd t) (HashRecoveryToken lib r) = entry_of w0 (HashRecoveryToken lib r)
      \<or> (\<exists>e. entry_of w0 (HashRecoveryToken lib r) = Some e
           \<and> entry_of (snd t) (HashRecoveryToken lib r) = Some (e\<lparr>ent_revoked := True\<rparr>))"
    using assms(1) unfolding race_inv_def by blast
  with e0 show ?thesis by auto
qed

lemma race_inv_step:
  assumes "race_step lib store raw now t t'" and inv: "race_inv lib raw now w0 t"
  shows "race_inv lib raw now w0 t'"
proof -
  from assms(1) obtain pcs w i pc w' where t: "t = (pcs, w)" "t' = (pcs(i := pc), w')"
    and st: "run_state (redeem_step lib store (raw i) (now i) (pcs i)) w = (pc, w')"
    by (cases rule: race_step.cases) auto
  let ?h = "HashRecoveryToken lib (raw i)"
  show ?thesis
  proof (cases "pcs i")
    case NotStarted
    note pc = step_NotStarted_pc [OF st [unfolded NotStarted]]
    have "redeemable lib w0 (raw i) (now i) sid" if p: "pc = LookedUp sid" for sid
    proof -
      from pc p obtain e where e: "entry_of w ?h = Some e" "entry_live e (now i)" "ent_sessionID e = sid" by auto
      then have "\<not> ent_revoked e" by (simp add: entry_live_def)
      moreover have "entry_of w ?h = entry_of w0 ?h \<or> (\<exists>e0. entry_of w ?h = Some (e0\<lparr>ent_revoked := True\<rparr>))"
        using inv t unfolding race_inv_def by fastforce
      ultimately have "entry_of w0 ?h = Some e" using e(1) by auto
      with e show ?thesis by (auto simp: redeemable_def)
    qed
    with pc have "\<forall>sid. pc \<in> {LookedUp sid, Finished (Inr sid)} \<longrightarrow> redeemable lib w0 (raw i) (now i) sid"
      and "\<forall>sid. pc \<noteq> Finished (Inr sid)" by auto
    with inv pc show ?thesis unfolding t race_inv_def by simp
  next
    case (LookedUp sid)
    from inv t LookedUp have red: "redeemable lib w0 (raw i) (now i) sid" by (simp add: race_inv_def)
    from race_inv_entry [OF inv red] t obtain e e0 where e: "entry_of w ?h = Some e" "entry_of w0 ?h = Some e0"
      "e\<lparr>ent_revoked := True\<rparr> = e0\<lparr>ent_revoked := True\<rparr>" by auto
    from step_LookedUp [OF e(1), of "now i" sid] st LookedUp have pc: "pc = Finished (Inr sid)"
      and w': "entry_of w' = (entry_of w)(?h \<mapsto> e\<lparr>ent_revoked := True\<rparr>)" by auto
    have "entry_of w' h = entry_of w0 h
        \<or> (\<exists>e. entry_of w0 h = Some e \<and> entry_of w' h = Some (e\<lparr>ent_revoked := True\<rparr>))" for h
      using inv t e w' by (cases "h = ?h") (simp_all add: race_inv_def)
    moreover have "\<exists>e. entry_of w' (HashRecoveryToken lib (raw j)) = Some e \<and> ent_revoked e"
      if "(pcs(i := pc)) j = Finished (Inr s)" for j s
      using that inv t w' by (cases "j = i") (auto simp: race_inv_def)
    ultimately show ?thesis using inv red unfolding t race_inv_def by (simp add: pc)
  next
    case (Finished r)
    with st t have "t' = t" by (simp add: fun_upd_idem)
    with inv show ?thesis by simp
  qed
qed

lemma race_inv_reach:
  "race lib store raw now s t \<Longrightarrow> race_inv lib raw now w s \<Longrightarrow> race_inv lib raw now w t"
  by (induction rule: rtranclp_induct) (auto intro: race_inv_step)

text \<open>Once a token is revoked, a redemption of it that has not started cannot succeed.\<close>

lemma revoked_step:
  assumes "race_step lib store raw now t t'" and inv: "race_inv lib raw now w0 t"
    and "entry_of (snd t) h = Some e" and "ent_revoked e"
  shows "\<exists>e. entry_of (snd t') h = Some e \<and> ent_revoked e"
proof -
  from assms(1) obtain pcs w i pc w' where t: "t = (pcs, w)" "t' = (pcs(i := pc), w')"
    and st: "run_state (redeem_step lib store (raw i) (now i) (pcs i)) w = (pc, w')"
    by (cases rule: race_step.cases) auto
  show ?thesis
  proof (cases "pcs i")
    case NotStarted
    with step_NotStarted_pc st t assms(3,4) show ?thesis by fastforce
  next
    case (LookedUp sid)
    with inv t have "redeemable lib w0 (raw i) (now i) sid" by (simp add: race_inv_def)
    from race_inv_entry [OF inv this] t obtain e' where "entry_of w (HashRecoveryToken lib (raw i)) = Some e'" by auto
    from step_LookedUp [OF this, of "now i" sid] st t LookedUp assms(3,4) show ?thesis by auto
  qed (use st t assms(3,4) in auto)
qed

lemma late_redemption_fails:
  assumes "race lib store raw now t t'" and "race_inv lib raw now w0 t"
    and "fst t j = NotStarted" and "entry_of (snd t) (HashRecoveryToken lib (raw j)) = Some e" and "ent_revoked e"
  shows "fst t' j \<in> {NotStarted, Finished (Inl (ErrorString ''browser: recovery token invalid or expired''))}
    \<and> (\<exists>e. entry_of (snd t') (HashRecoveryToken lib (raw j)) = Some e \<and> ent_revoked e)"
  using assms(1)
proof (induction rule: rtranclp_induct)
  case base
  then show ?case using assms(3-5) by simp
next
  case (step u v)
  from race_inv_reach [OF step.hyps(1) assms(2)] have inv: "race_inv lib raw now w0 u" .
  from step.IH obtain e where e: "entry_of (snd u) (HashRecoveryToken lib (raw j)) = Some e" "ent_revoked e" by auto
  from step.hyps(2) obtain pcs w i pc w' where t: "u = (pcs, w)" "v = (pcs(i := pc), w')"
    and st: "run_state (redeem_step lib store (raw i) (now i) (pcs i)) w = (pc, w')"
    by (cases rule: race_step.cases) auto
  have "pc \<in> {NotStarted, Finished (Inl (ErrorString ''browser: recovery token invalid or expired''))}" if "i = j"
  proof (cases "pcs j = NotStarted")
    case True
    with step_NotStarted_pc st that e t show ?thesis by (fastforce simp: entry_live_def)
  next
    case False
    with step.IH t st that show ?thesis by auto
  qed
  with revoked_step [OF step.hyps(2) inv e] step.IH t show ?case by auto
qed

end

section \<open>The in-memory token store\<close>

text \<open>
  C14. Whatever the interleaving: if some redemptions of tokens run concurrently on the
  in-memory store, a redemption returns a session only if the store had a live entry for
  its token and that session when the first of them started, and by then the token is
  revoked; and from that moment on every redemption of the same token that has not begun
  is refused, however the rest is scheduled.
\<close>

theorem concurrent_Redeem_safe:
  assumes "race lib fakeTokenStore_ops raw now (\<lambda>_. NotStarted, s) (pcs, s1)"
    and "pcs i = Finished (Inr sid)"
    and "race lib fakeTokenStore_ops raw now (pcs, s1) (pcs', s2)"
    and "pcs j = NotStarted" and "raw j = raw i"
  shows "(\<exists>e. s (HashRecoveryToken lib (raw i)) = Some e \<and> entry_live e (now i) \<and> ent_sessionID e = sid
      \<and> s1 (HashRecoveryToken lib (raw i)) = Some (e\<lparr>ent_revoked := True\<rparr>))
    \<and> pcs' j \<in> {NotStarted, Finished (Inl (ErrorString ''browser: recovery token invalid or expired''))}"
proof -
  note inv = fake_tokens.race_inv_reach [OF assms(1) fake_tokens.race_inv_init]
  have red: "fake_tokens.redeemable lib s (raw i) (now i) sid"
    and rev: "\<exists>e. s1 (HashRecoveryToken lib (raw i)) = Some e \<and> ent_revoked e"
    using inv assms(2) by (auto simp: fake_tokens.race_inv_def)
  then obtain e1 where e1: "s1 (HashRecoveryToken lib (raw i)) = Some e1" "ent_revoked e1" by blast
  then have "e1\<lparr>ent_revoked := True\<rparr> = e1" by simp
  with fake_tokens.race_inv_entry [OF inv red] e1 red
  have "\<exists>e. s (HashRecoveryToken lib (raw i)) = Some e \<and> entry_live e (now i) \<and> ent_sessionID e = sid
      \<and> s1 (HashRecoveryToken lib (raw i)) = Some (e\<lparr>ent_revoked := True\<rparr>)"
    by (auto simp: fake_tokens.redeemable_def)
  moreover have "pcs' j \<in> {NotStarted, Finished (Inl (ErrorString ''browser: recovery token invalid or expired''))}"
    using fake_tokens.late_redemption_fails [OF assms(3) inv, of j e1] assms(4,5) e1 by simp
  ultimately show ?thesis by blast
qed

lemma race_run:
  "run_state (redeem_step lib store (raw i) (now i) (pcs i)) w = (pc, w') \<Longrightarrow>
   race lib store raw now t (pcs, w) \<Longrightarrow> race lib store raw now t (pcs(i := pc), w')"
  by (blast intro: rtranclp.rtrancl_into_rtrancl race_step.step)

text \<open>The two steps of a redemption of a live token.\<close>

lemma fake_steps:
  assumes "s (HashRecoveryToken lib raw) = Some e" and "entry_live e now"
  shows "run_state (redeem_step lib fakeTokenStore_ops raw now NotStarted) s = (LookedUp (ent_sessionID e), s)"
    and "run_state (redeem_step lib fakeTokenStore_ops raw now (LookedUp sid)) s =
      (Finished (Inr sid), s(HashRecoveryToken lib raw \<mapsto> e\<lparr>ent_revoked := True\<rparr>))"
  using assms by (auto simp: redeem_step.simps fakeTokenStore_ops_def entry_live_def Let_def)

lemma race_example:
  assumes "s (HashRecoveryToken lib ''raw'') = Some e" and "entry_live e zeroTime"
  shows "race lib fakeTokenStore_ops (\<lambda>_. ''raw'') (\<lambda>_. zeroTime) (\<lambda>_. NotStarted, s)
    ((\<lambda>_. NotStarted)(0 := Finished (Inr (ent_sessionID e))),
     s(HashRecoveryToken lib ''raw'' \<mapsto> e\<lparr>ent_revoked := True\<rparr>))"
proof -
  have "race lib fakeTokenStore_ops (\<lambda>_. ''raw'') (\<lambda>_. zeroTime) (\<lambda>_. NotStarted, s)
      ((\<lambda>_. NotStarted)(0 := LookedUp (ent_sessionID e)), s)"
    by (rule race_run [OF _ rtranclp.rtrancl_refl]) (simp add: fake_steps [of s lib "''raw''" e zeroTime, OF assms])
  then have "race lib fakeTokenStore_ops (\<lambda>_. ''raw'') (\<lambda>_. zeroTime) (\<lambda>_. NotStarted, s)
      ((\<lambda>_. NotStarted)(0 := LookedUp (ent_sessionID e), 0 := Finished (Inr (ent_sessionID e))),
       s(HashRecoveryToken lib ''raw'' \<mapsto> e\<lparr>ent_revoked := True\<rparr>))"
    by (rule race_run [rotated]) (simp add: fake_steps [of s lib "''raw''" e zeroTime, OF assms])
  then show ?thesis by simp
qed

theorem concurrent_Redeem_safe_witness:
  "\<forall>lib :: golib. \<exists>s s1. race lib fakeTokenStore_ops (\<lambda>_. ''raw'') (\<lambda>_. zeroTime) (\<lambda>_. NotStarted, s)
       ((\<lambda>_. NotStarted)(0 := Finished (Inr [])), s1)
     \<and> s (HashRecoveryToken lib ''raw'') \<noteq> s1 (HashRecoveryToken lib ''raw'')"
proof
  fix lib :: golib
  let ?s = "[HashRecoveryToken lib ''raw'' \<mapsto> zeroTokenEntry]"
  have "entry_live zeroTokenEntry zeroTime" "ent_sessionID zeroTokenEntry = []"
    by (simp_all add: zeroTokenEntry_def entry_live_def time_defs)
  from race_example [of ?s lib, OF _ this(1)] this(2)
  have r: "race lib fakeTokenStore_ops (\<lambda>_. ''raw'') (\<lambda>_. zeroTime) (\<lambda>_. NotStarted, ?s)
      ((\<lambda>_. NotStarted)(0 := Finished (Inr [])),
       ?s(HashRecoveryToken lib ''raw'' \<mapsto> zeroTokenEntry\<lparr>ent_revoked := True\<rparr>))" by simp
  let ?s1 = "?s(HashRecoveryToken lib ''raw'' \<mapsto> zeroTokenEntry\<lparr>ent_revoked := True\<rparr>)"
  from concurrent_Redeem_safe [OF r _ rtranclp.rtrancl_refl, of 0 "[]" 1]
  obtain e where "?s (HashRecoveryToken lib ''raw'') = Some e" "\<not> ent_revoked e"
    "?s1 (HashRecoveryToken lib ''raw'') = Some (e\<lparr>ent_revoked := True\<rparr>)"
    by (auto simp: entry_live_def)
  then have "?s (HashRecoveryToken lib ''raw'') \<noteq> ?s1 (HashRecoveryToken lib ''raw'')"
    by (auto dest: arg_cong [where f = ent_revoked])
  with r show "\<exists>s s1. race lib fakeTokenStore_ops (\<lambda>_. ''raw'') (\<lambda>_. zeroTime) (\<lambda>_. NotStarted, s)
       ((\<lambda>_. NotStarted)(0 := Finished (Inr [])), s1)
     \<and> s (HashRecoveryToken lib ''raw'') \<noteq> s1 (HashRecoveryToken lib ''raw'')"
    by blast
qed

text \<open>
  Redemption is not atomic: for every live token there is an interleaving of two
  redemptions in which both look the token up before either revokes it, and both get the
  session; the steps of each are those of \<open>Redeem\<close>, for every store, and one after the
  other the second would have been refused.
\<close>

theorem concurrent_Redeem_race:
  "(\<exists>s1. race lib fakeTokenStore_ops (\<lambda>_. raw) (\<lambda>_. t) (\<lambda>_. NotStarted, s(HashRecoveryToken lib raw \<mapsto>
        \<lparr>ent_sessionID = sid, ent_expiresAt = t, ent_revoked = False\<rparr>))
      ((\<lambda>_. NotStarted)(0 := Finished (Inr sid), 1 := Finished (Inr sid)), s1))
   \<and> State_Monad.bind (redeem_step lib store raw t NotStarted) (redeem_step lib store raw t)
      = State_Monad.bind (Redeem lib store raw t) (\<lambda>r. ret (Finished r))"
proof
  let ?e = "\<lparr>ent_sessionID = sid, ent_expiresAt = t, ent_revoked = False\<rparr>"
  let ?s = "s(HashRecoveryToken lib raw \<mapsto> ?e)" and ?N = "\<lambda>_ :: nat. NotStarted"
  let ?race = "race lib fakeTokenStore_ops (\<lambda>_. raw) (\<lambda>_. t) (?N, ?s)"
  let ?s1 = "?s(HashRecoveryToken lib raw \<mapsto> ?e\<lparr>ent_revoked := True\<rparr>)"
  have live: "?s (HashRecoveryToken lib raw) = Some ?e" "entry_live ?e t"
    by (simp_all add: entry_live_def time_After_def)
  note run = fake_steps [of ?s lib raw ?e t, OF live]
  have "?race (?N(0 := LookedUp sid), ?s)"
    by (rule race_run [OF _ rtranclp.rtrancl_refl]) (simp add: run)
  then have "?race (?N(0 := LookedUp sid, 1 := LookedUp sid), ?s)"
    by (rule race_run [rotated]) (simp add: run)
  then have "?race (?N(0 := LookedUp sid, 1 := LookedUp sid, 0 := Finished (Inr sid)), ?s1)"
    by (rule race_run [rotated]) (simp add: run)
  then have "?race (?N(0 := LookedUp sid, 1 := LookedUp sid, 0 := Finished (Inr sid), 1 := Finished (Inr sid)), ?s1)"
    by (rule race_run [rotated]) (simp add: redeem_step.simps fakeTokenStore_ops_def Let_def)
  then show "\<exists>s1. ?race (?N(0 := Finished (Inr sid), 1 := Finished (Inr sid)), s1)"
    by (auto simp: fun_upd_twist [of 0 1] simp del: fun_upd_apply)
qed (rule redeem_steps_Redeem)

end
