(* ===== verification/RunnerStored.thy ===== *)
theory RunnerStored
  imports RunnerFaults
begin

text \<open>
  What the stores hold after any history of calls of the runner
  (\<open>internal/browser/runner.go\<close>), whatever fails in it, and what can be done from there.
\<close>

section \<open>What the stores look like\<close>

text \<open>
  Sessions are well-formed, a token belongs to a stored session, and what was announced to
  the human was stored before.
\<close>

definition announced_ok :: "golib \<Rightarrow> string set \<Rightarrow> (string \<times> string \<times> string \<times> string) list \<Rightarrow> bool" where
  "announced_ok lib H notes \<longleftrightarrow> (\<forall>sid aid reason url. (sid, aid, reason, url) \<in> set notes \<longrightarrow>
     (\<exists>raw. url = ''/recovery/'' @ raw \<and> HashRecoveryToken lib raw \<in> H))"

lemma announced_ok_mono: "announced_ok lib H notes \<Longrightarrow> H \<subseteq> K \<Longrightarrow> announced_ok lib K notes"
  unfolding announced_ok_def by blast

lemma announced_ok_snoc:
  "announced_ok lib H notes \<Longrightarrow> HashRecoveryToken lib raw \<in> H \<Longrightarrow>
   announced_ok lib H (notes @ [(sid, aid, reason, ''/recovery/'' @ raw)])"
  by (auto simp: announced_ok_def)

definition stored_ok :: "golib \<Rightarrow> browser_world \<Rightarrow> bool" where
  "stored_ok lib w \<longleftrightarrow>
     (\<forall>i s. sessions_of w i = Some s \<longrightarrow> sess_ID s = i \<and> session_ok s)
   \<and> (\<forall>h e. bw_tokens w h = Some e \<longrightarrow> sessions_of w (ent_sessionID e) \<noteq> None)
   \<and> announced_ok lib (dom (bw_tokens w)) (bw_notes w)"

lemma stored_ok_core: "core w' = core w \<Longrightarrow> stored_ok lib w \<Longrightarrow> stored_ok lib w'"
  by (simp add: stored_ok_def core_def)

lemma keeps_stored:
  assumes "leaves (\<lambda>v. core (fst v)) m"
  shows "keeps (\<lambda>v. stored_ok lib (fst v)) m"
  unfolding keeps_hoare by (rule hoareI) (use leavesD [OF assms] stored_ok_core in blast)

lemma stored_save:
  assumes "session_ok s"
  shows "hoare (\<lambda>v. stored_ok lib (fst v)) (saveSession (test_faulty lims t) s)
    (\<lambda>res v. stored_ok lib (fst v)
       \<and> (res = (s, None) \<and> sessions_of (fst v) (sess_ID s) \<noteq> None \<or> (\<exists>e. res = (zeroSession, Some e))))"
proof (rule hoareI)
  fix v res v'
  assume v: "stored_ok lib (fst v)" and run: "run_state (saveSession (test_faulty lims t) s) v = (res, v')"
  have ok: "stored_ok lib w' \<and> sessions_of w' (sess_ID s) \<noteq> None"
    if "run_state (saveSession (test_runner lims t) s) (fst v) = (res', w')" for res' w'
    using test_save [OF that] v assms by (simp add: stored_ok_def)
  from faulty_save_cases [OF run] v
  show "stored_ok lib (fst v')
    \<and> (res = (s, None) \<and> sessions_of (fst v') (sess_ID s) \<noteq> None \<or> (\<exists>e. res = (zeroSession, Some e)))"
    using ok test_save by metis
qed

text \<open>The token that is announced is the one that was saved.\<close>

lemma stored_issue:
  "hoare (\<lambda>v. stored_ok lib (fst v) \<and> sessions_of (fst v) (sess_ID s) \<noteq> None)
    (issue_recovery lib (faulty_bytes b) (test_faulty lims t) s reason) (\<lambda>_ v. stored_ok lib (fst v))"
proof -
  let ?P = "\<lambda>v. stored_ok lib (fst v) \<and> sessions_of (fst v) (sess_ID s) \<noteq> None"
  let ?tok = "\<lambda>raw v. stored_ok lib (fst v) \<and> bw_tokens (fst v) (HashRecoveryToken lib raw) \<noteq> None"
  have now: "hoare ?P (run_Now (test_faulty lims t)) (\<lambda>_. ?P)"
    by (auto simp: hoare_def test_runner_simps split: prod.splits)
  have new: "hoare ?P (NewRecoveryToken lib (faulty_bytes b) i u ttl)
      (\<lambda>r v. (\<forall>tok. r = Inr tok \<longrightarrow> tok_Hash tok = HashRecoveryToken lib (tok_Raw tok)) \<and> ?P v)" for i u ttl
    by (auto simp: hoare_def NewRecoveryToken_def faulty_rand_def or_fail_def test_rand_def Let_def
        split: prod.splits option.splits list.splits fault.splits)
  have "hoare (\<lambda>w. stored_ok lib w \<and> sessions_of w (sess_ID s) \<noteq> None)
      (SaveTokenHash (run_Tokens (test_runner lims t)) (HashRecoveryToken lib raw) (sess_ID s) u)
      (\<lambda>err w. stored_ok lib w \<and> (err = None \<longrightarrow> bw_tokens w (HashRecoveryToken lib raw) \<noteq> None))" for raw u
  proof (rule hoareI)
    fix w err w'
    assume w: "stored_ok lib w \<and> sessions_of w (sess_ID s) \<noteq> None"
      and run: "run_state (SaveTokenHash (run_Tokens (test_runner lims t)) (HashRecoveryToken lib raw) (sess_ID s) u) w
        = (err, w')"
    from w have "announced_ok lib (insert (HashRecoveryToken lib raw) (dom (bw_tokens w))) (bw_notes w)"
      by (auto simp: stored_ok_def intro: announced_ok_mono)
    with w run show "stored_ok lib w' \<and> (err = None \<longrightarrow> bw_tokens w' (HashRecoveryToken lib raw) \<noteq> None)"
      by (auto simp: stored_ok_def test_runner_simps on_tokens_def fakeTokenStore_ops_def split: if_splits)
  qed
  from hoare_or_fail [OF this] have save: "hoare ?P
      (or_fail unavailable (SaveTokenHash (run_Tokens (test_runner lims t)) (tok_Hash tok) (sess_ID s) u))
      (\<lambda>err v. stored_ok lib (fst v)
         \<and> (err = None \<longrightarrow> bw_tokens (fst v) (HashRecoveryToken lib (tok_Raw tok)) \<noteq> None))"
    if "tok_Hash tok = HashRecoveryToken lib (tok_Raw tok)" for tok u
    using that by simp
  have "hoare (\<lambda>w. stored_ok lib w \<and> bw_tokens w (HashRecoveryToken lib raw) \<noteq> None)
      (NotifyHumanRequired fakeNotifier_ops a c m (''/recovery/'' @ raw)) (\<lambda>_. stored_ok lib)" for raw a c m
    by (rule hoareI) (auto simp: stored_ok_def fakeNotifier_ops_def simp del: append_Cons intro: announced_ok_snoc)
  from hoare_or_fail [OF this] have notify: "hoare (?tok raw)
      (or_fail unavailable (NotifyHumanRequired fakeNotifier_ops a c m (''/recovery/'' @ raw)))
      (\<lambda>_ v. stored_ok lib (fst v))" for raw a c m by simp
  have notifier: "run_Notifier (test_faulty lims t)
      = Some \<lparr>NotifyHumanRequired = (\<lambda>s a reason url. or_fail unavailable (NotifyHumanRequired fakeNotifier_ops s a reason url))\<rparr>"
    by (simp add: faulty_def test_runner_simps)
  show ?thesis
    unfolding issue_recovery_def notifier option.case Let_def faulty_simps(12) Notifier.select_convs
    by (intro hoare_bind [OF now] hoare_bind [OF new] hoare_sum hoare_pure hoare_bind [OF save] hoare_option
          hoare_bind [OF hoare_pre [OF notify]] hoare_return) auto
qed

interpretation stores: runner_inv "test_faulty lims t" lib "faulty_bytes b" "\<lambda>v. stored_ok lib (fst v)"
    "\<lambda>s v. sessions_of (fst v) (sess_ID s) \<noteq> None" "\<lambda>_. True" session_ok
  for lims t lib b
proof
  show "session_ok s \<Longrightarrow> hoare (\<lambda>v. stored_ok lib (fst v)) (saveSession (test_faulty lims t) s)
      (\<lambda>res v. stored_ok lib (fst v)
         \<and> (res = (s, None) \<and> sessions_of (fst v) (sess_ID s) \<noteq> None \<or> (\<exists>e. res = (zeroSession, Some e))))" for s
    by (rule stored_save)
  show "hoare (\<lambda>v. stored_ok lib (fst v) \<and> sessions_of (fst v) (sess_ID s) \<noteq> None)
      (issue_recovery lib (faulty_bytes b) (test_faulty lims t) s reason) (\<lambda>_ v. stored_ok lib (fst v))" for s reason
    by (rule stored_issue)
qed (simp_all add: keeps_stored core_left_faulty session_ok_states)

lemma stored_Redeem: "keeps (\<lambda>v. stored_ok lib (fst v)) (Redeem lib (run_Tokens (test_faulty lims t)) raw now)"
  unfolding keeps_hoare
proof (rule hoareI)
  fix v red v'
  assume v: "stored_ok lib (fst v)"
    and run: "run_state (Redeem lib (run_Tokens (test_faulty lims t)) raw now) v = (red, v')"
  from faulty_Redeem [OF run] consider "core (fst v') = core (fst v)"
    | e where "bw_tokens (fst v) (HashRecoveryToken lib raw) = Some e" "sessions_of (fst v') = sessions_of (fst v)"
      "bw_tokens (fst v') = (bw_tokens (fst v))(HashRecoveryToken lib raw \<mapsto> e\<lparr>ent_revoked := True\<rparr>)" by blast
  then show "stored_ok lib (fst v')"
  proof cases
    case 1
    with v show ?thesis by (rule stored_ok_core [rotated])
  next
    case (2 e)
    note e = 2(1) and s = 2(2) and t = 2(3)
    have "leaves (\<lambda>v. bw_notes (fst v)) (Redeem lib (run_Tokens (test_faulty lims t)) raw now)"
      by (rule leaves_Redeem_faulty) (simp_all add: leaves_def test_runner_simps on_tokens_def split: prod.splits)
    from leavesD [OF this run] have "bw_notes (fst v') = bw_notes (fst v)" .
    moreover have "dom (bw_tokens (fst v')) = dom (bw_tokens (fst v))" using e by (auto simp: t)
    ultimately show ?thesis using v e by (auto simp: stored_ok_def s t split: if_splits)
  qed
qed

lemma fault_step_stored: "fault_step lib w ev w' \<Longrightarrow> stored_ok lib w \<Longrightarrow> stored_ok lib w'"
proof (induction rule: fault_step.induct)
  case (start b lims t inp w plan res w' plan')
  have "keeps (\<lambda>v. stored_ok lib (fst v)) (run_Start lib (faulty_bytes b) (test_faulty lims t) inp)"
    by (rule stores.start) (simp_all add: keeps_stored core_left_faulty session_ok_states)
  from keepsD [OF this, of "(w, plan)"] start show ?case by simp
next
  case (resume b lims t raw fvs w plan res w' plan')
  have "keeps (\<lambda>v. stored_ok lib (fst v)) (run_Resume lib (faulty_bytes b) (test_faulty lims t) raw fvs)"
    by (rule stores.resume) (simp_all add: stored_Redeem keeps_stored core_left_faulty session_ok_states)
  from keepsD [OF this, of "(w, plan)"] resume show ?case by simp
next
  case (submit b lims t inp w plan res w' plan')
  have "keeps (\<lambda>v. stored_ok lib (fst v)) (run_Submit lib (faulty_bytes b) (test_faulty lims t) inp)"
    by (rule stores.submit) (simp_all add: session_ok_states)
  from keepsD [OF this, of "(w, plan)"] submit show ?case by simp
next
  case (page w d e)
  then show ?case by (rule stored_ok_core [rotated]) (simp add: core_def)
qed

lemma fault_runs_stored: "fault_runs lib w evs w' \<Longrightarrow> stored_ok lib w \<Longrightarrow> stored_ok lib w'"
  by (induction rule: fault_runs.induct) (auto dest: fault_step_stored)

lemma world_with_stored: "stored_ok lib (world_with d)"
  by (simp add: stored_ok_def announced_ok_def world_with_def newFakeSessionStore_def)

lemmas stored_reachable = fault_runs_stored [OF _ world_with_stored]

section \<open>Properties\<close>

text \<open>
  C10. What the stores look like after any history of calls, whatever fails in it: a session
  is stored under its own id, in one of the six states the runner sets, and one in
  HUMAN_REQUIRED has the flag and a reason; every recovery token belongs to a stored session;
  and every address the human was sent is \<open>/recovery/\<close> with a token whose hash is stored.
  If nothing fails, the hashes stored are exactly those of the announced tokens.
\<close>

theorem runner_store_invariant:
  assumes "fault_runs lib (world_with d) evs w"
  shows "(\<forall>i s. fss_sessions (bw_sessions w) i = Some s \<longrightarrow> sess_ID s = i
        \<and> sess_State s \<in> {SessionRunning, SessionHumanReq, SessionResumed, SessionCompleted, SessionFailed, SessionExpired}
        \<and> (sess_State s = SessionHumanReq \<longrightarrow> sess_HumanRequired s \<and> sess_FailureReason s \<noteq> []))
    \<and> (\<forall>h e. bw_tokens w h = Some e \<longrightarrow> fss_sessions (bw_sessions w) (ent_sessionID e) \<noteq> None)
    \<and> (\<forall>sid aid reason url. (sid, aid, reason, url) \<in> set (bw_notes w)
        \<longrightarrow> (\<exists>raw. url = ''/recovery/'' @ raw \<and> HashRecoveryToken lib raw \<in> dom (bw_tokens w)))
    \<and> (runner_runs lib (world_with d) evs w \<longrightarrow> dom (bw_tokens w)
        = {HashRecoveryToken lib raw | raw. \<exists>sid aid reason. (sid, aid, reason, ''/recovery/'' @ raw) \<in> set (bw_notes w)})"
  (is "?A \<and> ?B \<and> ?C \<and> (_ \<longrightarrow> ?D)")
proof (intro conjI impI)
  have w: "stored_ok lib w" by (rule stored_reachable [OF assms])
  from w show ?A unfolding stored_ok_def session_ok_def by blast
  from w show ?B unfolding stored_ok_def by blast
  from w show ?C unfolding stored_ok_def announced_ok_def by blast
  show ?D if "runner_runs lib (world_with d) evs w"
    by (rule sys_inv_dom [OF reachable_inv [OF that]])
qed

theorem runner_store_invariant_witness:
  "\<forall>lib. \<exists>inp res w. runner_runs lib (world_with (fake_driver [] StateSubmitted)) [EvSubmit inp (res, None)] w
    \<and> dom (bw_tokens w)
        = {HashRecoveryToken lib raw | raw. \<exists>sid aid reason. (sid, aid, reason, ''/recovery/'' @ raw) \<in> set (bw_notes w)}"
  (is "\<forall>lib. ?P lib")
proof
  fix lib
  from sample_submit obtain inp res w where r: "runner_runs lib (world_with (fake_driver [] StateSubmitted))
      [EvSubmit inp (res, None)] w" by metis
  note D = runner_store_invariant [OF runner_runs_fault [OF r], THEN conjunct2, THEN conjunct2, THEN conjunct2,
      THEN mp, OF r]
  show "?P lib" by (intro exI conjI) (rule r, rule D)
qed

text \<open>
  C11. No open human handoff is a dead end: after any history of calls, whatever failed in it,
  as long as a recovery token is live, its session waits for the human and has not expired,
  one use of it while the page is normal again takes exactly the session the token was issued
  for to RESUMED and ready for review, and the result is what the store then holds.
\<close>

theorem handoff_never_stuck:
  assumes "fault_runs lib (world_with d) evs w"
    and "bw_tokens w (HashRecoveryToken lib raw) = Some e" and "entry_live e t"
    and "sess_State (fss_get (bw_sessions w) (ent_sessionID e)) = SessionHumanReq"
    and "\<not> IsExpired (fss_get (bw_sessions w) (ent_sessionID e)) t"
  shows "\<exists>d' res w'. runner_runs lib w [EvPage d' None, EvResume raw (res, None)] w'
    \<and> rslt_Outcome res = ''ready_for_review'' \<and> sess_ID (rslt_Session res) = ent_sessionID e
    \<and> sess_State (rslt_Session res) = SessionResumed
    \<and> fss_get (bw_sessions w') (ent_sessionID e) = rslt_Session res"
proof -
  let ?d = "fake_driver [StateNormal] StateNormal"
  let ?w = "w\<lparr>bw_driver := ?d, bw_noteErr := None\<rparr>"
  let ?s = "fss_get (bw_sessions w) (ent_sessionID e)"
  from stored_reachable [OF assms(1)] assms(2) obtain s where
    s: "fss_sessions (bw_sessions w) (ent_sessionID e) = Some s" unfolding stored_ok_def by blast
  with stored_reachable [OF assms(1)] have id: "sess_ID ?s = ent_sessionID e"
    by (simp add: fss_get_def stored_ok_def)
  obtain s2 w2 where r: "run_state (run_Resume lib (test_rand []) (test_runner sample_limits t) raw []) ?w
      = ((\<lparr>rslt_Session = s2, rslt_Outcome = ''ready_for_review''\<rparr>, None), w2)"
    and s2: "sess_ID s2 = sess_ID ?s" "sess_State s2 = SessionResumed"
    using test_resume [of ?w lib raw e t ?s "[]" sample_limits "[]"] assms(2,3,5)
    by (auto simp: entry_live_def fake_driver_def)
  have "runner_runs lib w ([] @ [EvPage ?d None]) ?w"
    by (rule runner_runs.more [OF runner_runs.none runner_step.page])
  from runner_runs.more [OF this runner_step.resume [OF r]]
  have "runner_runs lib w [EvPage ?d None, EvResume raw (\<lparr>rslt_Session = s2, rslt_Outcome = ''ready_for_review''\<rparr>, None)] w2"
    by simp
  moreover have "fss_get (bw_sessions w2) (sess_ID s2) = s2"
    using hoareD [OF test_run.hoare_Resume TrueI r]
    by (simp add: test_run.result_ok_def test_run.persisted_def bw_session_def)
  ultimately show ?thesis using s2 id by (metis Result.select_convs)
qed

theorem handoff_never_stuck_witness:
  "\<forall>lib. \<exists>inp res0 w d' res w'. runner_runs lib (world_with (fake_driver [] StateCaptcha)) [EvSubmit inp (res0, None)] w
    \<and> runner_runs lib w [EvPage d' None,
        EvResume (b64_RawURL ''0123456789abcdef0123456789abcdef'') (res, None)] w'
    \<and> rslt_Outcome res = ''ready_for_review'' \<and> sess_State (rslt_Session res) = SessionResumed"
proof
  fix lib
  have "length ''0123456789abcdef0123456789abcdef'' = 32" by simp
  from sample_pause [OF this] obtain inp res0 w e where
    r: "runner_runs lib (world_with (fake_driver [] StateCaptcha)) [EvSubmit inp (res0, None)] w"
    and e: "bw_tokens w (HashRecoveryToken lib (b64_RawURL ''0123456789abcdef0123456789abcdef'')) = Some e"
      "entry_live e zeroTime" "sess_State (fss_get (bw_sessions w) (ent_sessionID e)) = SessionHumanReq"
      "\<not> IsExpired (fss_get (bw_sessions w) (ent_sessionID e)) zeroTime" by metis
  from handoff_never_stuck [OF runner_runs_fault [OF r] e] r
  show "\<exists>inp res0 w d' res w'. runner_runs lib (world_with (fake_driver [] StateCaptcha)) [EvSubmit inp (res0, None)] w
    \<and> runner_runs lib w [EvPage d' None,
        EvResume (b64_RawURL ''0123456789abcdef0123456789abcdef'') (res, None)] w'
    \<and> rslt_Outcome res = ''ready_for_review'' \<and> sess_State (rslt_Session res) = SessionResumed" by blast
qed

end
