(* ===== verification/RunnerBudget.thy ===== *)
theory RunnerBudget
  imports RunnerStored
begin

text \<open>
  The daily limit of browser sessions (\<open>Start\<close> in \<open>internal/browser/runner.go\<close>): how the
  calls of the runner change the number of sessions the store has seen start, whatever of
  its environment fails and whether or not what failed had taken effect.  \<open>budget_runs\<close>
  collects the histories in which every \<open>Start\<close> has a limit, and counts in them the one way
  around it: \<open>Submit\<close> stores a session that the store does not know, without asking for the
  limit.
\<close>

section \<open>The daily budget of sessions\<close>

text \<open>How many sessions the store has seen start since \<open>d\<close>, the number \<open>Start\<close> asks for.\<close>

definition started_since :: "Time \<Rightarrow> browser_world \<Rightarrow> int" where
  "started_since d w = int (length (filter (\<lambda>t. \<not> time_Before t d) (fss_started (bw_sessions w))))"

definition started_fixed :: "Time list \<Rightarrow> string set \<Rightarrow> browser_world \<Rightarrow> bool" where
  "started_fixed L D w \<longleftrightarrow> fss_started (bw_sessions w) = L \<and> (\<forall>i \<in> D. is_stored i w)"

definition fixed_part :: "browser_world \<Rightarrow> Time list \<times> (string \<rightharpoonup> Session)" where
  "fixed_part w = (fss_started (bw_sessions w), fss_sessions (bw_sessions w))"

lemma started_fixed_part: "started_fixed L D w \<longleftrightarrow> (case fixed_part w of (l, m) \<Rightarrow> l = L \<and> (\<forall>i \<in> D. m i \<noteq> None))"
  by (simp add: started_fixed_def fixed_part_def is_stored_def)

lemma keeps_fixed: "leaves (\<lambda>v. fixed_part (fst v)) m \<Longrightarrow> keeps (\<lambda>v. started_fixed L D (fst v)) m"
  unfolding started_fixed_part by (rule leaves_keeps)

lemma fixed_left:
  "leaves fixed_part (run_Now (test_runner lims t))" "leaves fixed_part (run_NewID (test_runner lims t))"
  "leaves fixed_part (drv_Launch (run_Driver (test_runner lims t)))"
  "leaves fixed_part (drv_Navigate (run_Driver (test_runner lims t)) url)"
  "leaves fixed_part (drv_Fill (run_Driver (test_runner lims t)) fvs)"
  "leaves fixed_part (drv_DetectState (run_Driver (test_runner lims t)))"
  "leaves fixed_part (drv_Screenshot (run_Driver (test_runner lims t)))"
  "leaves fixed_part (drv_CurrentURL (run_Driver (test_runner lims t)))"
  "leaves fixed_part (drv_Submit (run_Driver (test_runner lims t)) sel)"
  "leaves fixed_part (SaveScreenshot (run_Screens (test_runner lims t)) k shot)"
  "leaves fixed_part (SaveCheckpoint (run_Sessions (test_runner lims t)) c)"
  "leaves fixed_part (GetSession (run_Sessions (test_runner lims t)) k)"
  by (simp_all add: leaves_def fixed_part_def test_runner_simps on_driver_def test_newID_def fakeScreenshotStore_Save_def
      on_sessions_def fakeSessionStore_ops_def Let_def split: prod.splits)

lemmas fixed_left_faulty = fixed_left [THEN leaves_or_fail] fixed_left(1,2) [THEN leaves_on_fst]

lemma leaves_fixed_issue:
  "leaves (\<lambda>v. fixed_part (fst v)) (issue_recovery lib (faulty_bytes b) (test_faulty lims t) s reason)"
  by (rule leaves_issue_faulty)
     (simp_all add: leaves_def fixed_part_def test_runner_simps on_tokens_def fakeNotifier_ops_def split: prod.splits)

lemma leaves_fixed_Redeem: "leaves (\<lambda>v. fixed_part (fst v)) (Redeem lib (run_Tokens (test_faulty lims t)) raw now)"
  by (rule leaves_Redeem_faulty) (simp_all add: leaves_def fixed_part_def test_runner_simps on_tokens_def split: prod.splits)

text \<open>A save counts as a start if its session was not stored before.\<close>

lemma test_save_started:
  assumes "run_state (saveSession (test_runner lims t) s) w = (res, w')"
  shows "fss_started (bw_sessions w') = fss_started (bw_sessions w)
      @ (if is_stored (sess_ID s) w then [] else [sess_StartedAt s])
    \<and> (\<forall>i. is_stored i w' \<longleftrightarrow> is_stored i w \<or> i = sess_ID s)"
  using assms
  by (auto simp: saveSession_def test_runner_simps on_sessions_def fakeSessionStore_ops_def is_stored_def Let_def
      split: if_splits)

lemma save_started:
  "hoare (\<lambda>v. fss_started (bw_sessions (fst v)) = L) (saveSession (test_faulty lims t) s)
    (\<lambda>res v. res = (s, None) \<and> (started_fixed L {sess_ID s} (fst v) \<or> started_fixed (L @ [sess_StartedAt s]) {sess_ID s} (fst v))
       \<or> (\<exists>e. res = (zeroSession, Some e)) \<and> fss_started (bw_sessions (fst v)) \<in> {L, L @ [sess_StartedAt s]})"
  (is "hoare _ _ ?Q")
proof (rule hoareI)
  fix v res v'
  assume v: "fss_started (bw_sessions (fst v)) = L" and run: "run_state (saveSession (test_faulty lims t) s) v = (res, v')"
  have saved: "res' = (s, None)
      \<and> (started_fixed L {sess_ID s} w' \<or> started_fixed (L @ [sess_StartedAt s]) {sess_ID s} w')"
    if "run_state (saveSession (test_runner lims t) s) (fst v) = (res', w')" for res' w'
    using test_save [OF that] test_save_started [OF that] v by (auto simp: started_fixed_def)
  from faulty_save_cases [OF run] v saved show "?Q res v'"
    by (auto simp: started_fixed_def dest!: saved)
qed

text \<open>Once its session is stored, nothing the runner does counts as another start.\<close>

interpretation budget: runner_inv "test_faulty lims t" lib "faulty_bytes b" "\<lambda>v. started_fixed L D (fst v)" "\<lambda>_ _. True"
    "\<lambda>s. sess_ID s \<in> D" "\<lambda>s. sess_ID s \<in> D"
  for lims t lib b L D
proof
  show "hoare (\<lambda>v. started_fixed L D (fst v)) (saveSession (test_faulty lims t) s)
      (\<lambda>res v. started_fixed L D (fst v) \<and> (res = (s, None) \<and> True \<or> (\<exists>e. res = (zeroSession, Some e))))"
    if "sess_ID s \<in> D" for s
  proof (rule hoareI)
    fix v res v'
    assume v: "started_fixed L D (fst v)" and run: "run_state (saveSession (test_faulty lims t) s) v = (res, v')"
    have "started_fixed L D w' \<and> res' = (s, None)"
      if "run_state (saveSession (test_runner lims t) s) (fst v) = (res', w')" for res' w'
      using test_save [OF that] test_save_started [OF that] v \<open>sess_ID s \<in> D\<close> by (auto simp: started_fixed_def)
    with faulty_save_cases [OF run] v
    show "started_fixed L D (fst v') \<and> (res = (s, None) \<and> True \<or> (\<exists>e. res = (zeroSession, Some e)))" by metis
  qed
  show "hoare (\<lambda>v. started_fixed L D (fst v) \<and> True) (issue_recovery lib (faulty_bytes b) (test_faulty lims t) s reason)
      (\<lambda>_ v. started_fixed L D (fst v))" for s reason
    using keeps_fixed [OF leaves_fixed_issue] by (simp add: keeps_hoare)
qed (simp_all add: keeps_fixed fixed_left_faulty)

lemma keeps_both:
  assumes "keeps (\<lambda>v. started_fixed L D (fst v)) m" and "keeps (\<lambda>v. started_fixed L' D (fst v)) m"
  shows "hoare (\<lambda>v. started_fixed L D (fst v) \<or> started_fixed L' D (fst v)) m
    (\<lambda>_ v. started_fixed L D (fst v) \<or> started_fixed L' D (fst v))"
  using assms by (auto simp: hoare_def keeps_def)

lemma Start_started:
  "hoare (\<lambda>v. fss_started (bw_sessions (fst v)) = L) (run_Start lib (faulty_bytes b) (test_faulty lims t) inp)
    (\<lambda>_ v. fss_started (bw_sessions (fst v)) = L
       \<or> (int (length (filter (\<lambda>u. \<not> time_Before u (startOfDay t)) L)) < lim_BrowserSessionsPerDay lims
          \<and> fss_started (bw_sessions (fst v)) = L @ [t]))"
  (is "hoare ?P _ (\<lambda>_ v. ?Q v)")
proof -
  let ?r = "test_faulty lims t"
  let ?n = "\<lambda>d. int (length (filter (\<lambda>u. \<not> time_Before u d) L))"
  have day: "hoare ?P (run_startOfToday ?r) (\<lambda>d v. d = startOfDay t \<and> ?P v)"
    by (simp add: hoare_def run_startOfToday_def test_runner_simps split: prod.splits)
  have "hoare (\<lambda>w. fss_started (bw_sessions w) = L) (CountStartedSince (run_Sessions (test_runner lims t)) d)
      (\<lambda>res w. (snd res = None \<longrightarrow> fst res = ?n d) \<and> fss_started (bw_sessions w) = L)" for d
    by (simp add: hoare_def test_runner_simps on_sessions_def fakeSessionStore_ops_def)
  from hoare_or_fail [OF this] have count: "hoare ?P (CountStartedSince (run_Sessions ?r) d)
      (\<lambda>res v. (snd res = None \<longrightarrow> fst res = ?n d) \<and> ?P v)" for d by simp
  have now: "hoare ?P (run_Now ?r) (\<lambda>x v. x = t \<and> ?P v)"
    by (simp add: hoare_def test_runner_simps split: prod.splits)
  have "hoare (\<lambda>w. fss_started (bw_sessions w) = L) (drv_Launch (run_Driver (test_runner lims t)))
      (\<lambda>_ w. fss_started (bw_sessions w) = L)"
    by (simp add: hoare_def test_runner_simps on_driver_def split: prod.splits)
  from hoare_or_fail [OF this] have launch: "hoare ?P (drv_Launch (run_Driver ?r)) (\<lambda>_. ?P)" by simp
  have new: "hoare ?P (run_NewID ?r) (\<lambda>_. ?P)"
    by (simp add: hoare_def test_runner_simps test_newID_def split: prod.splits)
  have saved: "hoare ?P (State_Monad.bind (saveSession ?r s) f)
      (\<lambda>_ v. fss_started (bw_sessions (fst v)) = L \<or> fss_started (bw_sessions (fst v)) = L @ [t])"
    if "sess_StartedAt s = t" and "\<And>L. keeps (\<lambda>v. started_fixed L {sess_ID s} (fst v)) (f (s, None))"
      and "\<And>e L. keeps (\<lambda>v. fss_started (bw_sessions (fst v)) = L) (f (zeroSession, Some e))" for s f
  proof (rule hoare_bind [OF save_started], rule hoareI)
    fix res v a v'
    assume v: "res = (s, None) \<and> (started_fixed L {sess_ID s} (fst v) \<or> started_fixed (L @ [sess_StartedAt s]) {sess_ID s} (fst v))
        \<or> (\<exists>e. res = (zeroSession, Some e)) \<and> fss_started (bw_sessions (fst v)) \<in> {L, L @ [sess_StartedAt s]}"
      and run: "run_state (f res) v = (a, v')"
    from v show "fss_started (bw_sessions (fst v')) = L \<or> fss_started (bw_sessions (fst v')) = L @ [t]"
    proof (elim disjE [of "_ \<and> _"] conjE exE)
      assume res: "res = (s, None)"
        and v: "started_fixed L {sess_ID s} (fst v) \<or> started_fixed (L @ [sess_StartedAt s]) {sess_ID s} (fst v)"
      from hoareD [OF keeps_both [OF that(2) that(2)] v run [unfolded res]] that(1) show ?thesis
        by (auto simp: started_fixed_def)
    next
      fix e assume res: "res = (zeroSession, Some e)" and v: "fss_started (bw_sessions (fst v)) \<in> {L, L @ [sess_StartedAt s]}"
      from keepsD [OF that(3) refl run [unfolded res]] v that(1) show ?thesis by simp
    qed
  qed
  show ?thesis
    unfolding run_Start_def Let_def
    by (intro hoare_bind [OF day] hoare_bind [OF count] hoare_bind [OF now] hoare_bind [OF new]
          hoare_bind [OF launch] hoare_pure hoare_prod hoare_option hoare_if)
       (auto intro!: hoare_return saved simp: test_runner_simps keeps_return budget.navigate)
qed

lemma Resume_started:
  assumes "stored_ok lib (fst v)" and "run_state (run_Resume lib (faulty_bytes b) (test_faulty lims t) raw fvs) v = (res, v')"
  shows "fss_started (bw_sessions (fst v')) = fss_started (bw_sessions (fst v))"
proof -
  let ?r = "test_faulty lims t" and ?L = "fss_started (bw_sessions (fst v))"
  have now: "run_state (run_Now ?r) v = (t, v)"
    by (cases v) (simp add: test_runner_simps)
  obtain red v1 where red: "run_state (Redeem lib (run_Tokens ?r) raw t) v = (red, v1)" by (metis prod.collapse)
  from leavesD [OF leaves_fixed_Redeem this] have v1: "fixed_part (fst v1) = fixed_part (fst v)" .
  show ?thesis
  proof (cases red)
    case (Inl e)
    with assms(2) now red v1 show ?thesis by (auto simp: run_Resume_loaded fixed_part_def)
  next
    case (Inr sid)
    from faulty_Redeem [OF red] Inr obtain e where "bw_tokens (fst v) (HashRecoveryToken lib raw) = Some e"
      "ent_sessionID e = sid" by auto
    with assms(1) obtain s where s: "sessions_of (fst v) sid = Some s" "sess_ID s = sid"
      unfolding stored_ok_def by blast
    from s v1 have s1: "sessions_of (fst v1) sid = Some s" and st: "started_fixed ?L {sid} (fst v1)"
      by (auto simp: fixed_part_def started_fixed_def is_stored_def)
    obtain s' gerr v2 where g: "run_state (GetSession (run_Sessions ?r) sid) v1 = ((s', gerr), v2)" by (metis prod.collapse)
    from or_fail_cases [OF g [unfolded faulty_simps]] s1
    have g1: "fst v2 = fst v1" and g2: "gerr = None \<Longrightarrow> s' = s"
      by (auto simp: test_runner_simps on_sessions_def fakeSessionStore_ops_def fss_get_def)
    show ?thesis
    proof (cases gerr)
      case (Some x)
      with assms(2) now red Inr g have "v' = v2" by (simp add: run_Resume_loaded)
      with g1 st show ?thesis by (simp add: started_fixed_def)
    next
      case None
      with assms(2) now red Inr g g2 have "run_state (resume_loaded lib (faulty_bytes b) ?r fvs s) v2 = (res, v')"
        by (simp add: run_Resume_loaded)
      from keepsD [OF budget.resume_session _ this, of "{sid}" ?L] st g1 s(2) show ?thesis by (simp add: started_fixed_def)
    qed
  qed
qed

lemma Submit_started:
  assumes "is_stored (sess_ID (sub_Session inp)) (fst v)"
    and "run_state (run_Submit lib (faulty_bytes b) (test_faulty lims t) inp) v = (res, v')"
  shows "fss_started (bw_sessions (fst v')) = fss_started (bw_sessions (fst v))"
proof -
  let ?i = "sess_ID (sub_Session inp)" and ?r = "test_faulty lims t"
  have "keeps (\<lambda>v. started_fixed L {?i} (fst v)) (run_Submit lib (faulty_bytes b) ?r inp)" for L
    by (rule budget.submit) simp_all
  from keepsD [OF this, of "fss_started (bw_sessions (fst v))", OF _ assms(2)] assms(1) show ?thesis
    by (simp add: started_fixed_def)
qed

text \<open>A submission of a session that is not stored adds one start at most, at the time it carries.\<close>

definition started_once :: "Time list \<Rightarrow> string \<Rightarrow> Time \<Rightarrow> browser_world \<Rightarrow> bool" where
  "started_once L i x w \<longleftrightarrow> fss_started (bw_sessions w) = L
     \<or> fss_started (bw_sessions w) = L @ [x] \<and> is_stored i w"

lemma started_once_part:
  "started_once L i x w \<longleftrightarrow> (case fixed_part w of (l, m) \<Rightarrow> l = L \<or> l = L @ [x] \<and> m i \<noteq> None)"
  by (simp add: started_once_def fixed_part_def is_stored_def)

lemma keeps_once: "leaves (\<lambda>v. fixed_part (fst v)) m \<Longrightarrow> keeps (\<lambda>v. started_once L i x (fst v)) m"
  unfolding started_once_part by (rule leaves_keeps)

interpretation once: runner_inv "test_faulty lims t" lib "faulty_bytes b" "\<lambda>v. started_once L i x (fst v)" "\<lambda>_ _. True"
    "\<lambda>s. sess_ID s = i \<and> sess_StartedAt s = x" "\<lambda>s. sess_ID s = i \<and> sess_StartedAt s = x"
  for lims t lib b L i x
proof
  show "hoare (\<lambda>v. started_once L i x (fst v)) (saveSession (test_faulty lims t) s)
      (\<lambda>res v. started_once L i x (fst v) \<and> (res = (s, None) \<and> True \<or> (\<exists>e. res = (zeroSession, Some e))))"
    if s: "sess_ID s = i \<and> sess_StartedAt s = x" for s
  proof (rule hoareI)
    fix v res v'
    assume v: "started_once L i x (fst v)" and run: "run_state (saveSession (test_faulty lims t) s) v = (res, v')"
    have "started_once L i x w' \<and> res' = (s, None)"
      if "run_state (saveSession (test_runner lims t) s) (fst v) = (res', w')" for res' w'
      using test_save [OF that] test_save_started [OF that] v s by (auto simp: started_once_def)
    with faulty_save_cases [OF run] v
    show "started_once L i x (fst v') \<and> (res = (s, None) \<and> True \<or> (\<exists>e. res = (zeroSession, Some e)))" by metis
  qed
  show "hoare (\<lambda>v. started_once L i x (fst v) \<and> True) (issue_recovery lib (faulty_bytes b) (test_faulty lims t) s reason)
      (\<lambda>_ v. started_once L i x (fst v))" for s reason
    using keeps_once [OF leaves_fixed_issue] by (simp add: keeps_hoare)
qed (simp_all add: keeps_once fixed_left_faulty)

lemma Submit_unknown_started:
  assumes "run_state (run_Submit lib (faulty_bytes b) (test_faulty lims t) inp) v = (res, v')"
  shows "fss_started (bw_sessions (fst v')) \<in> {fss_started (bw_sessions (fst v)),
    fss_started (bw_sessions (fst v)) @ [sess_StartedAt (sub_Session inp)]}"
proof -
  let ?s = "sub_Session inp" and ?L = "fss_started (bw_sessions (fst v))"
  have "keeps (\<lambda>v. started_once ?L (sess_ID ?s) (sess_StartedAt ?s) (fst v))
      (run_Submit lib (faulty_bytes b) (test_faulty lims t) inp)"
    by (rule once.submit) simp_all
  from keepsD [OF this _ assms] show ?thesis by (auto simp: started_once_def)
qed

section \<open>Histories under a limit\<close>

text \<open>The sessions of a day: those whose start lies on it.\<close>

definition started_on :: "Time \<Rightarrow> browser_world \<Rightarrow> int" where
  "started_on day w = int (length (filter (\<lambda>u. startOfDay u = day) (fss_started (bw_sessions w))))"

lemma started_on_since: "started_on (startOfDay t) w \<le> started_since (startOfDay t) w"
proof -
  have "\<not> time_Before u (startOfDay t)" if "startOfDay u = startOfDay t" for u
    using startOfDay_bounds [of u] that by (simp add: time_Before_def)
  then have "length (filter (\<lambda>u. startOfDay u = startOfDay t) L)
      \<le> length (filter (\<lambda>u. \<not> time_Before u (startOfDay t)) L)" for L
    by (induction L) auto
  then show ?thesis by (simp add: started_on_def started_since_def)
qed

text \<open>
  \<open>budget_runs lib L day w evs n w'\<close>: a history of calls, at any times and with any faults, in
  which every \<open>Start\<close> has a limit of at most \<open>L\<close>; \<open>n\<close> is how often it submits a session that is
  not stored and carries a start on \<open>day\<close>.
\<close>

fun unknown_start :: "Time \<Rightarrow> browser_world \<Rightarrow> runner_event \<Rightarrow> nat" where
  "unknown_start day w (EvSubmit inp res) =
     (if fss_sessions (bw_sessions w) (sess_ID (sub_Session inp)) = None
         \<and> startOfDay (sess_StartedAt (sub_Session inp)) = day then 1 else 0)"
| "unknown_start day w _ = 0"

inductive budget_runs ::
    "golib \<Rightarrow> int \<Rightarrow> Time \<Rightarrow> browser_world \<Rightarrow> runner_event list \<Rightarrow> nat \<Rightarrow> browser_world \<Rightarrow> bool" for lib L day where
  none: "budget_runs lib L day w [] 0 w"
| start: "budget_runs lib L day w evs n w1 \<Longrightarrow> lim_BrowserSessionsPerDay lims \<le> L \<Longrightarrow>
    run_state (run_Start lib (faulty_bytes b) (test_faulty lims t) inp) (w1, plan) = (res, (w2, plan')) \<Longrightarrow>
    budget_runs lib L day w (evs @ [EvStart inp res]) n w2"
| other: "budget_runs lib L day w evs n w1 \<Longrightarrow> fault_step lib w1 ev w2 \<Longrightarrow> (\<And>inp res. ev \<noteq> EvStart inp res) \<Longrightarrow>
    budget_runs lib L day w (evs @ [ev]) (n + unknown_start day w1 ev) w2"

lemma budget_fault_runs: "budget_runs lib L day w evs n w' \<Longrightarrow> fault_runs lib w evs w'"
  by (induction rule: budget_runs.induct) (auto intro: fault_runs.intros fault_step.start)

lemma Start_on_day:
  assumes "run_state (run_Start lib (faulty_bytes b) (test_faulty lims t) inp) (w, plan) = (res, (w', plan'))"
  shows "started_on day w' \<le> max (started_on day w) (lim_BrowserSessionsPerDay lims)"
proof -
  from hoareD [OF Start_started refl assms]
  consider "fss_started (bw_sessions w') = fss_started (bw_sessions w)"
    | "started_since (startOfDay t) w < lim_BrowserSessionsPerDay lims"
      "fss_started (bw_sessions w') = fss_started (bw_sessions w) @ [t]"
    by (auto simp: started_since_def)
  then show ?thesis
    by cases (use started_on_since [of t w] in \<open>auto simp: started_on_def\<close>)
qed

lemma other_on_day:
  assumes "fault_step lib w ev w'" and "stored_ok lib w" and "\<And>inp res. ev \<noteq> EvStart inp res"
  shows "started_on day w' \<le> started_on day w + int (unknown_start day w ev)"
  using assms(1)
proof cases
  case (start b lims t inp plan res plan')
  with assms(3) show ?thesis by blast
next
  case (resume b lims t raw fvs plan res plan')
  from Resume_started [OF _ resume(2)] assms(2) show ?thesis by (simp add: started_on_def)
next
  case (submit b lims t inp plan res plan')
  from Submit_started [OF _ submit(2)] Submit_unknown_started [OF submit(2)] submit(1)
  show ?thesis by (auto simp: started_on_def is_stored_def)
qed (simp add: started_on_def)

lemma budget_runs_bound:
  assumes "budget_runs lib L day w evs n w'" and "stored_ok lib w" and "started_on day w \<le> max 0 L"
  shows "started_on day w' \<le> max 0 L + int n"
  using assms
proof (induction rule: budget_runs.induct)
  case (start w evs n w1 lims b t inp plan res w2 plan')
  from Start_on_day [OF start.hyps(3), of day] start show ?case by simp
next
  case (other w evs n w1 ev w2)
  have "stored_ok lib w1"
    by (rule fault_runs_stored [OF budget_fault_runs [OF other.hyps(1)] other.prems(1)])
  from other_on_day [OF other.hyps(2) this other.hyps(3), of day] other show ?case by simp
qed simp

section \<open>Properties\<close>

text \<open>
  C17. The daily budget of sessions: in every history of calls, at whatever times and
  whatever fails in it, when no \<open>Start\<close> has a limit above \<open>L\<close>, the number of sessions that
  start on one day stays within \<open>L\<close>, but for one more for each submission of a session that
  the store does not know and that carries a start on that day.  Without such submissions it
  is the limit that counts.
\<close>

theorem session_budget:
  assumes "budget_runs lib L day (world_with d) evs n w"
  shows "started_on day w \<le> max 0 L + int n"
proof -
  have "started_on day (world_with d) = 0"
    by (simp add: started_on_def world_with_def newFakeSessionStore_def)
  then show ?thesis by (intro budget_runs_bound [OF assms world_with_stored]) simp
qed

text \<open>
  A history of two calls of \<open>Start\<close> under the limit 1: the second is refused, and one session
  has started that day.
\<close>

abbreviation one_limit :: Limits where
  "one_limit \<equiv> \<lparr>lim_BrowserSessionsPerDay = 1, lim_MaxSessionMinutes = 30\<rparr>"

abbreviation empty_start :: StartInput where
  "empty_start \<equiv> \<lparr>st_ApplicationID = [], st_Platform = [], st_StartURL = [], st_Fields = []\<rparr>"

lemma first_start:
  "\<exists>res w. run_state (run_Start lib (test_rand b) (test_runner one_limit zeroTime) empty_start)
        (world_with (fake_driver [StateCaptcha] StateNormal)) = (res, w)
     \<and> fss_started (bw_sessions w) = [zeroTime]"
  by (simp add: run_Start_def run_startOfToday_def navigateAndFill_def fillAndCheckpoint_def handleNonNormalState_def
      run_isExpired_def IsExpired_def saveSession_def pauseForHuman_def take_screenshot_def
      issue_recovery_def NewRecoveryToken_def test_rand_def recoveryTokenBytes_def test_runner_simps on_driver_def
      on_sessions_def on_tokens_def fakeSessionStore_ops_def fakeTokenStore_ops_def fakeNotifier_ops_def
      fakeScreenshotStore_Save_def FakeDriver_Launch_def FakeDriver_Navigate_def FakeDriver_Fill_def
      FakeDriver_DetectState_def FakeDriver_Screenshot_def FakeDriver_CurrentURL_def test_newID_def
      world_with_def newFakeSessionStore_def fake_driver_def zeroSession_def time_defs time_Minute_def startOfDay_def
      nth_only wrap64_def Let_def)

lemma second_start:
  assumes "fss_started (bw_sessions w) = [zeroTime]"
  shows "\<exists>e. run_state (run_Start lib (test_rand b) (test_runner one_limit zeroTime) empty_start) w = ((zeroResult, Some e), w)"
  using assms
  by (simp add: run_Start_def run_startOfToday_def test_runner_simps on_sessions_def fakeSessionStore_ops_def
      time_defs startOfDay_def Let_def)

theorem session_budget_witness:
  "\<forall>lib. \<exists>res e w. budget_runs lib 1 (startOfDay zeroTime) (world_with (fake_driver [StateCaptcha] StateNormal))
       [EvStart empty_start res, EvStart empty_start (zeroResult, Some e)] 0 w
     \<and> fss_started (bw_sessions w) = [zeroTime] \<and> started_on (startOfDay zeroTime) w \<le> 1"
proof
  fix lib
  let ?w = "world_with (fake_driver [StateCaptcha] StateNormal)" and ?day = "startOfDay zeroTime"
  from first_start [of lib "[]"] obtain res w where
    1: "run_state (run_Start lib (test_rand []) (test_runner one_limit zeroTime) empty_start) ?w = (res, w)"
    and w: "fss_started (bw_sessions w) = [zeroTime]" by blast
  from second_start [OF w, of lib "[]"] obtain e where
    2: "run_state (run_Start lib (test_rand []) (test_runner one_limit zeroTime) empty_start) w = ((zeroResult, Some e), w)"
    by blast
  have lim: "lim_BrowserSessionsPerDay one_limit \<le> 1" by simp
  from budget_runs.start [OF budget_runs.start [OF budget_runs.none lim unfaultedD [OF unfaulted_calls(1) 1]]
      lim unfaultedD [OF unfaulted_calls(1) 2]]
  have r: "budget_runs lib 1 ?day ?w [EvStart empty_start res, EvStart empty_start (zeroResult, Some e)] 0 w" by simp
  from session_budget [OF r] have "started_on ?day w \<le> 1" by simp
  with r w show "\<exists>res e w. budget_runs lib 1 ?day ?w [EvStart empty_start res, EvStart empty_start (zeroResult, Some e)] 0 w
      \<and> fss_started (bw_sessions w) = [zeroTime] \<and> started_on ?day w \<le> 1" by blast
qed

text \<open>
  The way around the limit: under the limit 0, \<open>Submit\<close> of a session that is not stored
  stores it, and one session has started that day.
\<close>

lemma Submit_unknown_counts:
  assumes "gate_Passed g"
  shows "\<exists>res w. budget_runs lib 0 (startOfDay zeroTime) (world_with (fake_driver [] StateSubmitted))
       [EvSubmit \<lparr>sub_Session = zeroSession, sub_GateResult = g, sub_SubmitSelector = ''#go''\<rparr> res] 1 w
     \<and> started_on (startOfDay zeroTime) w = 1 \<and> rslt_Outcome (fst res) = ''submitted''"
proof -
  let ?w = "world_with (fake_driver [] StateSubmitted)"
  let ?inp = "\<lparr>sub_Session = zeroSession, sub_GateResult = g, sub_SubmitSelector = ''#go''\<rparr>"
  obtain res w where run: "run_state (run_Submit lib (test_rand b) (test_runner sample_limits zeroTime) ?inp) ?w = (res, w)"
    by fastforce
  have r: "started_on (startOfDay zeroTime) w = 1 \<and> rslt_Outcome (fst res) = ''submitted''"
    using run assms
    by (auto simp: run_Submit_def run_isExpired_def IsExpired_def saveSession_def test_runner_simps on_driver_def
        on_sessions_def fakeSessionStore_ops_def FakeDriver_Submit_def fake_driver_def zeroSession_def time_defs
        started_on_def world_with_def newFakeSessionStore_def startOfDay_def Let_def)
  have "fault_step lib ?w (EvSubmit ?inp res) w" by (rule runner_step_fault [OF runner_step.submit [OF run]])
  from budget_runs.other [OF budget_runs.none this, of 0 "startOfDay zeroTime"]
  have "budget_runs lib 0 (startOfDay zeroTime) ?w ([] @ [EvSubmit ?inp res]) (0 + unknown_start (startOfDay zeroTime) ?w (EvSubmit ?inp res)) w"
    by simp
  moreover have "unknown_start (startOfDay zeroTime) ?w (EvSubmit ?inp res) = 1"
    by (simp add: world_with_def newFakeSessionStore_def zeroSession_def)
  ultimately have "budget_runs lib 0 (startOfDay zeroTime) ?w [EvSubmit ?inp res] 1 w" by simp
  with r show ?thesis by blast
qed

end
