(* ===== verification/StartRace.thy ===== *)
theory StartRace
  imports RunnerBudget
begin

text \<open>
  Concurrent calls of \<open>Start\<close> (\<open>internal/browser/runner.go\<close>).  The daily limit is checked
  with one call of the session store and the session is saved with another, and nothing
  keeps a second \<open>Start\<close> from running between them.  The theory cuts \<open>Start\<close> between its
  count and its save, shows that the pieces run one after the other are \<open>Start\<close>, and lets
  any number of calls interleave over the runner of the tests, with faults in any of them.
\<close>

section \<open>A start in steps\<close>

text \<open>
  Where a call is: not begun, let through by the limit, launched (with the session it is
  about to save and the error of the launch), saved, or returned.  What follows the save,
  \<open>navigateAndFill\<close>, is one step: it asks nothing about the number of sessions.
\<close>

datatype start_pc =
    StartCalled | StartAllowed | StartLaunched Session error | StartSaved Session | StartDone "Result \<times> error"

fun start_step ::
    "golib \<Rightarrow> (nat \<Rightarrow> ('w, string \<times> error) state) \<Rightarrow> 'w Runner \<Rightarrow> StartInput \<Rightarrow> start_pc \<Rightarrow> ('w, start_pc) state" where
  "start_step lib rand_Read r inp StartCalled = do {
     day \<leftarrow> run_startOfToday r;
     (count, err) \<leftarrow> CountStartedSince (run_Sessions r) day;
     case err of
       Some e \<Rightarrow> ret (StartDone (zeroResult, Errorf ''browser: check session limit: '' e))
     | None \<Rightarrow>
         if count \<ge> lim_BrowserSessionsPerDay (run_Limits r) then
           ret (StartDone (zeroResult, NewError (''browser: daily browser session limit (''
                  @ strconv_Itoa (lim_BrowserSessionsPerDay (run_Limits r)) @ '') reached'')))
         else ret StartAllowed
   }"
| "start_step lib rand_Read r inp StartAllowed = do {
     now \<leftarrow> run_Now r;
     i \<leftarrow> run_NewID r;
     let session = zeroSession\<lparr>sess_ID := i, sess_ApplicationID := st_ApplicationID inp,
       sess_Platform := st_Platform inp, sess_State := SessionStarting, sess_StartedAt := now,
       sess_ExpiresAt := time_Add now (wrap64 (lim_MaxSessionMinutes (run_Limits r) * time_Minute))\<rparr>;
     lerr \<leftarrow> drv_Launch (run_Driver r);
     ret (StartLaunched session lerr)
   }"
| "start_step lib rand_Read r inp (StartLaunched session (Some e)) = do {
     let session = session\<lparr>sess_State := SessionFailed, sess_FailureReason := Error_msg e\<rparr>;
     (saved, saveErr) \<leftarrow> saveSession r session;
     case saveErr of
       Some se \<Rightarrow> ret (StartDone (zeroResult, Errorf (''browser: launch failed ('' @ Error_msg e
                         @ '') and save session also failed: '') se))
     | None \<Rightarrow> ret (StartDone (\<lparr>rslt_Session = saved, rslt_Outcome = ''failed''\<rparr>, Errorf ''browser: launch: '' e))
   }"
| "start_step lib rand_Read r inp (StartLaunched session None) = do {
     (session, serr) \<leftarrow> saveSession r (session\<lparr>sess_State := SessionRunning\<rparr>);
     case serr of
       Some e \<Rightarrow> ret (StartDone (zeroResult, Some e))
     | None \<Rightarrow> ret (StartSaved session)
   }"
| "start_step lib rand_Read r inp (StartSaved session) = do {
     res \<leftarrow> navigateAndFill lib rand_Read r session (st_StartURL inp) (st_Fields inp);
     ret (StartDone res)
   }"
| "start_step lib rand_Read r inp (StartDone res) = ret (StartDone res)"

declare start_step.simps(1-5) [simp del]

text \<open>Without interference the steps are \<open>Start\<close>, for every driver and store.\<close>

lemma start_steps_Start:
  "do { pc1 \<leftarrow> start_step lib rand_Read r inp StartCalled; pc2 \<leftarrow> start_step lib rand_Read r inp pc1;
        pc3 \<leftarrow> start_step lib rand_Read r inp pc2; start_step lib rand_Read r inp pc3 }
     = do { res \<leftarrow> run_Start lib rand_Read r inp; ret (StartDone res) }"
  by (rule state.expand)
    (auto simp: start_step.simps run_Start_def Let_def fun_eq_iff split: option.splits prod.splits)

lemma unfaulted_start_step:
  "unfaulted (start_step lib (faulty_rand rand_Read) (faulty r) inp pc) (start_step lib rand_Read r inp pc)"
proof (cases pc)
  case (StartLaunched session lerr)
  show ?thesis
    unfolding StartLaunched by (cases lerr) (simp_all only: start_step.simps, (intro unfaulted_rules unfaulted_parts)+)
qed (simp_all only: start_step.simps faulty_simps,
  (intro unfaulted_rules unfaulted_parts unfaulted_navigate)+)

section \<open>The effect of a step on the count\<close>

abbreviation started_at :: "browser_world \<Rightarrow> Time list" where
  "started_at w \<equiv> fss_started (bw_sessions w)"

definition stored_ids :: "browser_world \<Rightarrow> string set" where
  "stored_ids w = dom (fss_sessions (bw_sessions w))"

lemma started_fixed_ids: "started_fixed L D w \<longleftrightarrow> started_at w = L \<and> D \<subseteq> stored_ids w"
  by (auto simp: started_fixed_def is_stored_def stored_ids_def)

text \<open>A call is admitted from the moment the limit let it through until its session is saved.\<close>

fun admitted :: "start_pc \<Rightarrow> bool" where
  "admitted StartAllowed = True"
| "admitted (StartLaunched session lerr) = True"
| "admitted pc = False"

text \<open>The session of a call that has saved it is stored and running.\<close>

fun pc_ok :: "start_pc \<Rightarrow> browser_world \<Rightarrow> bool" where
  "pc_ok (StartSaved s) w = (sess_ID s \<in> stored_ids w \<and> sess_State s = SessionRunning)"
| "pc_ok pc w = True"

lemma step_Called:
  assumes "run_state (start_step lib (faulty_bytes b) (test_faulty lims t) inp StartCalled) v = (pc, v')"
  shows "fst v' = fst v \<and> (pc = StartAllowed \<and> started_since (startOfDay t) (fst v) < lim_BrowserSessionsPerDay lims
    \<or> (\<exists>res. pc = StartDone res))"
proof -
  obtain n err v1 where c: "run_state (CountStartedSince (run_Sessions (test_faulty lims t)) (startOfDay t)) v = ((n, err), v1)"
    by (metis prod.collapse)
  from or_fail_cases [OF c [unfolded faulty_simps]]
  have "fst v1 = fst v" and "err = None \<Longrightarrow> n = started_since (startOfDay t) (fst v)"
    by (auto simp: test_runner_simps on_sessions_def fakeSessionStore_ops_def started_since_def)
  moreover have "run_state (run_startOfToday (test_faulty lims t)) v = (startOfDay t, v)"
    by (cases v) (simp add: run_startOfToday_def test_runner_simps)
  ultimately show ?thesis
    using assms c by (auto simp: start_step.simps test_runner_simps simp del: faulty_simps(1-15) split: option.splits if_splits)
qed

lemma step_Allowed:
  assumes "run_state (start_step lib (faulty_bytes b) (test_faulty lims t) inp StartAllowed) v = (pc, v')"
  shows "bw_sessions (fst v') = bw_sessions (fst v) \<and> (\<exists>s lerr. pc = StartLaunched s lerr)"
proof -
  have "leaves (\<lambda>v. bw_sessions (fst v)) (start_step lib (faulty_bytes b) (test_faulty lims t) inp StartAllowed)"
    unfolding start_step.simps Let_def faulty_simps
    by (intro leaves_rules leaves_or_fail leaves_on_fst)
       (simp_all add: leaves_def test_runner_simps test_newID_def on_driver_def split: prod.splits)
  from leavesD [OF this assms] assms show ?thesis by (auto simp: start_step.simps Let_def split: prod.splits)
qed

lemma step_Launched:
  assumes "run_state (start_step lib (faulty_bytes b) (test_faulty lims t) inp (StartLaunched s lerr)) v = (pc, v')"
  shows "(started_at (fst v') = started_at (fst v) \<or> (\<exists>u. started_at (fst v') = started_at (fst v) @ [u]))
    \<and> stored_ids (fst v) \<subseteq> stored_ids (fst v') \<and> \<not> admitted pc \<and> pc_ok pc (fst v')"
proof -
  have saved: "(started_at (fst v1) = started_at (fst v) \<or> (\<exists>u. started_at (fst v1) = started_at (fst v) @ [u]))
      \<and> stored_ids (fst v) \<subseteq> stored_ids (fst v1) \<and> (res = (s', None) \<and> sess_ID s' \<in> stored_ids (fst v1) \<or> (\<exists>e. res = (zeroSession, Some e)))"
    if run: "run_state (saveSession (test_faulty lims t) s') v = (res, v1)" for s' res v1
  proof -
    have "(started_at w1 = started_at (fst v) \<or> (\<exists>u. started_at w1 = started_at (fst v) @ [u]))
        \<and> stored_ids (fst v) \<subseteq> stored_ids w1 \<and> res' = (s', None) \<and> sess_ID s' \<in> stored_ids w1"
      if "run_state (saveSession (test_runner lims t) s') (fst v) = (res', w1)" for res' w1
      using test_save [OF that] test_save_started [OF that] by (auto simp: stored_ids_def is_stored_def)
    with faulty_save_cases [OF run] show ?thesis by (metis order_refl)
  qed
  show ?thesis
  proof (cases lerr)
    case None
    obtain res v1 where "run_state (saveSession (test_faulty lims t) (s\<lparr>sess_State := SessionRunning\<rparr>)) v = (res, v1)"
      by (metis prod.collapse)
    with saved [OF this] assms None show ?thesis
      by (auto simp: start_step.simps split: option.splits)
  next
    case (Some e)
    obtain res v1 where "run_state (saveSession (test_faulty lims t)
        (s\<lparr>sess_State := SessionFailed, sess_FailureReason := Error_msg e\<rparr>)) v = (res, v1)"
      by (metis prod.collapse)
    with saved [OF this] assms Some show ?thesis
      by (auto simp: start_step.simps Let_def split: option.splits)
  qed
qed

lemma step_Saved:
  assumes "run_state (start_step lib (faulty_bytes b) (test_faulty lims t) inp (StartSaved s)) v = (pc, v')"
    and "pc_ok (StartSaved s) (fst v)"
  shows "started_at (fst v') = started_at (fst v) \<and> stored_ids (fst v) \<subseteq> stored_ids (fst v') \<and> (\<exists>res. pc = StartDone res)"
proof -
  obtain res where r: "run_state (navigateAndFill lib (faulty_bytes b) (test_faulty lims t) s (st_StartURL inp)
      (st_Fields inp)) v = (res, v')" and pc: "pc = StartDone res"
    using assms(1) by (auto simp: start_step.simps split: prod.splits)
  have "keeps (\<lambda>v. started_fixed (started_at w) (stored_ids w) (fst v))
      (navigateAndFill lib (faulty_bytes b) (test_faulty lims t) s (st_StartURL inp) (st_Fields inp))"
    if "pc_ok (StartSaved s) w" for w
    by (rule budget.navigate) (use that in auto)
  from keepsD [OF this [OF assms(2)] _ r] pc show ?thesis by (simp add: started_fixed_ids)
qed

section \<open>Interleaved starts\<close>

text \<open>
  Call \<open>i\<close> is made with the input \<open>inp i\<close> at the time \<open>now i\<close> and reads the random bytes
  \<open>b i\<close>.  A step of the system is a step of one call on the shared world, with faults by any
  plan, that leaves at most \<open>P\<close> calls admitted: \<open>P = 1\<close> is a lock around the check and the save, and a server with \<open>P\<close>
  workers never has more.
\<close>

type_synonym start_sys = "(nat \<Rightarrow> start_pc) \<times> browser_world"

inductive start_race ::
    "golib \<Rightarrow> (nat \<Rightarrow> string) \<Rightarrow> Limits \<Rightarrow> (nat \<Rightarrow> Time) \<Rightarrow> (nat \<Rightarrow> StartInput) \<Rightarrow> nat \<Rightarrow> start_sys \<Rightarrow> start_sys \<Rightarrow> bool"
  for lib b lims now inp P where
  step: "run_state (start_step lib (faulty_bytes (b i)) (test_faulty lims (now i)) (inp i) (pcs i)) (w, plan)
      = (pc, (w', plan')) \<Longrightarrow>
    card {j. admitted ((pcs(i := pc)) j)} \<le> P \<Longrightarrow>
    start_race lib b lims now inp P (pcs, w) (pcs(i := pc), w')"

abbreviation start_races ::
    "golib \<Rightarrow> (nat \<Rightarrow> string) \<Rightarrow> Limits \<Rightarrow> (nat \<Rightarrow> Time) \<Rightarrow> (nat \<Rightarrow> StartInput) \<Rightarrow> nat \<Rightarrow> start_sys \<Rightarrow> start_sys \<Rightarrow> bool" where
  "start_races lib b lims now inp P \<equiv> (start_race lib b lims now inp P)\<^sup>*\<^sup>*"

definition admitted_calls :: "start_sys \<Rightarrow> nat set" where
  "admitted_calls t = {i. admitted (fst t i)}"

lemma admitted_upd:
  "admitted_calls (pcs(i := pc), w') = (if admitted pc then insert i (admitted_calls (pcs, w)) else admitted_calls (pcs, w) - {i})"
  by (auto simp: admitted_calls_def)

text \<open>
  What every interleaving of starts of the day that begins at \<open>d\<close> keeps: each admitted call
  may still add one session, and no more than \<open>P\<close> of them were let through below the limit.
\<close>

definition start_inv :: "int \<Rightarrow> Time \<Rightarrow> Limits \<Rightarrow> nat \<Rightarrow> start_sys \<Rightarrow> bool" where
  "start_inv c0 d lims P t \<longleftrightarrow> finite (admitted_calls t)
     \<and> started_since d (snd t) + int (card (admitted_calls t))
         \<le> max c0 (lim_BrowserSessionsPerDay lims - 1 + int P)
     \<and> (\<forall>i. pc_ok (fst t i) (snd t))"

lemma start_inv_init: "start_inv (started_since d w) d lims P (\<lambda>_. StartCalled, w)"
  by (simp add: start_inv_def admitted_calls_def)

lemma pc_ok_mono: "pc_ok pc w \<Longrightarrow> stored_ids w \<subseteq> stored_ids w' \<Longrightarrow> pc_ok pc w'"
  by (cases pc) auto

lemma started_since_eq: "started_at w' = started_at w \<Longrightarrow> started_since d w' = started_since d w"
  by (simp add: started_since_def)

lemma started_since_snoc:
  "started_at w' = started_at w @ [u] \<Longrightarrow> started_since d w' \<le> started_since d w + 1"
  by (simp add: started_since_def)

lemma start_inv_upd:
  assumes inv: "start_inv c0 d lims P (pcs, w)"
    and "stored_ids w \<subseteq> stored_ids w'" and "pc_ok pc w'"
    and "started_since d w' + int (card (admitted_calls (pcs(i := pc), w')))
      \<le> max c0 (lim_BrowserSessionsPerDay lims - 1 + int P)"
  shows "start_inv c0 d lims P (pcs(i := pc), w')"
proof -
  have "finite (admitted_calls (pcs(i := pc), w'))"
    using inv by (simp add: start_inv_def admitted_upd [where w = w])
  moreover have "pc_ok ((pcs(i := pc)) j) w'" for j
    using inv assms(3) pc_ok_mono [OF _ assms(2)] by (simp add: start_inv_def)
  ultimately show ?thesis using assms(4) by (simp add: start_inv_def)
qed

lemma start_inv_step:
  assumes "start_race lib b lims now inp P t t'" and "\<forall>i. startOfDay (now i) = d"
    and inv: "start_inv c0 d lims P t"
  shows "start_inv c0 d lims P t'"
proof -
  from assms(1) obtain pcs w i pc w' plan plan' where t: "t = (pcs, w)" "t' = (pcs(i := pc), w')"
    and st: "run_state (start_step lib (faulty_bytes (b i)) (test_faulty lims (now i)) (inp i) (pcs i)) (w, plan)
      = (pc, (w', plan'))"
    and P: "card {j. admitted ((pcs(i := pc)) j)} \<le> P"
    by (cases rule: start_race.cases) auto
  let ?A = "admitted_calls (pcs, w)" and ?A' = "admitted_calls (pcs(i := pc), w')"
  let ?bound = "max c0 (lim_BrowserSessionsPerDay lims - 1 + int P)"
  note upd = start_inv_upd [OF inv [unfolded t(1)]]
  from inv have fin: "finite ?A" and le: "started_since d w + int (card ?A) \<le> ?bound" and ok: "pc_ok (pcs i) w"
    by (simp_all add: start_inv_def t)
  have A': "?A' = (if admitted pc then insert i ?A else ?A - {i})" by (rule admitted_upd)
  have same: "card ?A' \<le> card ?A" if "admitted pc \<longrightarrow> admitted (pcs i)"
    by (rule card_mono [OF fin]) (use that in \<open>auto simp: admitted_calls_def split: if_splits\<close>)
  show ?thesis
    unfolding t
  proof (cases "pcs i")
    case StartCalled
    from step_Called [OF st [unfolded StartCalled]] assms(2) have w': "w' = w"
      and pc: "pc = StartAllowed \<and> started_since d w < lim_BrowserSessionsPerDay lims \<or> (\<exists>res. pc = StartDone res)"
      by auto
    have "started_since d w + int (card ?A') \<le> ?bound"
    proof (cases "pc = StartAllowed")
      case True
      with P pc show ?thesis by (simp add: admitted_calls_def)
    next
      case False
      with pc same le show ?thesis by auto
    qed
    then show "start_inv c0 d lims P (pcs(i := pc), w')"
      using pc unfolding w' by (intro start_inv_upd [OF inv [unfolded t(1)]]) auto
  next
    case StartAllowed
    from step_Allowed [OF st [unfolded StartAllowed]] have s: "bw_sessions w' = bw_sessions w"
      and pc: "\<exists>s lerr. pc = StartLaunched s lerr" by simp_all
    from s same le StartAllowed have "started_since d w' + int (card ?A') \<le> ?bound"
      by (simp add: started_since_def)
    with s pc show "start_inv c0 d lims P (pcs(i := pc), w')"
      by (intro upd) (auto simp: stored_ids_def)
  next
    case (StartLaunched s lerr)
    from step_Launched [OF st [unfolded StartLaunched]]
    have s: "started_at w' = started_at w \<or> (\<exists>u. started_at w' = started_at w @ [u])"
      and rest: "stored_ids w \<subseteq> stored_ids w'" "\<not> admitted pc" "pc_ok pc w'" by simp_all
    from s have "started_since d w' \<le> started_since d w + 1"
      by (auto dest: started_since_eq [of _ _ d] started_since_snoc [of _ _ _ d])
    moreover have "i \<in> ?A" using StartLaunched by (simp add: admitted_calls_def)
    with rest(2) have "card ?A = Suc (card ?A')"
      by (simp only: A' if_False card_Suc_Diff1 [OF fin])
    ultimately show "start_inv c0 d lims P (pcs(i := pc), w')"
      using le rest by (intro upd) simp_all
  next
    case (StartSaved s)
    from step_Saved [OF st [unfolded StartSaved]] ok StartSaved
    have s: "started_at w' = started_at w" "stored_ids w \<subseteq> stored_ids w'" and pc: "\<exists>res. pc = StartDone res"
      by simp_all
    from started_since_eq [OF s(1)] same le pc have "started_since d w' + int (card ?A') \<le> ?bound" by auto
    with s pc show "start_inv c0 d lims P (pcs(i := pc), w')" by (intro upd) auto
  next
    case (StartDone res)
    with st have "w' = w" "pc = StartDone res" by auto
    with StartDone t inv show "start_inv c0 d lims P (pcs(i := pc), w')" by (simp add: fun_upd_idem)
  qed
qed

lemma start_inv_races:
  assumes "start_races lib b lims now inp P (\<lambda>_. StartCalled, w) t" and "\<forall>i. startOfDay (now i) = d"
  shows "start_inv (started_since d w) d lims P t"
  using assms(1)
proof (induction rule: rtranclp_induct)
  case base
  then show ?case by (rule start_inv_init)
next
  case (step t t')
  from start_inv_step [OF step.hyps(2) assms(2) step.IH] show ?case .
qed

section \<open>Two starts and a limit of one\<close>

text \<open>
  Both calls ask for the number of sessions before either has saved its own: both are let
  through, and the limit is passed.
\<close>

abbreviation any_input :: StartInput where
  "any_input \<equiv> \<lparr>st_ApplicationID = [], st_Platform = [], st_StartURL = [], st_Fields = []\<rparr>"

definition start_schedule :: "nat list" where
  "start_schedule = [0, 1, 0, 1, 0, 1]"

fun start_play :: "golib \<Rightarrow> Limits \<Rightarrow> nat list \<Rightarrow> start_sys \<Rightarrow> start_sys" where
  "start_play lib lims [] t = t"
| "start_play lib lims (i # is) (pcs, w) =
     (let (pc, w') = run_state (start_step lib (test_rand []) (test_runner lims zeroTime) any_input (pcs i)) w
      in start_play lib lims is (pcs(i := pc), w'))"

lemma admitted_below:
  assumes "\<And>i. i \<ge> n \<Longrightarrow> \<not> admitted (pcs i)"
  shows "card {i. admitted (pcs i)} \<le> n"
proof -
  have "{i. admitted (pcs i)} \<subseteq> {..<n}" using assms by (auto simp: not_less [symmetric])
  from card_mono [OF _ this] show ?thesis by simp
qed

lemma start_play_races:
  assumes "\<And>i. i \<in> set is \<Longrightarrow> i < P" and "\<And>i. i \<ge> P \<Longrightarrow> \<not> admitted (fst t i)"
  shows "start_races lib (\<lambda>_. []) lims (\<lambda>_. zeroTime) (\<lambda>_. any_input) P t (start_play lib lims is t)"
  using assms
proof (induction lib lims "is" t rule: start_play.induct)
  case (1 lib lims t)
  then show ?case by simp
next
  case (2 lib lims i is' pcs w)
  obtain pc w' where st: "run_state (start_step lib (test_rand []) (test_runner lims zeroTime) any_input (pcs i)) w = (pc, w')"
    by fastforce
  have adm: "\<not> admitted ((pcs(i := pc)) j)" if "j \<ge> P" for j
    using 2(2) [of i] 2(3) [OF that] that by auto
  have "start_race lib (\<lambda>_. []) lims (\<lambda>_. zeroTime) (\<lambda>_. any_input) P (pcs, w) (pcs(i := pc), w')"
    by (rule start_race.step [where i = i]) (rule unfaultedD [OF unfaulted_start_step st], rule admitted_below [OF adm])
  moreover have "start_races lib (\<lambda>_. []) lims (\<lambda>_. zeroTime) (\<lambda>_. any_input) P (pcs(i := pc), w')
      (start_play lib lims is' (pcs(i := pc), w'))"
    by (rule 2(1) [OF st [symmetric]]) (use 2(2) adm in auto)
  ultimately show ?case using st by (simp add: converse_rtranclp_into_rtranclp)
qed

abbreviation one_a_day :: Limits where
  "one_a_day \<equiv> \<lparr>lim_BrowserSessionsPerDay = 1, lim_MaxSessionMinutes = 30\<rparr>"

theorem concurrent_Start_over_limit:
  "\<exists>t. start_races lib (\<lambda>_. []) one_a_day (\<lambda>_. zeroTime) (\<lambda>_. any_input) 2
        (\<lambda>_. StartCalled, world_with (fake_driver [] StateNormal)) t
     \<and> started_since (startOfDay zeroTime) (snd t) = 2"
proof -
  let ?t = "start_play lib one_a_day start_schedule (\<lambda>_. StartCalled, world_with (fake_driver [] StateNormal))"
  have "start_races lib (\<lambda>_. []) one_a_day (\<lambda>_. zeroTime) (\<lambda>_. any_input) 2
      (\<lambda>_. StartCalled, world_with (fake_driver [] StateNormal)) ?t"
    by (rule start_play_races) (auto simp: start_schedule_def)
  moreover have "started_since (startOfDay zeroTime) (snd ?t) = 2"
    by (simp add: start_schedule_def start_step.simps run_startOfToday_def test_runner_simps on_sessions_def
        fakeSessionStore_ops_def started_since_def world_with_def newFakeSessionStore_def test_newID_def on_driver_def
        FakeDriver_Launch_def fake_driver_def saveSession_def zeroSession_def Let_def rune_string_def time_defs startOfDay_def)
  ultimately show ?thesis by blast
qed

section \<open>Properties\<close>

text \<open>
  C18. How far concurrent starts can pass the daily limit.  Whatever is interleaved and whatever fails, if never
  more than \<open>P\<close> calls of \<open>Start\<close> are between their check of the limit and their save, the
  sessions started since the beginning of the day stay below the limit plus \<open>P\<close>, or where
  they already were.  So one call at a time keeps the limit, and it takes no more than a
  lock around the check and the save.
\<close>

theorem concurrent_Start_budget:
  assumes "start_races lib b lims now inp P (\<lambda>_. StartCalled, w) t" and "\<forall>i. startOfDay (now i) = d"
  shows "started_since d (snd t) \<le> max (started_since d w) (lim_BrowserSessionsPerDay lims - 1 + int P)"
  using start_inv_races [OF assms] by (simp add: start_inv_def)

theorem concurrent_Start_budget_witness:
  "\<forall>lib. \<exists>t. start_races lib (\<lambda>_. []) one_a_day (\<lambda>_. zeroTime) (\<lambda>_. any_input) 2
        (\<lambda>_. StartCalled, world_with (fake_driver [] StateNormal)) t
     \<and> started_since (startOfDay zeroTime) (snd t) \<le> 2"
proof
  fix lib
  let ?w = "world_with (fake_driver [] StateNormal)"
  let ?t = "start_play lib one_a_day start_schedule (\<lambda>_. StartCalled, ?w)"
  have r: "start_races lib (\<lambda>_. []) one_a_day (\<lambda>_. zeroTime) (\<lambda>_. any_input) 2 (\<lambda>_. StartCalled, ?w) ?t"
    by (rule start_play_races) (auto simp: start_schedule_def)
  have "started_since (startOfDay zeroTime) ?w = 0"
    by (simp add: started_since_def world_with_def newFakeSessionStore_def)
  with concurrent_Start_budget [OF r] have "started_since (startOfDay zeroTime) (snd ?t) \<le> 2" by simp
  with r show "\<exists>t. start_races lib (\<lambda>_. []) one_a_day (\<lambda>_. zeroTime) (\<lambda>_. any_input) 2 (\<lambda>_. StartCalled, ?w) t
      \<and> started_since (startOfDay zeroTime) (snd t) \<le> 2" by blast
qed

end
