(* ===== verification/Scheduler.thy ===== *)
theory Scheduler
  imports Go_Lib
begin

text \<open>
  The package \<open>internal/scheduler\<close>, first half: run records, the retry policy and its
  executor (a loop that may not end, as \<open>partial_function (option)\<close> over 64-bit attempt
  numbers), health checks, the audit report and resume proposals.
\<close>

section \<open>Scheduled operations\<close>

datatype TaskType = TaskJobDiscovery | TaskJobEvaluation | TaskResumeProposal | TaskOther string

datatype RunStatus = RunSucceeded | RunFailed | RunDeadLetter | RunSkipped | RunStatusOther string

record Run =
  sr_ID :: string
  sr_Task :: TaskType
  sr_Status :: RunStatus
  sr_Attempt :: int
  sr_Detail :: string
  sr_StartedAt :: Time
  sr_FinishedAt :: Time

record 'w SchedulerRunStore =
  SaveSchedulerRun :: "Run \<Rightarrow> ('w, error) state"
  ListSchedulerRuns :: "TaskType \<Rightarrow> Time \<Rightarrow> ('w, Run list \<times> error) state"

subsection \<open>Retries\<close>

record RetryPolicy =
  MaxRetries :: int

datatype RetryOutcome = OutcomeRetry | OutcomeDeadLetter

definition Decide :: "RetryPolicy \<Rightarrow> int \<Rightarrow> RetryOutcome" where
  "Decide p attemptNumber = (if attemptNumber \<le> MaxRetries p then OutcomeRetry else OutcomeDeadLetter)"

text \<open>One turn of the loop: the start time, the attempt, the finish time.\<close>

definition attempt_once ::
    "('w, Time) state \<Rightarrow> (int \<Rightarrow> ('w, error) state) \<Rightarrow> int \<Rightarrow> ('w, Time \<times> error \<times> Time) state" where
  "attempt_once now fn attempt = do {
     start \<leftarrow> now;
     err \<leftarrow> fn attempt;
     finish \<leftarrow> now;
     ret (start, err, finish)
   }"

partial_function (option) Execute_loop ::
    "RetryPolicy \<Rightarrow> TaskType \<Rightarrow> ('w, string) state \<Rightarrow> ('w, Time) state \<Rightarrow> (int \<Rightarrow> ('w, error) state)
     \<Rightarrow> int \<Rightarrow> 'w \<Rightarrow> (Run \<times> 'w) option" where
  "Execute_loop policy task newID now fn attempt w =
     (let attempt = wrap64 (attempt + 1)
      in case run_state (attempt_once now fn attempt) w of
           ((start, err, finish), w) \<Rightarrow>
             (case err of
                None \<Rightarrow>
                  (case run_state newID w of (i, w) \<Rightarrow>
                     Some (\<lparr>sr_ID = i, sr_Task = task, sr_Status = RunSucceeded, sr_Attempt = attempt,
                            sr_Detail = [], sr_StartedAt = start, sr_FinishedAt = finish\<rparr>, w))
              | Some e \<Rightarrow>
                  if Decide policy attempt = OutcomeDeadLetter then
                    (case run_state newID w of (i, w) \<Rightarrow>
                       Some (\<lparr>sr_ID = i, sr_Task = task, sr_Status = RunDeadLetter, sr_Attempt = attempt,
                              sr_Detail = ''exhausted retries: '' @ Error_msg e, sr_StartedAt = start,
                              sr_FinishedAt = finish\<rparr>, w))
                  else Execute_loop policy task newID now fn attempt w))"

definition Execute ::
    "RetryPolicy \<Rightarrow> TaskType \<Rightarrow> ('w, string) state \<Rightarrow> ('w, Time) state \<Rightarrow> (int \<Rightarrow> ('w, error) state)
     \<Rightarrow> 'w \<Rightarrow> (Run \<times> 'w) option" where
  "Execute policy task newID now fn w = Execute_loop policy task newID now fn 0 w"

subsection \<open>Health checks\<close>

datatype HealthStatus = HealthOK | HealthUnhealthy | HealthOther string

record 'w HealthCheck =
  hc_Name :: string
  hc_CheckFn :: "('w, error) state"

record HealthReport =
  hr_Status :: HealthStatus
  hr_Checks :: "string \<rightharpoonup> string"
  hr_CheckedAt :: Time

record 'w HealthChecker =
  hck_Checks :: "'w HealthCheck list"
  hck_Now :: "('w, Time) state"

definition NewHealthChecker :: "('w, Time) state \<Rightarrow> 'w HealthCheck list \<Rightarrow> 'w HealthChecker" where
  "NewHealthChecker time_Now checks = \<lparr>hck_Checks = checks, hck_Now = time_Now\<rparr>"

fun health_loop :: "'w HealthCheck list \<Rightarrow> HealthReport \<Rightarrow> ('w, HealthReport) state" where
  "health_loop [] report = ret report"
| "health_loop (c # cs) report = do {
     err \<leftarrow> hc_CheckFn c;
     case err of
       Some e \<Rightarrow> health_loop cs
         (report\<lparr>hr_Checks := (hr_Checks report)(hc_Name c \<mapsto> Error_msg e), hr_Status := HealthUnhealthy\<rparr>)
     | None \<Rightarrow> health_loop cs (report\<lparr>hr_Checks := (hr_Checks report)(hc_Name c \<mapsto> ''ok'')\<rparr>)
   }"

definition HealthChecker_Run :: "'w HealthChecker \<Rightarrow> ('w, HealthReport) state" where
  "HealthChecker_Run h = do {
     t \<leftarrow> hck_Now h;
     health_loop (hck_Checks h) \<lparr>hr_Status = HealthOK, hr_Checks = Map.empty, hr_CheckedAt = t\<rparr>
   }"

subsection \<open>The audit report\<close>

record TaskSummary =
  ts_Succeeded :: int
  ts_Failed :: int
  ts_DeadLetter :: int
  ts_Skipped :: int

definition zeroSummary :: TaskSummary where
  [zero_defs]: "zeroSummary = \<lparr>ts_Succeeded = 0, ts_Failed = 0, ts_DeadLetter = 0, ts_Skipped = 0\<rparr>"

record AuditReport =
  ar_Since :: Time
  ar_Until :: Time
  ar_ByTask :: "TaskType \<rightharpoonup> TaskSummary"

definition count_run :: "RunStatus \<Rightarrow> TaskSummary \<Rightarrow> TaskSummary" where
  "count_run st summary =
     (case st of
        RunSucceeded \<Rightarrow> summary\<lparr>ts_Succeeded := ts_Succeeded summary + 1\<rparr>
      | RunFailed \<Rightarrow> summary\<lparr>ts_Failed := ts_Failed summary + 1\<rparr>
      | RunDeadLetter \<Rightarrow> summary\<lparr>ts_DeadLetter := ts_DeadLetter summary + 1\<rparr>
      | RunSkipped \<Rightarrow> summary\<lparr>ts_Skipped := ts_Skipped summary + 1\<rparr>
      | RunStatusOther s \<Rightarrow> summary)"

fun audit_loop :: "Run list \<Rightarrow> (TaskType \<rightharpoonup> TaskSummary) \<Rightarrow> (TaskType \<rightharpoonup> TaskSummary)" where
  "audit_loop [] byTask = byTask"
| "audit_loop (r # rs) byTask =
     (let summary = (case byTask (sr_Task r) of Some s \<Rightarrow> s | None \<Rightarrow> zeroSummary)
      in audit_loop rs (byTask(sr_Task r \<mapsto> count_run (sr_Status r) summary)))"

definition BuildAuditReport :: "Time \<Rightarrow> Time \<Rightarrow> Run list \<Rightarrow> AuditReport" where
  "BuildAuditReport since until runs =
     \<lparr>ar_Since = since, ar_Until = until, ar_ByTask = audit_loop runs Map.empty\<rparr>"

subsection \<open>Resume proposals\<close>

datatype Risk = RiskLow | RiskMedium | RiskHigh | RiskOther string

record ResumeProposal =
  prop_ID :: string
  prop_ProfileID :: string
  prop_Variant :: string
  prop_ProposedChanges :: "string list"
  prop_Reason :: string
  prop_AffectedSections :: "string list"
  prop_PageCountEstimate :: int
  prop_Risk :: Risk
  prop_CreatedAt :: Time

record 'w ProposalStore =
  SaveProposal :: "ResumeProposal \<Rightarrow> ('w, error) state"

record DetectedChange =
  det_Description :: string
  det_Section :: string
  det_Risk :: Risk

record 'w ChangeDetector =
  DetectChanges :: "string \<Rightarrow> ('w, DetectedChange list \<times> error) state"

record 'w ResumeProposalTask =
  rpt_Detector :: "'w ChangeDetector"
  rpt_Store :: "'w ProposalStore"
  rpt_NewID :: "('w, string) state"
  rpt_Now :: "('w, Time) state"

fun riskRank :: "Risk \<Rightarrow> int" where
  "riskRank RiskHigh = 3"
| "riskRank RiskMedium = 2"
| "riskRank _ = 1"

fun add_changes :: "DetectedChange list \<Rightarrow> ResumeProposal \<Rightarrow> ResumeProposal" where
  "add_changes [] proposal = proposal"
| "add_changes (c # cs) proposal =
     (let proposal = proposal\<lparr>prop_ProposedChanges := prop_ProposedChanges proposal @ [det_Description c]\<rparr>;
          proposal = proposal\<lparr>prop_AffectedSections := prop_AffectedSections proposal @ [det_Section c]\<rparr>;
          proposal = (if riskRank (det_Risk c) > riskRank (prop_Risk proposal)
                      then proposal\<lparr>prop_Risk := det_Risk c\<rparr> else proposal)
      in add_changes cs proposal)"

definition ResumeProposalTask_Run ::
    "'w ResumeProposalTask \<Rightarrow> string \<Rightarrow> string \<Rightarrow> ('w, ResumeProposal option \<times> error) state" where
  "ResumeProposalTask_Run t profileID variant = do {
     (changes, err) \<leftarrow> DetectChanges (rpt_Detector t) profileID;
     case err of
       Some e \<Rightarrow> ret (None, Some e)
     | None \<Rightarrow>
         if length changes = 0 then ret (None, None)
         else do {
           i \<leftarrow> rpt_NewID t;
           now \<leftarrow> rpt_Now t;
           let proposal = add_changes changes
             \<lparr>prop_ID = i, prop_ProfileID = profileID, prop_Variant = variant, prop_ProposedChanges = [],
              prop_Reason = ''scheduled resume update proposal'', prop_AffectedSections = [],
              prop_PageCountEstimate = 0, prop_Risk = RiskLow, prop_CreatedAt = now\<rparr>;
           serr \<leftarrow> SaveProposal (rpt_Store t) proposal;
           case serr of
             Some e \<Rightarrow> ret (None, Some e)
           | None \<Rightarrow> ret (Some proposal, None)
         }
   }"

subsection \<open>The retry loop\<close>

text \<open>\<open>run_attempts n w\<close> makes the attempts 1 to \<open>n\<close> one after the other: their errors, the last world.\<close>

fun run_attempts ::
    "('w, Time) state \<Rightarrow> (int \<Rightarrow> ('w, error) state) \<Rightarrow> nat \<Rightarrow> 'w \<Rightarrow> error list \<times> 'w" where
  "run_attempts now fn 0 w = ([], w)"
| "run_attempts now fn (Suc n) w =
     (case run_attempts now fn n w of (errs, w1) \<Rightarrow>
        (case run_state (attempt_once now fn (int n + 1)) w1 of ((start, err, finish), w2) \<Rightarrow> (errs @ [err], w2)))"

lemma length_run_attempts: "length (fst (run_attempts now fn n w)) = n"
  by (induction n) (auto split: prod.splits)

text \<open>The turn at which the loop gives up; a policy with negative retries still makes one attempt.\<close>

definition last_attempt :: "RetryPolicy \<Rightarrow> int" where
  "last_attempt p = max 1 (MaxRetries p + 1)"

lemma Decide_last:
  "1 \<le> n \<Longrightarrow> n \<le> last_attempt p \<Longrightarrow> Decide p n = OutcomeDeadLetter \<longleftrightarrow> n = last_attempt p"
  by (auto simp: Decide_def last_attempt_def max_def)

text \<open>What one run of the loop from turn \<open>k\<close> has done when it returns.\<close>

definition executed ::
    "RetryPolicy \<Rightarrow> TaskType \<Rightarrow> ('w, string) state \<Rightarrow> ('w, Time) state \<Rightarrow> (int \<Rightarrow> ('w, error) state)
     \<Rightarrow> 'w \<Rightarrow> Run \<Rightarrow> 'w \<Rightarrow> bool" where
  "executed p task newID now fn w r w' \<longleftrightarrow>
     (\<exists>n. 1 \<le> n \<and> int n \<le> last_attempt p \<and> sr_Attempt r = int n \<and> sr_Task r = task
        \<and> (\<forall>e \<in> set (butlast (fst (run_attempts now fn n w))). e \<noteq> None)
        \<and> run_state newID (snd (run_attempts now fn n w)) = (sr_ID r, w')
        \<and> (if last (fst (run_attempts now fn n w)) = None then sr_Status r = RunSucceeded
           else sr_Status r = RunDeadLetter \<and> int n = last_attempt p))"

lemma Execute_loop_step:
  assumes "run_state (attempt_once now fn (wrap64 (k + 1))) w = ((start, err, finish), w2)"
    and "run_state newID w2 = (i, w3)"
  shows "Execute_loop p task newID now fn k w =
    (case err of
       None \<Rightarrow> Some (\<lparr>sr_ID = i, sr_Task = task, sr_Status = RunSucceeded, sr_Attempt = wrap64 (k + 1),
                      sr_Detail = [], sr_StartedAt = start, sr_FinishedAt = finish\<rparr>, w3)
     | Some e \<Rightarrow>
         if Decide p (wrap64 (k + 1)) = OutcomeDeadLetter
         then Some (\<lparr>sr_ID = i, sr_Task = task, sr_Status = RunDeadLetter, sr_Attempt = wrap64 (k + 1),
                     sr_Detail = ''exhausted retries: '' @ Error_msg e, sr_StartedAt = start,
                     sr_FinishedAt = finish\<rparr>, w3)
         else Execute_loop p task newID now fn (wrap64 (k + 1)) w2)"
  by (subst Execute_loop.simps) (simp add: assms Let_def split: option.split)

lemma Execute_loop_executed:
  assumes "int64 (MaxRetries p)" and "MaxRetries p < 2 ^ 63 - 1"
    and "int k < last_attempt p" and "\<forall>e \<in> set (fst (run_attempts now fn k w)). e \<noteq> None"
  shows "\<exists>r w'. Execute_loop p task newID now fn (int k) (snd (run_attempts now fn k w)) = Some (r, w')
    \<and> executed p task newID now fn w r w'"
  using assms(3,4)
proof (induction "nat (last_attempt p - int k)" arbitrary: k rule: less_induct)
  case less
  obtain errs w1 where a: "run_attempts now fn k w = (errs, w1)" by fastforce
  obtain start err finish w2 where b: "run_state (attempt_once now fn (int k + 1)) w1 = ((start, err, finish), w2)"
    by (metis prod.collapse)
  have next_run: "run_attempts now fn (Suc k) w = (errs @ [err], w2)" using a b by simp
  have le: "int (Suc k) \<le> last_attempt p" using less.prems(1) by simp
  have "last_attempt p < 2 ^ 63" using assms(2) by (simp add: last_attempt_def)
  then have wrap: "wrap64 (int k + 1) = int (Suc k)"
    using le by (simp add: wrap64_id int64_def)
  obtain i w3 where c: "run_state newID w2 = (i, w3)" by fastforce
  have done_at: "executed p task newID now fn w r w3"
    if "sr_Attempt r = int (Suc k)" "sr_Task r = task" "sr_ID r = i"
      "if err = None then sr_Status r = RunSucceeded else sr_Status r = RunDeadLetter \<and> int (Suc k) = last_attempt p"
    for r
    unfolding executed_def
    by (intro exI [of _ "Suc k"]) (use that le less.prems(2) a c next_run in \<open>simp add: butlast_append\<close>)
  have b': "run_state (attempt_once now fn (wrap64 (int k + 1))) (snd (run_attempts now fn k w))
      = ((start, err, finish), w2)"
    using a b wrap by (simp add: add.commute)
  note step = Execute_loop_step [OF b' c, of p task, unfolded wrap]
  show ?case
  proof (cases err)
    case None
    with done_at show ?thesis unfolding step by simp
  next
    case (Some e)
    show ?thesis
    proof (cases "int (Suc k) = last_attempt p")
      case True
      then have "Decide p (int (Suc k)) = OutcomeDeadLetter" using Decide_last [of "int (Suc k)" p] by simp
      with Some True done_at show ?thesis unfolding step by simp
    next
      case False
      then have D: "Decide p (int (Suc k)) \<noteq> OutcomeDeadLetter" using Decide_last [of "int (Suc k)" p] le by simp
      have "\<forall>e \<in> set (fst (run_attempts now fn (Suc k) w)). e \<noteq> None"
        using less.prems(2) a next_run Some by auto
      from less.hyps [OF _ _ this] False le less.prems(1) Some D next_run show ?thesis
        unfolding step by simp
    qed
  qed
qed

text \<open>With as many retries as a 64-bit integer can count, the loop has no last attempt.\<close>

lemma Execute_loop_returns:
  assumes "Execute_loop p task newID now fn k w = Some y"
  shows "MaxRetries p = 2 ^ 63 - 1 \<longrightarrow> (\<exists>k v. fst (run_state (fn k) v) = None)"
proof (rule Execute_loop.raw_induct [where ?P = "\<lambda>p task newID now fn k w y.
    MaxRetries p = 2 ^ 63 - 1 \<longrightarrow> (\<exists>k v. fst (run_state (fn k) v) = None)", OF _ assms])
  fix loop p task newID now fn k w y
  assume IH: "\<And>p task newID now fn k w y. loop p task newID now fn k w = Some y \<Longrightarrow>
      MaxRetries p = 2 ^ 63 - 1 \<longrightarrow> (\<exists>k v. fst (run_state (fn k) v) = None)"
    and eq: "(let attempt = wrap64 (k + 1)
      in case run_state (attempt_once now fn attempt) w of
           ((start, err, finish), w) \<Rightarrow>
             (case err of
                None \<Rightarrow>
                  (case run_state newID w of (i, w) \<Rightarrow>
                     Some (\<lparr>sr_ID = i, sr_Task = task, sr_Status = RunSucceeded, sr_Attempt = attempt,
                            sr_Detail = [], sr_StartedAt = start, sr_FinishedAt = finish\<rparr>, w))
              | Some e \<Rightarrow>
                  if Decide p attempt = OutcomeDeadLetter then
                    (case run_state newID w of (i, w) \<Rightarrow>
                       Some (\<lparr>sr_ID = i, sr_Task = task, sr_Status = RunDeadLetter, sr_Attempt = attempt,
                              sr_Detail = ''exhausted retries: '' @ Error_msg e, sr_StartedAt = start,
                              sr_FinishedAt = finish\<rparr>, w))
                  else loop p task newID now fn attempt w)) = Some y"
  show "MaxRetries p = 2 ^ 63 - 1 \<longrightarrow> (\<exists>k v. fst (run_state (fn k) v) = None)"
  proof
    assume max: "MaxRetries p = 2 ^ 63 - 1"
    obtain start err finish w2 where b:
      "run_state (attempt_once now fn (wrap64 (k + 1))) w = ((start, err, finish), w2)" by (metis prod.collapse)
    show "\<exists>k v. fst (run_state (fn k) v) = None"
    proof (cases err)
      case None
      have "fst (run_state (fn (wrap64 (k + 1))) (snd (run_state now w))) = None"
        using b None by (simp add: attempt_once_def split: prod.splits)
      then show ?thesis by blast
    next
      case (Some e)
      have "Decide p (wrap64 (k + 1)) \<noteq> OutcomeDeadLetter"
        using max wrap64_int64 [of "k + 1"] by (simp add: Decide_def int64_def)
      with eq b Some have "loop p task newID now fn (wrap64 (k + 1)) w2 = Some y" by simp
      from IH [OF this] max show ?thesis by blast
    qed
  qed
qed

subsection \<open>Health checks as a list of results\<close>

fun run_checks :: "'w HealthCheck list \<Rightarrow> ('w, error list) state" where
  "run_checks [] = ret []"
| "run_checks (c # cs) = do { err \<leftarrow> hc_CheckFn c; errs \<leftarrow> run_checks cs; ret (err # errs) }"

definition check_text :: "error \<Rightarrow> string" where
  "check_text err = (case err of Some e \<Rightarrow> Error_msg e | None \<Rightarrow> ''ok'')"

lemma length_run_checks: "length (fst (run_state (run_checks cs) w)) = length cs"
  by (induction cs arbitrary: w) (auto split: prod.splits, metis fst_conv)

lemma health_loop_eq:
  "run_state (health_loop cs report) w =
     (case run_state (run_checks cs) w of (errs, w') \<Rightarrow>
        (report\<lparr>hr_Status := (if \<exists>e \<in> set errs. e \<noteq> None then HealthUnhealthy else hr_Status report),
                hr_Checks := hr_Checks report ++ map_of (rev (zip (map hc_Name cs) (map check_text errs)))\<rparr>, w'))"
proof (induction cs arbitrary: report w)
  case (Cons c cs)
  have upd: "m ++ map_of (rev zs @ [(k, v)]) = m(k \<mapsto> v) ++ map_of (rev zs)" for m k v and zs :: "(string \<times> string) list"
    by (simp add: map_add_assoc)
  obtain err w1 where 1: "run_state (hc_CheckFn c) w = (err, w1)" by fastforce
  obtain errs w2 where 2: "run_state (run_checks cs) w1 = (errs, w2)" by fastforce
  show ?case
    by (cases err) (auto simp: 1 2 Cons.IH check_text_def upd fun_upd_def simp del: map_of_append)
qed simp

subsection \<open>Counting runs\<close>

definition count_status :: "Run list \<Rightarrow> TaskType \<Rightarrow> RunStatus \<Rightarrow> int" where
  "count_status runs t st = int (length (filter (\<lambda>r. sr_Task r = t \<and> sr_Status r = st) runs))"

definition add_summary :: "TaskSummary \<Rightarrow> Run list \<Rightarrow> TaskType \<Rightarrow> TaskSummary" where
  "add_summary s runs t =
     \<lparr>ts_Succeeded = ts_Succeeded s + count_status runs t RunSucceeded,
      ts_Failed = ts_Failed s + count_status runs t RunFailed,
      ts_DeadLetter = ts_DeadLetter s + count_status runs t RunDeadLetter,
      ts_Skipped = ts_Skipped s + count_status runs t RunSkipped\<rparr>"

lemma add_summary_Cons:
  "add_summary s (r # rs) t = (if sr_Task r = t then add_summary (count_run (sr_Status r) s) rs t else add_summary s rs t)"
  by (cases "sr_Status r") (simp_all add: add_summary_def count_status_def count_run_def)

lemma audit_loop_eq:
  "audit_loop runs m t =
     (if t \<in> sr_Task ` set runs
      then Some (add_summary (case m t of Some s \<Rightarrow> s | None \<Rightarrow> zeroSummary) runs t) else m t)"
proof (induction runs arbitrary: m)
  case (Cons r rs)
  have "count_status rs t st = 0" if "t \<notin> sr_Task ` set rs" for st
  proof -
    from that have "filter (\<lambda>r. sr_Task r = t \<and> sr_Status r = st) rs = []"
      by (auto simp: filter_empty_conv)
    then show ?thesis by (simp add: count_status_def)
  qed
  then have empty: "t \<notin> sr_Task ` set rs \<Longrightarrow> add_summary s rs t = s" for s :: TaskSummary
    by (cases s) (simp add: add_summary_def)
  show ?case
    by (cases "sr_Task r = t") (auto simp: Cons.IH add_summary_Cons empty Let_def)
qed simp

subsection \<open>Resume proposals\<close>

lemma add_changes_eq:
  "prop_ProposedChanges (add_changes cs p) = prop_ProposedChanges p @ map det_Description cs
   \<and> prop_AffectedSections (add_changes cs p) = prop_AffectedSections p @ map det_Section cs
   \<and> prop_ID (add_changes cs p) = prop_ID p \<and> prop_ProfileID (add_changes cs p) = prop_ProfileID p
   \<and> prop_Variant (add_changes cs p) = prop_Variant p \<and> prop_CreatedAt (add_changes cs p) = prop_CreatedAt p
"
  by (induction cs arbitrary: p) (simp_all add: Let_def)

lemma add_changes_fold:
  "riskRank (prop_Risk (add_changes cs p)) = fold max (map (\<lambda>c. riskRank (det_Risk c)) cs) (riskRank (prop_Risk p))"
  by (induction cs arbitrary: p) (simp_all add: Let_def max_def)

lemma add_changes_risk:
  assumes "cs \<noteq> []" and "prop_Risk p = RiskLow"
  shows "riskRank (prop_Risk (add_changes cs p)) = Max (riskRank ` det_Risk ` set cs)"
proof -
  let ?xs = "map (\<lambda>c. riskRank (det_Risk c)) cs"
  have one: "1 \<le> riskRank r" for r by (cases r) auto
  from assms(1) have "riskRank (det_Risk (hd cs)) \<in> set ?xs" by simp
  then have "1 \<le> Max (set ?xs)" using one Max_ge [of "set ?xs"] order_trans by blast
  then have "Max (insert 1 (set ?xs)) = Max (set ?xs)" using assms(1) by simp
  moreover have "fold max ?xs 1 = Max (set (1 # ?xs))" by (rule Max.set_eq_fold [symmetric])
  ultimately show ?thesis by (simp add: add_changes_fold assms(2) image_image)
qed

lemma Execute_attempts:
  assumes "int64 (MaxRetries p)" and "MaxRetries p < 2 ^ 63 - 1"
  obtains r w' n where "Execute p task newID now fn w = Some (r, w')"
    "1 \<le> n" "int n \<le> max 1 (MaxRetries p + 1)" "sr_Attempt r = int n" "sr_Task r = task"
    "\<forall>e \<in> set (butlast (fst (run_attempts now fn n w))). e \<noteq> None"
    "run_state newID (snd (run_attempts now fn n w)) = (sr_ID r, w')"
    "if last (fst (run_attempts now fn n w)) = None then sr_Status r = RunSucceeded
     else sr_Status r = RunDeadLetter \<and> int n = max 1 (MaxRetries p + 1)"
proof -
  have "int 0 < last_attempt p" "\<forall>e \<in> set (fst (run_attempts now fn 0 w)). e \<noteq> None"
    by (simp_all add: last_attempt_def)
  from Execute_loop_executed [OF assms this, of task newID] obtain r w' where
    r: "Execute p task newID now fn w = Some (r, w')" and x: "executed p task newID now fn w r w'"
    by (auto simp: Execute_def)
  from x show thesis
    unfolding executed_def last_attempt_def by (elim exE conjE) (rule that [OF r])
qed

subsection \<open>Properties\<close>

text \<open>
  C30. The retry loop ends and does what its comment says, for every policy below the largest
  64-bit integer and every task: it returns after at most \<open>MaxRetries + 1\<close> attempts (one when
  the number of retries is negative), numbered from 1; all but the last have failed; the run
  is SUCCEEDED when the last one succeeded and otherwise DEAD_LETTER, which happens only at
  the last attempt the policy allows; the world is that of exactly these attempts.
\<close>

theorem Execute_correct:
  assumes "int64 (MaxRetries p)" and "MaxRetries p < 2 ^ 63 - 1"
  shows "\<exists>r w' n. Execute p task newID now fn w = Some (r, w')
     \<and> 1 \<le> n \<and> int n \<le> max 1 (MaxRetries p + 1) \<and> sr_Attempt r = int n \<and> sr_Task r = task
     \<and> (\<forall>e \<in> set (butlast (fst (run_attempts now fn n w))). e \<noteq> None)
     \<and> (sr_Status r = RunSucceeded \<longleftrightarrow> last (fst (run_attempts now fn n w)) = None)
     \<and> (sr_Status r = RunDeadLetter \<longleftrightarrow> last (fst (run_attempts now fn n w)) \<noteq> None)
     \<and> (sr_Status r = RunDeadLetter \<longrightarrow> int n = max 1 (MaxRetries p + 1))
     \<and> run_state newID (snd (run_attempts now fn n w)) = (sr_ID r, w')"
proof -
  obtain r w' n where x: "Execute p task newID now fn w = Some (r, w')"
    "1 \<le> n" "int n \<le> max 1 (MaxRetries p + 1)" "sr_Attempt r = int n" "sr_Task r = task"
    "\<forall>e \<in> set (butlast (fst (run_attempts now fn n w))). e \<noteq> None"
    "run_state newID (snd (run_attempts now fn n w)) = (sr_ID r, w')"
    "if last (fst (run_attempts now fn n w)) = None then sr_Status r = RunSucceeded
     else sr_Status r = RunDeadLetter \<and> int n = max 1 (MaxRetries p + 1)"
    by (rule Execute_attempts [OF assms])
  then show ?thesis
    by (intro exI [of _ r] exI [of _ w'] exI [of _ n] conjI) (simp_all split: if_splits)
qed

definition flaky :: "int \<Rightarrow> int \<Rightarrow> (int, error) state" where
  "flaky good attempt = State (\<lambda>calls. (if attempt = good then None else Some DeadlineExceeded, calls + 1))"

theorem Execute_correct_witness:
  "\<exists>r w'. Execute \<lparr>MaxRetries = 2\<rparr> TaskJobDiscovery (ret ''run'') (ret zeroTime) (flaky 9) 0 = Some (r, w')
     \<and> sr_Status r = RunDeadLetter \<and> sr_Attempt r = 3"
proof -
  obtain r w' n where
    1: "Execute \<lparr>MaxRetries = 2\<rparr> TaskJobDiscovery (ret ''run'') (ret zeroTime) (flaky 9) 0 = Some (r, w')"
    "1 \<le> n" "int n \<le> 3" "sr_Attempt r = int n"
    "sr_Status r = RunDeadLetter \<longleftrightarrow> last (fst (run_attempts (ret zeroTime) (flaky 9) n 0)) \<noteq> None"
    "sr_Status r = RunDeadLetter \<longrightarrow> int n = 3"
    using Execute_correct [of "\<lparr>MaxRetries = 2\<rparr>" TaskJobDiscovery "ret ''run''" "ret zeroTime" "flaky 9" 0]
    by (auto simp: int64_def)
  from 1(2,3) have "n = 1 \<or> n = 2 \<or> n = 3" by linarith
  then have "last (fst (run_attempts (ret zeroTime) (flaky 9) n 0)) \<noteq> None"
    by (elim disjE) (simp_all add: attempt_once_def flaky_def numeral_eq_Suc)
  with 1 show ?thesis by auto
qed

text \<open>
  The bound is needed: with \<open>MaxRetries\<close> at the largest 64-bit integer the attempt counter
  wraps around below it, no attempt is ever the last, and a task that always fails is
  retried for ever, whatever the attempt does to the world.
\<close>

theorem Execute_never_returns:
  assumes "MaxRetries p = 2 ^ 63 - 1" and "\<forall>k v. fst (run_state (fn k) v) \<noteq> None"
  shows "Execute p task newID now fn w = None"
proof (cases "Execute p task newID now fn w")
  case (Some y)
  from Execute_loop_returns [OF Some [unfolded Execute_def]] assms show ?thesis by blast
qed

theorem Execute_never_returns_witness:
  "Execute \<lparr>MaxRetries = 9223372036854775807\<rparr> TaskJobDiscovery (ret ''run'') (ret zeroTime) (flaky 0 \<circ> (\<lambda>_. 1)) 0 = None"
  by (rule Execute_never_returns) (simp_all add: flaky_def)

text \<open>
  Health is never better than the worst check: every check runs once and in order, the
  report is unhealthy exactly when some check failed, and it shows for each name the result
  of the last check with that name.
\<close>

theorem HealthChecker_Run_correct:
  "run_state (HealthChecker_Run h) w =
     (case run_state (hck_Now h) w of (t, w1) \<Rightarrow>
      case run_state (run_checks (hck_Checks h)) w1 of (errs, w2) \<Rightarrow>
        (\<lparr>hr_Status = (if list_all (\<lambda>e. e = None) errs then HealthOK else HealthUnhealthy),
          hr_Checks = map_of (rev (zip (map hc_Name (hck_Checks h)) (map check_text errs))),
          hr_CheckedAt = t\<rparr>, w2))
   \<and> length (fst (run_state (run_checks (hck_Checks h)) w)) = length (hck_Checks h)"
  by (auto simp: HealthChecker_Run_def health_loop_eq length_run_checks list_all_iff split: prod.splits)

text \<open>
  The audit report counts: a task has an entry exactly when some run has it, and its four
  numbers are the numbers of its runs with the four statuses, whatever the order of the runs.
\<close>

theorem BuildAuditReport_correct:
  "ar_ByTask (BuildAuditReport since until runs) t =
     (if t \<in> sr_Task ` set runs
      then Some \<lparr>ts_Succeeded = count_status runs t RunSucceeded, ts_Failed = count_status runs t RunFailed,
                 ts_DeadLetter = count_status runs t RunDeadLetter, ts_Skipped = count_status runs t RunSkipped\<rparr>
      else None)"
  by (simp add: BuildAuditReport_def audit_loop_eq add_summary_def zeroSummary_def)

text \<open>
  A proposal run saves at most one proposal and returns it only when it was saved: it
  lists the detected changes and their sections in order, and its risk is the highest of
  their risks (an unknown risk counts as low); without changes nothing is created.
\<close>

theorem ResumeProposalTask_Run_correct:
  assumes "run_state (DetectChanges (rpt_Detector t) profileID) w = ((changes, derr), w1)"
    and "run_state (ResumeProposalTask_Run t profileID variant) w = ((prop, err), w')"
  shows "(prop \<noteq> None \<longrightarrow> err = None)
    \<and> (derr \<noteq> None \<or> changes = [] \<longrightarrow> prop = None \<and> err = derr \<and> w' = w1)
    \<and> (\<forall>p. prop = Some p \<longrightarrow>
         prop_ProposedChanges p = map det_Description changes \<and> prop_AffectedSections p = map det_Section changes
         \<and> prop_ProfileID p = profileID \<and> prop_Variant p = variant
         \<and> riskRank (prop_Risk p) = Max (riskRank ` det_Risk ` set changes)
         \<and> (\<exists>v. run_state (SaveProposal (rpt_Store t) p) v = (None, w')))"
  using assms
  by (auto simp: ResumeProposalTask_Run_def add_changes_eq add_changes_risk Let_def
      split: prod.splits option.splits if_splits)

definition sample_proposal_task :: "(ResumeProposal list) ResumeProposalTask" where
  "sample_proposal_task =
     \<lparr>rpt_Detector = \<lparr>DetectChanges = (\<lambda>_. ret ([\<lparr>det_Description = ''new job'', det_Section = ''employment'',
        det_Risk = RiskHigh\<rparr>, \<lparr>det_Description = ''typo'', det_Section = ''summary'', det_Risk = RiskLow\<rparr>], None))\<rparr>,
      rpt_Store = \<lparr>SaveProposal = (\<lambda>p. State (\<lambda>s. (None, s @ [p])))\<rparr>,
      rpt_NewID = ret ''prop'', rpt_Now = ret zeroTime\<rparr>"

theorem ResumeProposalTask_Run_correct_witness:
  "\<exists>p w'. run_state (ResumeProposalTask_Run sample_proposal_task ''p'' ''fde'') [] = ((Some p, None), w')
     \<and> riskRank (prop_Risk p) = 3 \<and> prop_ProposedChanges p = [''new job'', ''typo'']"
proof -
  obtain changes w1 where d: "run_state (DetectChanges (rpt_Detector sample_proposal_task) ''p'') [] = ((changes, None), w1)"
    and c: "map det_Description changes = [''new job'', ''typo'']" "riskRank ` det_Risk ` set changes = {3, 1}"
    by (simp add: sample_proposal_task_def)
  obtain p w' where r: "run_state (ResumeProposalTask_Run sample_proposal_task ''p'' ''fde'') [] = ((Some p, None), w')"
    by (simp add: ResumeProposalTask_Run_def sample_proposal_task_def Let_def)
  from ResumeProposalTask_Run_correct [OF d r] r c show ?thesis by auto
qed

end
