(* ===== verification/ModelProvider.thy ===== *)
theory ModelProvider
  imports Go_Lib Complex_Main
begin

text \<open>
  The package \<open>internal/modelprovider\<close>: requests and responses of a model call, the
  \<open>Provider\<close> interface with its two placeholder implementations, and the \<open>Recorder\<close>,
  which wraps a call so that it is audited.  The in-memory run store is the one of
  \<open>recorder_test.go\<close>.
\<close>

section \<open>Model providers and the audit of model calls\<close>

text \<open>The temperature is a \<open>float64\<close> the program only passes on.\<close>

record Request =
  req_Prompt :: string
  req_MaxTokens :: int
  req_Temperature :: rat
  req_Metadata :: "string \<rightharpoonup> string"

record Response =
  resp_Text :: string
  resp_InputTokens :: int
  resp_OutputTokens :: int

definition zeroResponse :: Response where
  [zero_defs]: "zeroResponse = \<lparr>resp_Text = [], resp_InputTokens = 0, resp_OutputTokens = 0\<rparr>"

record 'w Provider =
  prov_Name :: string
  prov_Generate :: "Request \<Rightarrow> ('w, Response \<times> error) state"

record ModelRun =
  mrun_ID :: string
  mrun_Provider :: string
  mrun_Purpose :: string
  mrun_InputTokens :: int
  mrun_OutputTokens :: int
  mrun_LatencyMS :: int
  mrun_Succeeded :: bool
  mrun_ErrorCategory :: string
  mrun_StartedAt :: Time

subsection \<open>The placeholder providers\<close>

record 'w ClaudeProvider =
  claude_GenerateFunc :: "(Request \<Rightarrow> ('w, Response \<times> error) state) option"

definition NewClaudeProvider :: "'w ClaudeProvider" where
  "NewClaudeProvider = \<lparr>claude_GenerateFunc = None\<rparr>"

definition Claude_Generate :: "'w ClaudeProvider \<Rightarrow> Request \<Rightarrow> ('w, Response \<times> error) state" where
  "Claude_Generate p req =
     (case claude_GenerateFunc p of
        None \<Rightarrow> ret (zeroResponse, Some ErrNotConfigured)
      | Some f \<Rightarrow> f req)"

definition Claude_as_Provider :: "'w ClaudeProvider \<Rightarrow> 'w Provider" where
  "Claude_as_Provider p = \<lparr>prov_Name = ''claude'', prov_Generate = Claude_Generate p\<rparr>"

record 'w GeminiProvider =
  gemini_GenerateFunc :: "(Request \<Rightarrow> ('w, Response \<times> error) state) option"

definition NewGeminiProvider :: "'w GeminiProvider" where
  "NewGeminiProvider = \<lparr>gemini_GenerateFunc = None\<rparr>"

definition Gemini_Generate :: "'w GeminiProvider \<Rightarrow> Request \<Rightarrow> ('w, Response \<times> error) state" where
  "Gemini_Generate p req =
     (case gemini_GenerateFunc p of
        None \<Rightarrow> ret (zeroResponse, Some ErrNotConfigured)
      | Some f \<Rightarrow> f req)"

definition Gemini_as_Provider :: "'w GeminiProvider \<Rightarrow> 'w Provider" where
  "Gemini_as_Provider p = \<lparr>prov_Name = ''gemini'', prov_Generate = Gemini_Generate p\<rparr>"

subsection \<open>The recorder\<close>

record 'w ModelRunStore =
  SaveModelRun :: "ModelRun \<Rightarrow> ('w, error) state"

record 'w Recorder =
  rec_Store :: "'w ModelRunStore"
  rec_NewID :: "('w, string) state"
  rec_Now :: "('w, Time) state"

definition NewRecorder :: "('w, Time) state \<Rightarrow> 'w ModelRunStore \<Rightarrow> ('w, string) state \<Rightarrow> 'w Recorder" where
  "NewRecorder time_Now store newID = \<lparr>rec_Store = store, rec_NewID = newID, rec_Now = time_Now\<rparr>"

definition categorizeError :: "error \<Rightarrow> string" where
  "categorizeError err =
     (case err of
        None \<Rightarrow> ''''
      | Some e \<Rightarrow>
          if errors_Is e DeadlineExceeded then ''timeout''
          else if errors_Is e Canceled then ''canceled''
          else ''provider_error'')"

text \<open>
  The fields of the \<open>Run\<close> literal are evaluated in their order: the identifier is drawn
  before the clock is read again.
\<close>

definition Recorder_Generate ::
    "'w Recorder \<Rightarrow> 'w Provider \<Rightarrow> string \<Rightarrow> Request \<Rightarrow> ('w, Response \<times> error) state" where
  "Recorder_Generate r provider purpose req = do {
     started \<leftarrow> rec_Now r;
     (resp, err) \<leftarrow> prov_Generate provider req;
     newID \<leftarrow> rec_NewID r;
     finished \<leftarrow> rec_Now r;
     let run = \<lparr>mrun_ID = newID, mrun_Provider = prov_Name provider, mrun_Purpose = purpose,
                mrun_InputTokens = resp_InputTokens resp, mrun_OutputTokens = resp_OutputTokens resp,
                mrun_LatencyMS = duration_Milliseconds (time_Sub finished started),
                mrun_Succeeded = (err = None),
                mrun_ErrorCategory = (if err \<noteq> None then categorizeError err else ''''),
                mrun_StartedAt = started\<rparr>;
     saveErr \<leftarrow> SaveModelRun (rec_Store r) run;
     case saveErr of
       Some e \<Rightarrow> ret (resp, errors_Join [err, Some e])
     | None \<Rightarrow> ret (resp, err)
   }"

subsection \<open>The in-memory run store\<close>

record fakeRunStore =
  frs_saved :: "ModelRun list"
  frs_err :: error

definition fakeRunStore_SaveRun :: "ModelRun \<Rightarrow> (fakeRunStore, error) state" where
  "fakeRunStore_SaveRun run =
     State (\<lambda>s. if frs_err s \<noteq> None then (frs_err s, s)
                else (None, s\<lparr>frs_saved := frs_saved s @ [run]\<rparr>))"

lemma run_fakeRunStore_SaveRun [simp]:
  "run_state (fakeRunStore_SaveRun run) s =
     (case frs_err s of None \<Rightarrow> (None, s\<lparr>frs_saved := frs_saved s @ [run]\<rparr>) | Some e \<Rightarrow> (Some e, s))"
  by (simp add: fakeRunStore_SaveRun_def split: option.splits)

text \<open>A recorder on a world with the in-memory store as its second part.\<close>

definition memory_Recorder :: "('w, string) state \<Rightarrow> ('w, Time) state \<Rightarrow> ('w \<times> fakeRunStore) Recorder" where
  "memory_Recorder newID now =
     \<lparr>rec_Store = \<lparr>SaveModelRun = (\<lambda>run. on_snd (fakeRunStore_SaveRun run))\<rparr>,
      rec_NewID = on_fst newID, rec_Now = on_fst now\<rparr>"

definition lift_Provider :: "'w Provider \<Rightarrow> ('w \<times> 't) Provider" where
  "lift_Provider p = \<lparr>prov_Name = prov_Name p, prov_Generate = (\<lambda>req. on_fst (prov_Generate p req))\<rparr>"

lemma errors_Is_Join:
  assumes "errors_Is e t" and "Some e \<in> set errs"
  shows "\<exists>j. errors_Join errs = Some j \<and> errors_Is j t"
proof -
  from assms(2) have "e \<in> set (List.map_filter id errs)"
    by (force simp: List.map_filter_def image_iff)
  moreover from this have "errors_Join errs = Some (JoinError (List.map_filter id errs))"
    by (auto simp: errors_Join_def split: list.splits)
  ultimately show ?thesis using assms(1) by (auto simp: list_ex_iff)
qed

lemma categorizeError_cases:
  "categorizeError (Some e) \<in> {''timeout'', ''canceled'', ''provider_error''}"
  by (simp add: categorizeError_def)

subsection \<open>Properties\<close>

text \<open>
  C36. Every model call is audited with the right record, as long as the store works: with the
  in-memory store in working order \<open>Recorder.Generate\<close> returns the provider's response and
  error unchanged and appends exactly one run, which names the provider and the purpose,
  carries an identifier drawn after the call, the token counts of the response, the time at
  which the call started and the whole milliseconds it took, and is marked as succeeded
  exactly when the provider returned no error.  Its category says why a call failed:
  \<open>timeout\<close> for a deadline that was exceeded, \<open>canceled\<close> for a call that was canceled and did
  not exceed its deadline, \<open>provider_error\<close> for any other error, and nothing for a success.
\<close>

theorem Recorder_Generate_audited:
  assumes "frs_err s = None"
    and "run_state now w = (started, w1)" and "run_state (prov_Generate provider req) w1 = ((resp, err), w2)"
    and "run_state newID w2 = (i, w3)" and "run_state now w3 = (finished, w4)"
  shows "\<exists>run.
     run_state (Recorder_Generate (memory_Recorder newID now) (lift_Provider provider) purpose req) (w, s)
       = ((resp, err), (w4, s\<lparr>frs_saved := frs_saved s @ [run]\<rparr>))
     \<and> mrun_ID run = i \<and> mrun_Provider run = prov_Name provider \<and> mrun_Purpose run = purpose
     \<and> mrun_InputTokens run = resp_InputTokens resp \<and> mrun_OutputTokens run = resp_OutputTokens resp
     \<and> mrun_StartedAt run = started
     \<and> (0 \<le> nsec finished - nsec started \<and> nsec finished - nsec started < 2 ^ 63 \<longrightarrow>
          mrun_LatencyMS run = (nsec finished - nsec started) div 1000000)
     \<and> (mrun_Succeeded run \<longleftrightarrow> err = None) \<and> (mrun_ErrorCategory run = '''' \<longleftrightarrow> err = None)
     \<and> (mrun_ErrorCategory run = ''timeout'' \<longleftrightarrow> (\<exists>e. err = Some e \<and> errors_Is e DeadlineExceeded))
     \<and> (mrun_ErrorCategory run = ''canceled'' \<longleftrightarrow>
          (\<exists>e. err = Some e \<and> errors_Is e Canceled \<and> \<not> errors_Is e DeadlineExceeded))
     \<and> (mrun_ErrorCategory run = ''provider_error'' \<longleftrightarrow>
          (\<exists>e. err = Some e \<and> \<not> errors_Is e Canceled \<and> \<not> errors_Is e DeadlineExceeded))"
proof -
  have "duration_Milliseconds (time_Sub finished started) = (nsec finished - nsec started) div 1000000"
    if "0 \<le> nsec finished - nsec started" "nsec finished - nsec started < 2 ^ 63"
    using that by (simp add: duration_Milliseconds_def time_Sub_def signed_divide_int_def sgn_if)
  then show ?thesis
    using assms
    by (cases err) (auto simp: Recorder_Generate_def memory_Recorder_def lift_Provider_def categorizeError_def Let_def)
qed

definition sample_request :: Request where
  "sample_request = \<lparr>req_Prompt = ''hi'', req_MaxTokens = 0, req_Temperature = 0, req_Metadata = Map.empty\<rparr>"

text \<open>A clock that moves on by 1.5 milliseconds at each reading, and a call that is canceled.\<close>

definition ticking :: "(int, Time) state" where
  "ticking = State (\<lambda>n. (\<lparr>nsec = n, zone_off = 0\<rparr>, n + 1500000))"

theorem Recorder_Generate_audited_witness:
  "\<exists>run. run_state (Recorder_Generate (memory_Recorder (ret ''run-1'') ticking)
        (lift_Provider (Claude_as_Provider \<lparr>claude_GenerateFunc = Some (\<lambda>_. ret (zeroResponse, Some Canceled))\<rparr>))
        ''job_triage'' sample_request) (0, \<lparr>frs_saved = [], frs_err = None\<rparr>)
    = ((zeroResponse, Some Canceled), (3000000, \<lparr>frs_saved = [run], frs_err = None\<rparr>))
    \<and> \<not> mrun_Succeeded run \<and> mrun_ErrorCategory run = ''canceled'' \<and> mrun_LatencyMS run = 1"
proof -
  have p: "run_state (prov_Generate (Claude_as_Provider \<lparr>claude_GenerateFunc = Some (\<lambda>_. ret (zeroResponse, Some Canceled))\<rparr>)
      sample_request) (1500000 :: int) = ((zeroResponse, Some Canceled), 1500000)"
    by (simp add: Claude_as_Provider_def Claude_Generate_def)
  have t: "run_state ticking n = (\<lparr>nsec = n, zone_off = 0\<rparr>, n + 1500000)" for n by (simp add: ticking_def)
  show ?thesis
    using Recorder_Generate_audited [where s = "\<lparr>frs_saved = [], frs_err = None\<rparr>" and now = ticking and w = 0
        and newID = "ret ''run-1''" and purpose = "''job_triage''", OF _ _ p, of "\<lparr>nsec = 0, zone_off = 0\<rparr>" "''run-1''"
        1500000 "\<lparr>nsec = 1500000, zone_off = 0\<rparr>" 3000000]
    by (auto simp: t)
qed

text \<open>
  C33. A failing audit store never hides the provider's error and never passes for success:
  the response is still returned, the error returned is non-nil, \<open>errors.Is\<close> finds in it
  every target it finds in the provider's error or in the store's, and nothing is recorded.
\<close>

theorem Recorder_Generate_audit_failure:
  assumes "frs_err s = Some saveErr"
    and "run_state (prov_Generate provider req) (snd (run_state now w)) = ((resp, err), w2)"
  shows "\<exists>j w'.
     run_state (Recorder_Generate (memory_Recorder newID now) (lift_Provider provider) purpose req) (w, s)
       = ((resp, Some j), (w', s))
     \<and> (\<forall>t. errors_Is saveErr t \<longrightarrow> errors_Is j t)
     \<and> (\<forall>e t. err = Some e \<longrightarrow> errors_Is e t \<longrightarrow> errors_Is j t)"
proof -
  obtain j where j: "errors_Join [err, Some saveErr] = Some j" by (cases err) auto
  have "\<forall>t. errors_Is saveErr t \<longrightarrow> errors_Is j t"
    and "\<forall>e t. err = Some e \<longrightarrow> errors_Is e t \<longrightarrow> errors_Is j t"
    using errors_Is_Join [where errs = "[err, Some saveErr]"] j by fastforce+
  with assms j show ?thesis
    by (auto simp: Recorder_Generate_def memory_Recorder_def lift_Provider_def Let_def
        split: prod.splits)
qed

theorem Recorder_Generate_audit_failure_witness:
  "\<exists>j w'. run_state (Recorder_Generate (memory_Recorder (ret ''run-1'') (ret zeroTime))
        (lift_Provider (Claude_as_Provider \<lparr>claude_GenerateFunc = Some (\<lambda>_. ret (zeroResponse, Some Canceled))\<rparr>))
        ''job_deep_evaluation''
        \<lparr>req_Prompt = ''hi'', req_MaxTokens = 0, req_Temperature = 0, req_Metadata = Map.empty\<rparr>)
      ((), \<lparr>frs_saved = [], frs_err = NewError ''disk full''\<rparr>)
    = ((zeroResponse, Some j), (w', \<lparr>frs_saved = [], frs_err = NewError ''disk full''\<rparr>))
    \<and> errors_Is j Canceled"
  using Recorder_Generate_audit_failure [where s = "\<lparr>frs_saved = [], frs_err = NewError ''disk full''\<rparr>"
      and w = "()" and now = "ret zeroTime" and resp = zeroResponse and err = "Some Canceled"
      and provider = "Claude_as_Provider \<lparr>claude_GenerateFunc = Some (\<lambda>_. ret (zeroResponse, Some Canceled))\<rparr>"
      and saveErr = "ErrorString ''disk full''" and ?w2.0 = "()"
      and newID = "ret ''run-1''" and purpose = "''job_deep_evaluation''"
      and req = "\<lparr>req_Prompt = ''hi'', req_MaxTokens = 0, req_Temperature = 0, req_Metadata = Map.empty\<rparr>"]
  by (auto simp: Claude_as_Provider_def Claude_Generate_def)

end
