(* ===== verification/JobPipeline.thy ===== *)
theory JobPipeline
  imports Job ModelProvider
begin

text \<open>
  The package \<open>internal/job\<close>, second half: triage and deep evaluation of a job by a model
  provider, the deterministic conversion of model output into a score, and the pipeline
  that runs both stages under daily limits with stored evaluations.  Decoding the JSON of
  a response is a parameter (\<open>json_pkg\<close>, what \<open>encoding/json\<close> does for the two structs).
\<close>

section \<open>Job intelligence\<close>

record TriageOutput =
  tri_RoleType :: string
  tri_FitScore :: int
  tri_HardFail :: bool
  tri_MatchedSkills :: "string list"
  tri_MissingSkills :: "string list"
  tri_RiskFlags :: "string list"
  tri_RecommendedResume :: string
  tri_Recommendation :: string

record EvaluationOutput =
  evo_Score :: int
  evo_Recommendation :: string
  evo_Reasons :: "string list"
  evo_Concerns :: "string list"
  evo_MatchedSkills :: "string list"
  evo_MissingSkills :: "string list"
  evo_Confidence :: string

record json_pkg =
  Unmarshal_Triage :: "string \<Rightarrow> goerror + TriageOutput"
  Unmarshal_Evaluation :: "string \<Rightarrow> goerror + EvaluationOutput"

subsection \<open>From model output to a score\<close>

definition normalizeRecommendation :: "string \<Rightarrow> Recommendation" where
  "normalizeRecommendation s =
     (if s = ''apply'' \<or> s = ''APPLY'' then RecommendationApply
      else if s = ''reject'' \<or> s = ''REJECT'' then RecommendationReject
      else if s = ''review'' \<or> s = ''REVIEW'' then RecommendationReview
      else RecommendationOther '''')"

definition clampScore :: "int \<Rightarrow> int" where
  "clampScore v = (if v < 0 then 0 else if v > 100 then 100 else v)"

definition ApplyTriage :: "TriageOutput \<Rightarrow> Score" where
  "ApplyTriage out =
     (let score = zeroScore\<lparr>score_Value := clampScore (tri_FitScore out),
                            score_MatchedSkills := tri_MatchedSkills out,
                            score_MissingSkills := tri_MissingSkills out,
                            score_Concerns := tri_RiskFlags out,
                            score_EvaluatedBy := ''triage''\<rparr>
      in if tri_HardFail out then
           score\<lparr>score_Recommendation := RecommendationReject,
                 score_Reasons := [''triage hard filter failed''],
                 score_Confidence := ''high''\<rparr>
         else
           (case normalizeRecommendation (tri_Recommendation out) of
              RecommendationApply \<Rightarrow>
                score\<lparr>score_Recommendation := RecommendationApply,
                      score_Reasons := [''triage fit score '' @ strconv_Itoa (score_Value score)]\<rparr>
            | RecommendationReject \<Rightarrow>
                score\<lparr>score_Recommendation := RecommendationReject,
                      score_Reasons := [''triage fit score '' @ strconv_Itoa (score_Value score)
                                          @ '' below threshold'']\<rparr>
            | _ \<Rightarrow>
                score\<lparr>score_Recommendation := RecommendationReview,
                      score_Reasons := [''triage recommendation ambiguous or unrecognized'']\<rparr>)
           \<lparr>score_Confidence := ''medium''\<rparr>)"

definition normalizeConfidence :: "string \<Rightarrow> string" where
  "normalizeConfidence c = (if c = ''high'' \<or> c = ''medium'' \<or> c = ''low'' then c else ''low'')"

definition ApplyEvaluation :: "EvaluationOutput \<Rightarrow> Score" where
  "ApplyEvaluation out =
     (let score = zeroScore\<lparr>score_Value := clampScore (evo_Score out),
                            score_Reasons := evo_Reasons out,
                            score_Concerns := evo_Concerns out,
                            score_MatchedSkills := evo_MatchedSkills out,
                            score_MissingSkills := evo_MissingSkills out,
                            score_Confidence := normalizeConfidence (evo_Confidence out),
                            score_EvaluatedBy := ''deep_evaluation''\<rparr>
      in case normalizeRecommendation (evo_Recommendation out) of
           RecommendationApply \<Rightarrow> score\<lparr>score_Recommendation := RecommendationApply\<rparr>
         | RecommendationReject \<Rightarrow> score\<lparr>score_Recommendation := RecommendationReject\<rparr>
         | _ \<Rightarrow>
             (let score = score\<lparr>score_Recommendation := RecommendationReview\<rparr>
              in if length (score_Reasons score) = 0
                 then score\<lparr>score_Reasons := [''deep evaluation recommendation ambiguous or unrecognized'']\<rparr>
                 else score))"

subsection \<open>The two model stages\<close>

record 'w Triager =
  tr_Recorder :: "'w Recorder"
  tr_Provider :: "'w Provider"

definition NewTriager :: "'w Recorder \<Rightarrow> 'w Provider \<Rightarrow> 'w Triager" where
  "NewTriager recorder provider = \<lparr>tr_Recorder = recorder, tr_Provider = provider\<rparr>"

definition job_request :: "string \<Rightarrow> string \<Rightarrow> Request" where
  "job_request jobID prompt =
     \<lparr>req_Prompt = prompt, req_MaxTokens = 0, req_Temperature = 0,
      req_Metadata = [''job_id'' \<mapsto> jobID]\<rparr>"

definition Triage :: "json_pkg \<Rightarrow> 'w Triager \<Rightarrow> string \<Rightarrow> string \<Rightarrow> ('w, goerror + TriageOutput) state" where
  "Triage json t jobID prompt = do {
     (resp, err) \<leftarrow> Recorder_Generate (tr_Recorder t) (tr_Provider t) ''job_triage'' (job_request jobID prompt);
     case err of
       Some e \<Rightarrow> ret (Inl (WrapError ''job: triage generate: '' e))
     | None \<Rightarrow>
         (case Unmarshal_Triage json (resp_Text resp) of
            Inl e \<Rightarrow> ret (Inl (WrapError ''job: triage response is not valid TriageOutput JSON: '' e))
          | Inr out \<Rightarrow> ret (Inr out))
   }"

record 'w Evaluator =
  ev_Recorder :: "'w Recorder"
  ev_Provider :: "'w Provider"

definition NewEvaluator :: "'w Recorder \<Rightarrow> 'w Provider \<Rightarrow> 'w Evaluator" where
  "NewEvaluator recorder provider = \<lparr>ev_Recorder = recorder, ev_Provider = provider\<rparr>"

definition Evaluate :: "json_pkg \<Rightarrow> 'w Evaluator \<Rightarrow> string \<Rightarrow> string \<Rightarrow> ('w, goerror + EvaluationOutput) state" where
  "Evaluate json e jobID prompt = do {
     (resp, err) \<leftarrow> Recorder_Generate (ev_Recorder e) (ev_Provider e) ''job_deep_evaluation'' (job_request jobID prompt);
     case err of
       Some er \<Rightarrow> ret (Inl (WrapError ''job: evaluate generate: '' er))
     | None \<Rightarrow>
         (case Unmarshal_Evaluation json (resp_Text resp) of
            Inl er \<Rightarrow> ret (Inl (WrapError ''job: evaluation response is not valid EvaluationOutput JSON: '' er))
          | Inr out \<Rightarrow> ret (Inr out))
   }"

subsection \<open>The pipeline\<close>

record JobLimits =
  lim_JobsDiscoveredPerDay :: int
  lim_DeepEvaluationsPerDay :: int

record 'w PromptBuilder =
  TriagePrompt :: "Job \<Rightarrow> ('w, string) state"
  EvaluationPrompt :: "Job \<Rightarrow> ('w, string) state"

record Evaluation =
  eval_ID :: string
  eval_JobID :: string
  eval_Stage :: string
  eval_Score :: Score
  eval_CreatedAt :: Time

record 'w EvaluationStore =
  SaveEvaluation :: "Evaluation \<Rightarrow> ('w, error) state"
  CountDeepEvaluationsSince :: "Time \<Rightarrow> ('w, int \<times> error) state"
  GetEvaluation :: "string \<Rightarrow> string \<Rightarrow> ('w, Evaluation \<times> bool \<times> error) state"

record 'w JobPipeline =
  pl_JobStore :: "'w JobStore"
  pl_EvalStore :: "'w EvaluationStore"
  pl_Prompts :: "'w PromptBuilder"
  pl_Triager :: "'w Triager"
  pl_Evaluator :: "'w Evaluator"
  pl_Limits :: JobLimits
  pl_NewID :: "('w, string) state"
  pl_Now :: "('w, Time) state"

definition NewJobPipeline ::
    "('w, Time) state \<Rightarrow> 'w JobStore \<Rightarrow> 'w EvaluationStore \<Rightarrow> 'w PromptBuilder \<Rightarrow> 'w Triager
     \<Rightarrow> 'w Evaluator \<Rightarrow> JobLimits \<Rightarrow> ('w, string) state \<Rightarrow> 'w JobPipeline" where
  "NewJobPipeline time_Now jobStore evalStore prompts triager evaluator limits newID =
     \<lparr>pl_JobStore = jobStore, pl_EvalStore = evalStore, pl_Prompts = prompts, pl_Triager = triager,
      pl_Evaluator = evaluator, pl_Limits = limits, pl_NewID = newID, pl_Now = time_Now\<rparr>"

definition runTriage :: "json_pkg \<Rightarrow> 'w JobPipeline \<Rightarrow> Job \<Rightarrow> ('w, goerror + Score) state" where
  "runTriage json p j = do {
     (existing, found, err) \<leftarrow> GetEvaluation (pl_EvalStore p) (job_ID j) ''triage'';
     case err of
       Some e \<Rightarrow> ret (Inl (WrapError ''job: check triage idempotency: '' e))
     | None \<Rightarrow>
         if found then ret (Inr (eval_Score existing))
         else do {
           prompt \<leftarrow> TriagePrompt (pl_Prompts p) j;
           out \<leftarrow> Triage json (pl_Triager p) (job_ID j) prompt;
           case out of
             Inl e \<Rightarrow> ret (Inl e)
           | Inr out \<Rightarrow> do {
               let score = ApplyTriage out;
               i \<leftarrow> pl_NewID p;
               t \<leftarrow> pl_Now p;
               serr \<leftarrow> SaveEvaluation (pl_EvalStore p)
                 \<lparr>eval_ID = i, eval_JobID = job_ID j, eval_Stage = ''triage'', eval_Score = score,
                  eval_CreatedAt = t\<rparr>;
               case serr of
                 Some e \<Rightarrow> ret (Inl (WrapError ''job: save triage evaluation: '' e))
               | None \<Rightarrow> ret (Inr score)
             }
         }
   }"

definition runDeepEvaluation :: "json_pkg \<Rightarrow> 'w JobPipeline \<Rightarrow> Job \<Rightarrow> ('w, goerror + Score) state" where
  "runDeepEvaluation json p j = do {
     (existing, found, err) \<leftarrow> GetEvaluation (pl_EvalStore p) (job_ID j) ''deep_evaluation'';
     case err of
       Some e \<Rightarrow> ret (Inl (WrapError ''job: check deep-evaluation idempotency: '' e))
     | None \<Rightarrow>
         if found then ret (Inr (eval_Score existing))
         else do {
           prompt \<leftarrow> EvaluationPrompt (pl_Prompts p) j;
           out \<leftarrow> Evaluate json (pl_Evaluator p) (job_ID j) prompt;
           case out of
             Inl e \<Rightarrow> ret (Inl e)
           | Inr out \<Rightarrow> do {
               let score = ApplyEvaluation out;
               i \<leftarrow> pl_NewID p;
               t \<leftarrow> pl_Now p;
               serr \<leftarrow> SaveEvaluation (pl_EvalStore p)
                 \<lparr>eval_ID = i, eval_JobID = job_ID j, eval_Stage = ''deep_evaluation'', eval_Score = score,
                  eval_CreatedAt = t\<rparr>;
               case serr of
                 Some e \<Rightarrow> ret (Inl (WrapError ''job: save deep evaluation: '' e))
               | None \<Rightarrow> ret (Inr score)
             }
         }
   }"

definition pipeline_startOfToday :: "'w JobPipeline \<Rightarrow> ('w, Time) state" where
  "pipeline_startOfToday p = do { now \<leftarrow> pl_Now p; ret (startOfDay now) }"

definition Process :: "json_pkg \<Rightarrow> 'w JobPipeline \<Rightarrow> Job \<Rightarrow> ('w, goerror + Score) state" where
  "Process json p j = do {
     startOfToday \<leftarrow> pipeline_startOfToday p;
     (discoveredCount, err) \<leftarrow> CountDiscoveredSince (pl_JobStore p) startOfToday;
     case err of
       Some e \<Rightarrow> ret (Inl (WrapError ''job: check discovery limit: '' e))
     | None \<Rightarrow>
         if discoveredCount \<ge> lim_JobsDiscoveredPerDay (pl_Limits p) then
           ret (Inl (ErrorString (''job: daily discovery limit (''
             @ strconv_Itoa (lim_JobsDiscoveredPerDay (pl_Limits p)) @ '') reached'')))
         else do {
           triage \<leftarrow> runTriage json p j;
           case triage of
             Inl e \<Rightarrow> ret (Inl e)
           | Inr triageScore \<Rightarrow>
               if score_Recommendation triageScore \<noteq> RecommendationApply then ret (Inr triageScore)
               else do {
                 (deepCount, derr) \<leftarrow> CountDeepEvaluationsSince (pl_EvalStore p) startOfToday;
                 case derr of
                   Some e \<Rightarrow> ret (Inl (WrapError ''job: check deep-eval limit: '' e))
                 | None \<Rightarrow>
                     if deepCount \<ge> lim_DeepEvaluationsPerDay (pl_Limits p) then ret (Inr triageScore)
                     else runDeepEvaluation json p j
               }
         }
   }"

subsection \<open>Clamping and normalising\<close>

lemma clampScore_bounds: "0 \<le> clampScore v \<and> clampScore v \<le> 100"
  by (simp add: clampScore_def)

lemma normalizeRecommendation_Apply:
  "normalizeRecommendation s = RecommendationApply \<longleftrightarrow> s = ''apply'' \<or> s = ''APPLY''"
  by (simp add: normalizeRecommendation_def)

lemma normalizeRecommendation_Reject:
  "normalizeRecommendation s = RecommendationReject \<longleftrightarrow> s = ''reject'' \<or> s = ''REJECT''"
  by (auto simp: normalizeRecommendation_def)

lemmas normalizeRecommendation_iffs = normalizeRecommendation_Apply normalizeRecommendation_Reject

subsection \<open>The contract of an evaluation store and of the pipeline's environment\<close>

abbreviation job_stages :: "string set" where
  "job_stages \<equiv> {''triage'', ''deep_evaluation''}"

definition zeroEvaluation :: Evaluation where
  [zero_defs]: "zeroEvaluation =
     \<lparr>eval_ID = [], eval_JobID = [], eval_Stage = [], eval_Score = zeroScore, eval_CreatedAt = zeroTime\<rparr>"

text \<open>
  \<open>get_of w i s\<close> is the evaluation stored for the job \<open>i\<close> at the stage \<open>s\<close>.  Reading it
  changes nothing, and saving an evaluation makes it the one of its job and stage and
  leaves the others as they are.
\<close>

locale eval_store =
  fixes es :: "'w EvaluationStore"
    and get_of :: "'w \<Rightarrow> string \<Rightarrow> string \<Rightarrow> Evaluation option"
  assumes get_evaluation: "run_state (GetEvaluation es i st) w =
      ((case get_of w i st of Some e \<Rightarrow> (e, True, None) | None \<Rightarrow> (zeroEvaluation, False, None)), w)"
    and save_evaluation: "run_state (SaveEvaluation es e) w = (err, w') \<Longrightarrow>
      eval_Stage e \<in> job_stages \<Longrightarrow> st \<in> job_stages \<Longrightarrow>
      err = None \<and> get_of w' i st = (if i = eval_JobID e \<and> st = eval_Stage e then Some e else get_of w i st)"

locale pipeline_env = eval_store "pl_EvalStore p" get_of
  for p :: "'w JobPipeline" and get_of :: "'w \<Rightarrow> string \<Rightarrow> string \<Rightarrow> Evaluation option" +
  assumes env_leaves:
    "leaves get_of (pl_NewID p)" "leaves get_of (pl_Now p)"
    "leaves get_of (CountDiscoveredSince (pl_JobStore p) t)"
    "leaves get_of (CountDeepEvaluationsSince (pl_EvalStore p) t)"
    "leaves get_of (TriagePrompt (pl_Prompts p) j)" "leaves get_of (EvaluationPrompt (pl_Prompts p) j)"
    "leaves get_of (Recorder_Generate (tr_Recorder (pl_Triager p)) (tr_Provider (pl_Triager p)) pu rq)"
    "leaves get_of (Recorder_Generate (ev_Recorder (pl_Evaluator p)) (ev_Provider (pl_Evaluator p)) pu rq)"
begin

lemma leaves_Triage: "leaves get_of (Triage json (pl_Triager p) i prompt)"
  unfolding Triage_def by (intro leaves_rules env_leaves)

lemma leaves_Evaluate: "leaves get_of (Evaluate json (pl_Evaluator p) i prompt)"
  unfolding Evaluate_def by (intro leaves_rules env_leaves)

lemma runTriage_stored:
  "get_of w (job_ID j) ''triage'' = Some e \<Longrightarrow> run_state (runTriage json p j) w = (Inr (eval_Score e), w)"
  by (simp add: runTriage_def get_evaluation)

lemma runDeep_stored:
  "get_of w (job_ID j) ''deep_evaluation'' = Some e \<Longrightarrow>
   run_state (runDeepEvaluation json p j) w = (Inr (eval_Score e), w)"
  by (simp add: runDeepEvaluation_def get_evaluation)

text \<open>
  A stage that is not stored yet: on success its score is the deterministic conversion of
  a decoded model output, and it is stored for exactly that job and stage.
\<close>

lemma runTriage_fresh:
  assumes "get_of w (job_ID j) ''triage'' = None" and "run_state (runTriage json p j) w = (r, w')"
  shows "(\<exists>e. r = Inl e \<and> get_of w' = get_of w) \<or>
    (\<exists>out ev. r = Inr (ApplyTriage out) \<and> eval_Score ev = ApplyTriage out
       \<and> (\<forall>i st. st \<in> job_stages \<longrightarrow> get_of w' i st =
            (if i = job_ID j \<and> st = ''triage'' then Some ev else get_of w i st)))"
proof -
  obtain prompt w1 where p1: "run_state (TriagePrompt (pl_Prompts p) j) w = (prompt, w1)" by fastforce
  obtain o1 w2 where p2: "run_state (Triage json (pl_Triager p) (job_ID j) prompt) w1 = (o1, w2)" by fastforce
  obtain i w3 where p3: "run_state (pl_NewID p) w2 = (i, w3)" by fastforce
  obtain t w4 where p4: "run_state (pl_Now p) w3 = (t, w4)" by fastforce
  note g = leavesD [OF env_leaves(5) p1] leavesD [OF leaves_Triage p2]
    leavesD [OF env_leaves(1) p3] leavesD [OF env_leaves(2) p4]
  show ?thesis
  proof (cases o1)
    case (Inl e)
    with assms p1 p2 g show ?thesis by (auto simp: runTriage_def get_evaluation)
  next
    case (Inr out)
    let ?ev = "\<lparr>eval_ID = i, eval_JobID = job_ID j, eval_Stage = ''triage'',
                 eval_Score = ApplyTriage out, eval_CreatedAt = t\<rparr>"
    obtain serr w5 where p5: "run_state (SaveEvaluation (pl_EvalStore p) ?ev) w4 = (serr, w5)" by fastforce
    have s5: "serr = None"
      "\<And>k st. st \<in> job_stages \<Longrightarrow> get_of w5 k st =
          (if k = job_ID j \<and> st = ''triage'' then Some ?ev else get_of w4 k st)"
      using save_evaluation [OF p5, of "''triage''"] save_evaluation [OF p5] by simp_all
    from assms p1 p2 p3 p4 p5 Inr s5(1) have "r = Inr (ApplyTriage out) \<and> w' = w5"
      by (simp add: runTriage_def get_evaluation Let_def)
    with s5(2) g show ?thesis
      by (intro disjI2 exI [of _ out] exI [of _ ?ev]) simp
  qed
qed

lemma runDeep_fresh:
  assumes "get_of w (job_ID j) ''deep_evaluation'' = None"
    and "run_state (runDeepEvaluation json p j) w = (r, w')"
  shows "(\<exists>e. r = Inl e \<and> get_of w' = get_of w) \<or>
    (\<exists>out ev. r = Inr (ApplyEvaluation out) \<and> eval_Score ev = ApplyEvaluation out
       \<and> (\<forall>i st. st \<in> job_stages \<longrightarrow> get_of w' i st =
            (if i = job_ID j \<and> st = ''deep_evaluation'' then Some ev else get_of w i st)))"
proof -
  obtain prompt w1 where p1: "run_state (EvaluationPrompt (pl_Prompts p) j) w = (prompt, w1)" by fastforce
  obtain o1 w2 where p2: "run_state (Evaluate json (pl_Evaluator p) (job_ID j) prompt) w1 = (o1, w2)" by fastforce
  obtain i w3 where p3: "run_state (pl_NewID p) w2 = (i, w3)" by fastforce
  obtain t w4 where p4: "run_state (pl_Now p) w3 = (t, w4)" by fastforce
  note g = leavesD [OF env_leaves(6) p1] leavesD [OF leaves_Evaluate p2]
    leavesD [OF env_leaves(1) p3] leavesD [OF env_leaves(2) p4]
  show ?thesis
  proof (cases o1)
    case (Inl e)
    with assms p1 p2 g show ?thesis by (auto simp: runDeepEvaluation_def get_evaluation)
  next
    case (Inr out)
    let ?ev = "\<lparr>eval_ID = i, eval_JobID = job_ID j, eval_Stage = ''deep_evaluation'',
                 eval_Score = ApplyEvaluation out, eval_CreatedAt = t\<rparr>"
    obtain serr w5 where p5: "run_state (SaveEvaluation (pl_EvalStore p) ?ev) w4 = (serr, w5)" by fastforce
    have s5: "serr = None"
      "\<And>k st. st \<in> job_stages \<Longrightarrow> get_of w5 k st =
          (if k = job_ID j \<and> st = ''deep_evaluation'' then Some ?ev else get_of w4 k st)"
      using save_evaluation [OF p5, of "''triage''"] save_evaluation [OF p5] by simp_all
    from assms p1 p2 p3 p4 p5 Inr s5(1) have "r = Inr (ApplyEvaluation out) \<and> w' = w5"
      by (simp add: runDeepEvaluation_def get_evaluation Let_def)
    with s5(2) g show ?thesis
      by (intro disjI2 exI [of _ out] exI [of _ ?ev]) simp
  qed
qed

end

subsection \<open>The in-memory evaluation store and a pipeline over it\<close>

record fakeEvalStore =
  fes_evaluations :: "string \<rightharpoonup> Evaluation"
  fes_deepCount :: int

definition newFakeEvalStore :: fakeEvalStore where
  "newFakeEvalStore = \<lparr>fes_evaluations = Map.empty, fes_deepCount = 0\<rparr>"

definition fes_get :: "fakeEvalStore \<Rightarrow> string \<Rightarrow> string \<Rightarrow> Evaluation option" where
  "fes_get s i st = fes_evaluations s (i @ ''|'' @ st)"

definition fakeEvalStore_Save :: "Evaluation \<Rightarrow> fakeEvalStore \<Rightarrow> error \<times> fakeEvalStore" where
  "fakeEvalStore_Save e s =
     (let s1 = s\<lparr>fes_evaluations := (fes_evaluations s)(eval_JobID e @ ''|'' @ eval_Stage e \<mapsto> e)\<rparr>
      in (None, if eval_Stage e = ''deep_evaluation''
                then s1\<lparr>fes_deepCount := fes_deepCount s1 + 1\<rparr> else s1))"

definition fakeEvalStore_ops :: "fakeEvalStore EvaluationStore" where
  "fakeEvalStore_ops =
     \<lparr>SaveEvaluation = (\<lambda>e. State (fakeEvalStore_Save e)),
      CountDeepEvaluationsSince = (\<lambda>t. State (\<lambda>s. ((fes_deepCount s, None), s))),
      GetEvaluation = (\<lambda>i st. State (\<lambda>s.
        (case fes_get s i st of Some e \<Rightarrow> (e, True, None) | None \<Rightarrow> (zeroEvaluation, False, None), s)))\<rparr>"

lemma stage_key_inj:
  assumes "st \<in> job_stages" and "st' \<in> job_stages"
  shows "i @ CHR ''|'' # st = i' @ CHR ''|'' # st' \<longleftrightarrow> i = i' \<and> st = st'"
proof
  assume eq: "i @ CHR ''|'' # st = i' @ CHR ''|'' # st'"
  from arg_cong [OF eq, of last] assms have "st = st'" by auto
  with eq show "i = i' \<and> st = st'" by simp
qed simp

lemma fakeEvalStore_Save_simps:
  "fst (fakeEvalStore_Save e s) = None"
  "fes_evaluations (snd (fakeEvalStore_Save e s))
     = (fes_evaluations s)(eval_JobID e @ ''|'' @ eval_Stage e \<mapsto> e)"
  "fes_deepCount (snd (fakeEvalStore_Save e s))
     = fes_deepCount s + (if eval_Stage e = ''deep_evaluation'' then 1 else 0)"
  by (simp_all add: fakeEvalStore_Save_def Let_def)

lemma fes_get_Save:
  "eval_Stage e \<in> job_stages \<Longrightarrow> st \<in> job_stages \<Longrightarrow>
   fes_get (snd (fakeEvalStore_Save e s)) i st =
     (if i = eval_JobID e \<and> st = eval_Stage e then Some e else fes_get s i st)"
  by (simp only: fes_get_def fakeEvalStore_Save_simps fun_upd_apply append_Cons append_Nil stage_key_inj)

interpretation fake_evals: eval_store fakeEvalStore_ops fes_get
proof
  fix e err st i and s s' :: fakeEvalStore
  assume run: "run_state (SaveEvaluation fakeEvalStore_ops e) s = (err, s')"
    and st: "eval_Stage e \<in> job_stages" "st \<in> job_stages"
  from run have "err = fst (fakeEvalStore_Save e s)" and "s' = snd (fakeEvalStore_Save e s)"
    by (simp_all add: fakeEvalStore_ops_def)
  then show "err = None \<and> fes_get s' i st =
      (if i = eval_JobID e \<and> st = eval_Stage e then Some e else fes_get s i st)"
    by (simp only: fakeEvalStore_Save_simps fes_get_Save [OF st])
qed (simp add: fakeEvalStore_ops_def)

text \<open>The world of \<open>pipeline_test.go\<close>: the job store, the evaluation store, the run log.\<close>

record pipe_world =
  pw_jobs :: fakeJobStore
  pw_evals :: fakeEvalStore
  pw_runs :: fakeRunStore

definition pipe_world0 :: pipe_world where
  "pipe_world0 = \<lparr>pw_jobs = newFakeJobStore, pw_evals = newFakeEvalStore,
                  pw_runs = \<lparr>frs_saved = [], frs_err = None\<rparr>\<rparr>"

definition on_jobs :: "(fakeJobStore, 'a) state \<Rightarrow> (pipe_world, 'a) state" where
  "on_jobs = on_part pw_jobs (\<lambda>s w. w\<lparr>pw_jobs := s\<rparr>)"

definition on_evals :: "(fakeEvalStore, 'a) state \<Rightarrow> (pipe_world, 'a) state" where
  "on_evals = on_part pw_evals (\<lambda>s w. w\<lparr>pw_evals := s\<rparr>)"

definition on_runs :: "(fakeRunStore, 'a) state \<Rightarrow> (pipe_world, 'a) state" where
  "on_runs = on_part pw_runs (\<lambda>s w. w\<lparr>pw_runs := s\<rparr>)"

definition jsonProvider :: "string \<Rightarrow> 'w Provider" where
  "jsonProvider text = Gemini_as_Provider
     \<lparr>gemini_GenerateFunc = Some (\<lambda>_. ret (\<lparr>resp_Text = text, resp_InputTokens = 0, resp_OutputTokens = 0\<rparr>, None))\<rparr>"

definition test_recorder :: "pipe_world Recorder" where
  "test_recorder = NewRecorder (ret zeroTime) \<lparr>SaveModelRun = (\<lambda>r. on_runs (fakeRunStore_SaveRun r))\<rparr> (ret ''run'')"

definition test_pipeline :: "string \<Rightarrow> string \<Rightarrow> JobLimits \<Rightarrow> Time \<Rightarrow> pipe_world JobPipeline" where
  "test_pipeline triageText evalText limits t = NewJobPipeline (ret t)
     \<lparr>GetJob = (\<lambda>i. on_jobs (GetJob fakeJobStore_ops i)),
      FindBySourceJobID = (\<lambda>s i. on_jobs (FindBySourceJobID fakeJobStore_ops s i)),
      FindByNormalizedHash = (\<lambda>h. on_jobs (FindByNormalizedHash fakeJobStore_ops h)),
      SaveJob = (\<lambda>j. on_jobs (SaveJob fakeJobStore_ops j)),
      CountDiscoveredSince = (\<lambda>t. on_jobs (CountDiscoveredSince fakeJobStore_ops t))\<rparr>
     \<lparr>SaveEvaluation = (\<lambda>e. on_evals (SaveEvaluation fakeEvalStore_ops e)),
      CountDeepEvaluationsSince = (\<lambda>t. on_evals (CountDeepEvaluationsSince fakeEvalStore_ops t)),
      GetEvaluation = (\<lambda>i st. on_evals (GetEvaluation fakeEvalStore_ops i st))\<rparr>
     \<lparr>TriagePrompt = (\<lambda>j. ret (''triage:'' @ job_ID j)),
      EvaluationPrompt = (\<lambda>j. ret (''evaluate:'' @ job_ID j))\<rparr>
     (NewTriager test_recorder (jsonProvider triageText))
     (NewEvaluator test_recorder (jsonProvider evalText))
     limits (ret ''eval-1'')"

definition pw_get :: "pipe_world \<Rightarrow> string \<Rightarrow> string \<Rightarrow> Evaluation option" where
  "pw_get w = fes_get (pw_evals w)"

lemma pw_get_simps:
  "pw_get w i st = fes_get (pw_evals w) i st"
  "pw_get (w\<lparr>pw_jobs := jobs\<rparr>) = pw_get w"
  "pw_get (w\<lparr>pw_runs := runs\<rparr>) = pw_get w"
  by (simp_all add: pw_get_def fun_eq_iff)

lemma test_pipeline_simps:
  "pl_NewID (test_pipeline a b lims t) = ret ''eval-1''"
  "pl_Now (test_pipeline a b lims t) = ret t"
  "pl_Limits (test_pipeline a b lims t) = lims"
  "CountDiscoveredSince (pl_JobStore (test_pipeline a b lims t)) u
     = on_jobs (CountDiscoveredSince fakeJobStore_ops u)"
  "SaveEvaluation (pl_EvalStore (test_pipeline a b lims t)) e
     = on_evals (SaveEvaluation fakeEvalStore_ops e)"
  "CountDeepEvaluationsSince (pl_EvalStore (test_pipeline a b lims t)) u
     = on_evals (CountDeepEvaluationsSince fakeEvalStore_ops u)"
  "GetEvaluation (pl_EvalStore (test_pipeline a b lims t)) i st
     = on_evals (GetEvaluation fakeEvalStore_ops i st)"
  "TriagePrompt (pl_Prompts (test_pipeline a b lims t)) j = ret (''triage:'' @ job_ID j)"
  "EvaluationPrompt (pl_Prompts (test_pipeline a b lims t)) j = ret (''evaluate:'' @ job_ID j)"
  "tr_Recorder (pl_Triager (test_pipeline a b lims t)) = test_recorder"
  "tr_Provider (pl_Triager (test_pipeline a b lims t)) = jsonProvider a"
  "ev_Recorder (pl_Evaluator (test_pipeline a b lims t)) = test_recorder"
  "ev_Provider (pl_Evaluator (test_pipeline a b lims t)) = jsonProvider b"
  by (simp_all add: test_pipeline_def NewJobPipeline_def NewTriager_def NewEvaluator_def)

lemma leaves_Recorder:
  assumes "leaves f (rec_Now r)" "leaves f (rec_NewID r)" "\<And>rq. leaves f (prov_Generate pr rq)"
    "\<And>run. leaves f (SaveModelRun (rec_Store r) run)"
  shows "leaves f (Recorder_Generate r pr pu rq)"
  unfolding Recorder_Generate_def by (intro leaves_rules assms)

lemma leaves_test_recorder: "leaves pw_get (Recorder_Generate test_recorder (jsonProvider x) pu rq)"
  by (rule leaves_Recorder)
     (auto simp: test_recorder_def NewRecorder_def jsonProvider_def Gemini_as_Provider_def
       Gemini_Generate_def on_runs_def pw_get_def intro!: leaves_rules leaves_on_part)

interpretation test_pl: pipeline_env "test_pipeline a b lims t" pw_get for a b lims t
proof
  fix e err st i and w w' :: pipe_world
  assume run: "run_state (SaveEvaluation (pl_EvalStore (test_pipeline a b lims t)) e) w = (err, w')"
    and st: "eval_Stage e \<in> job_stages" "st \<in> job_stages"
  from run have "run_state (SaveEvaluation fakeEvalStore_ops e) (pw_evals w) = (err, pw_evals w')"
    by (auto simp: test_pipeline_simps on_evals_def split: prod.splits)
  from fake_evals.save_evaluation [OF this st] show "err = None \<and> pw_get w' i st =
      (if i = eval_JobID e \<and> st = eval_Stage e then Some e else pw_get w i st)"
    by (simp only: pw_get_def)
qed (simp_all add: test_pipeline_simps on_evals_def on_jobs_def pw_get_simps
      fake_evals.get_evaluation leaves_test_recorder leaves_return leaves_on_part
      split: option.splits, simp_all add: leaves_def fakeEvalStore_ops_def)

subsection \<open>Counting deep evaluations\<close>

definition deep_count :: "pipe_world \<Rightarrow> int" where
  "deep_count w = fes_deepCount (pw_evals w)"

lemma deep_count_upd:
  "deep_count (w\<lparr>pw_jobs := jobs\<rparr>) = deep_count w" "deep_count (w\<lparr>pw_runs := runs\<rparr>) = deep_count w"
  by (simp_all add: deep_count_def)

lemma deep_leaves_runs: "leaves deep_count (on_runs m)"
  unfolding on_runs_def by (rule leaves_on_part) (rule deep_count_upd)

lemma deep_leaves_jobs: "leaves deep_count (on_jobs m)"
  unfolding on_jobs_def by (rule leaves_on_part) (rule deep_count_upd)

lemma deep_leaves_Recorder:
  "leaves deep_count (Recorder_Generate test_recorder (jsonProvider x) pu rq)"
proof (rule leaves_Recorder)
  show "leaves deep_count (prov_Generate (jsonProvider x) rq)" for rq
    by (simp add: jsonProvider_def Gemini_as_Provider_def Gemini_Generate_def leaves_return)
qed (simp_all add: test_recorder_def NewRecorder_def leaves_return deep_leaves_runs)

lemma deep_leaves_evals:
  "leaves deep_count (on_evals (GetEvaluation fakeEvalStore_ops i st))"
  "leaves deep_count (on_evals (CountDeepEvaluationsSince fakeEvalStore_ops u))"
  "eval_Stage e = ''triage'' \<Longrightarrow> leaves deep_count (on_evals (SaveEvaluation fakeEvalStore_ops e))"
  by (simp_all add: leaves_def deep_count_def on_evals_def fakeEvalStore_ops_def
      fakeEvalStore_Save_def Let_def)

lemmas deep_leaves = deep_leaves_Recorder deep_leaves_jobs deep_leaves_evals

lemma leaves_deep_runTriage: "leaves deep_count (runTriage json (test_pipeline a b lims t) j)"
  unfolding runTriage_def Triage_def test_pipeline_simps by (intro leaves_rules deep_leaves) simp

subsection \<open>Properties\<close>

lemma ApplyTriage_Recommendation:
  "score_Recommendation (ApplyTriage out) =
     (if tri_HardFail out then RecommendationReject
      else if tri_Recommendation out \<in> {''apply'', ''APPLY''} then RecommendationApply
      else if tri_Recommendation out \<in> {''reject'', ''REJECT''} then RecommendationReject
      else RecommendationReview)"
  by (auto simp: ApplyTriage_def normalizeRecommendation_def Let_def)

lemma ApplyEvaluation_Recommendation:
  "score_Recommendation (ApplyEvaluation out) =
     (if evo_Recommendation out \<in> {''apply'', ''APPLY''} then RecommendationApply
      else if evo_Recommendation out \<in> {''reject'', ''REJECT''} then RecommendationReject
      else RecommendationReview)"
  by (auto simp: ApplyEvaluation_def normalizeRecommendation_def Let_def)

lemma score_Value_clamped:
  "score_Value (ApplyTriage out) = clampScore (tri_FitScore out)"
  "score_Value (ApplyEvaluation ev) = clampScore (evo_Score ev)"
  by (auto simp: ApplyTriage_def ApplyEvaluation_def Let_def split: Recommendation.splits)

lemma score_bounds:
  assumes "s = ApplyTriage tri \<or> s = ApplyEvaluation ev"
  shows "0 \<le> score_Value s \<and> score_Value s \<le> 100
     \<and> score_Recommendation s \<in> {RecommendationApply, RecommendationReview, RecommendationReject}"
  using assms clampScore_bounds
  by (elim disjE) (simp_all add: score_Value_clamped ApplyTriage_Recommendation
      ApplyEvaluation_Recommendation split: if_split)

lemma Process_twice:
  assumes "Unmarshal_Triage json a = Inr tri"
    and "score_Recommendation (ApplyTriage tri) = RecommendationApply"
    and "Unmarshal_Evaluation json b = Inr evo"
    and "lim_DeepEvaluationsPerDay lims = 1" and "0 < lim_JobsDiscoveredPerDay lims"
  shows "\<exists>w1 w2. run_state (Process json (test_pipeline a b lims t) j) pipe_world0 = (Inr (ApplyEvaluation evo), w1)
     \<and> run_state (Process json (test_pipeline a b lims t) j) w1 = (Inr (ApplyTriage tri), w2)"
  using assms
  by (simp add: Process_def pipeline_startOfToday_def runTriage_def runDeepEvaluation_def Triage_def
      Evaluate_def Recorder_Generate_def test_pipeline_simps test_recorder_def NewRecorder_def
      jsonProvider_def Gemini_as_Provider_def Gemini_Generate_def on_jobs_def on_evals_def on_runs_def
      fakeJobStore_ops_def fakeEvalStore_ops_def fakeEvalStore_Save_def fes_get_def
      pipe_world0_def newFakeJobStore_def newFakeEvalStore_def Let_def)

text \<open>The models of the examples: triage recommends, deep evaluation doubts.\<close>

definition sample_json :: json_pkg where
  "sample_json =
     \<lparr>Unmarshal_Triage = (\<lambda>_. Inr \<lparr>tri_RoleType = ''backend'', tri_FitScore = 140, tri_HardFail = False,
        tri_MatchedSkills = [''go''], tri_MissingSkills = [], tri_RiskFlags = [],
        tri_RecommendedResume = [], tri_Recommendation = ''apply''\<rparr>),
      Unmarshal_Evaluation = (\<lambda>_. Inr \<lparr>evo_Score = -3, evo_Recommendation = ''maybe'', evo_Reasons = [],
        evo_Concerns = [], evo_MatchedSkills = [], evo_MissingSkills = [], evo_Confidence = ''sure''\<rparr>)\<rparr>"

abbreviation sample_lims :: JobLimits where
  "sample_lims \<equiv> \<lparr>lim_JobsDiscoveredPerDay = 5, lim_DeepEvaluationsPerDay = 1\<rparr>"

lemma sample_json_simps:
  "\<exists>tri. Unmarshal_Triage sample_json x = Inr tri \<and> tri_FitScore tri = 140
     \<and> score_Recommendation (ApplyTriage tri) = RecommendationApply"
  "\<exists>evo. Unmarshal_Evaluation sample_json y = Inr evo \<and> evo_Score evo = -3"
  by (simp_all add: sample_json_def ApplyTriage_Recommendation)

lemma sample_Process:
  "\<exists>w1 s. run_state (Process sample_json (test_pipeline a b sample_lims t) j) pipe_world0 = (Inr s, w1)"
proof -
  from sample_json_simps obtain tri evo where "Unmarshal_Triage sample_json a = Inr tri"
    "score_Recommendation (ApplyTriage tri) = RecommendationApply"
    "Unmarshal_Evaluation sample_json b = Inr evo" by metis
  from Process_twice [OF this, of sample_lims t j] show ?thesis by auto
qed

text \<open>
  C20. No model output is taken at face value: whatever a stage answers, the score lies in
  0 to 100, the recommendation is one of the three known ones, an APPLY needs the literal
  \<open>apply\<close> or \<open>APPLY\<close> and, in triage, no hard failure (which always rejects), and the
  confidence is one of the three known levels.
\<close>

theorem model_output_policy:
  "(score_Recommendation (ApplyTriage out) = RecommendationApply
      \<longleftrightarrow> \<not> tri_HardFail out \<and> tri_Recommendation out \<in> {''apply'', ''APPLY''})
   \<and> (score_Recommendation (ApplyTriage out) = RecommendationReject
      \<longleftrightarrow> tri_HardFail out \<or> tri_Recommendation out \<in> {''reject'', ''REJECT''})
   \<and> (score_Recommendation (ApplyEvaluation ev) = RecommendationApply
      \<longleftrightarrow> evo_Recommendation ev \<in> {''apply'', ''APPLY''})
   \<and> {score_Recommendation (ApplyTriage out), score_Recommendation (ApplyEvaluation ev)}
       \<subseteq> {RecommendationApply, RecommendationReview, RecommendationReject}
   \<and> {score_Value (ApplyTriage out), score_Value (ApplyEvaluation ev)} \<subseteq> {0..100}
   \<and> score_Reasons (ApplyTriage out) \<noteq> []
   \<and> {score_Confidence (ApplyTriage out), score_Confidence (ApplyEvaluation ev)}
       \<subseteq> {''high'', ''medium'', ''low''}"
proof -
  have "score_Reasons (ApplyTriage out) \<noteq> []"
    and "score_Confidence (ApplyTriage out) \<in> {''high'', ''medium''}"
    by (auto simp: ApplyTriage_def Let_def split: Recommendation.splits)
  moreover have "score_Confidence (ApplyEvaluation ev) = normalizeConfidence (evo_Confidence ev)"
    by (auto simp: ApplyEvaluation_def Let_def split: Recommendation.splits)
  ultimately show ?thesis
    using clampScore_bounds
    by (auto simp: ApplyTriage_Recommendation ApplyEvaluation_Recommendation normalizeConfidence_def
        score_Value_clamped)
qed

text \<open>
  Deep evaluation may recommend without a reason: the reasons of its score are empty
  exactly when the model gave none and its recommendation was recognised as apply or
  reject; only an unrecognised recommendation gets a reason of its own.
\<close>

theorem ApplyEvaluation_unexplained:
  "score_Reasons (ApplyEvaluation out) = []
   \<longleftrightarrow> evo_Reasons out = [] \<and> score_Recommendation (ApplyEvaluation out) \<noteq> RecommendationReview"
  by (auto simp: ApplyEvaluation_def Let_def split: Recommendation.splits)

text \<open>
  Triage runs once: after \<open>runTriage\<close> has returned a score for a job, running it again
  on the job returns the same score and changes nothing, whatever the models would answer
  now; in particular no model is called.
\<close>

theorem runTriage_idempotent:
  assumes "run_state (runTriage json (test_pipeline a b lims t) j) w = (Inr s, w')"
  shows "run_state (runTriage json' (test_pipeline a' b' lims' t') j) w' = (Inr s, w')"
proof (cases "pw_get w (job_ID j) ''triage''")
  case (Some e)
  with assms test_pl.runTriage_stored [OF Some] show ?thesis by simp
next
  case None
  from test_pl.runTriage_fresh [OF None assms] obtain ev where
    "pw_get w' (job_ID j) ''triage'' = Some ev" "eval_Score ev = s" by auto
  with test_pl.runTriage_stored show ?thesis by metis
qed

theorem runTriage_idempotent_witness:
  "\<exists>s w. run_state (runTriage sample_json (test_pipeline ''x'' ''y'' sample_lims zeroTime) zeroJob) pipe_world0 = (Inr s, w)
     \<and> run_state (runTriage sample_json (test_pipeline ''z'' ''y'' sample_lims zeroTime) zeroJob) w = (Inr s, w)"
proof -
  obtain s w where r: "run_state (runTriage sample_json (test_pipeline ''x'' ''y'' sample_lims zeroTime) zeroJob)
      pipe_world0 = (Inr s, w)"
    by (simp add: runTriage_def Triage_def Recorder_Generate_def test_pipeline_simps test_recorder_def
        NewRecorder_def jsonProvider_def Gemini_as_Provider_def Gemini_Generate_def on_evals_def on_runs_def
        fakeEvalStore_ops_def fakeEvalStore_Save_def fes_get_def pipe_world0_def newFakeEvalStore_def
        sample_json_def Let_def)
  from runTriage_idempotent [OF r] r show ?thesis by blast
qed

text \<open>
  A stored deep evaluation is forgotten once the budget is spent: with a limit of one
  deep evaluation, a job that triage recommends gets its deep score from the first
  \<open>Process\<close>, and from the second the triage score again, because the limit is checked
  before the stored evaluation is looked up.
\<close>

theorem Process_forgets_deep_evaluation:
  assumes "Unmarshal_Triage json a = Inr tri"
    and "score_Recommendation (ApplyTriage tri) = RecommendationApply"
    and "Unmarshal_Evaluation json b = Inr evo"
    and "lim_DeepEvaluationsPerDay lims = 1" and "0 < lim_JobsDiscoveredPerDay lims"
  shows "\<exists>w1 w2. run_state (Process json (test_pipeline a b lims t) j) pipe_world0 = (Inr (ApplyEvaluation evo), w1)
     \<and> run_state (Process json (test_pipeline a b lims t) j) w1 = (Inr (ApplyTriage tri), w2)"
  using assms by (rule Process_twice)

theorem Process_forgets_deep_evaluation_witness:
  "\<exists>s s' w1 w2. run_state (Process sample_json (test_pipeline ''x'' ''y'' sample_lims zeroTime) zeroJob) pipe_world0 = (Inr s, w1)
     \<and> run_state (Process sample_json (test_pipeline ''x'' ''y'' sample_lims zeroTime) zeroJob) w1 = (Inr s', w2)
     \<and> score_Value s = 0 \<and> score_Value s' = 100"
proof -
  from sample_json_simps obtain tri evo where "Unmarshal_Triage sample_json ''x'' = Inr tri"
    "score_Recommendation (ApplyTriage tri) = RecommendationApply"
    "Unmarshal_Evaluation sample_json ''y'' = Inr evo"
    and v: "tri_FitScore tri = 140" "evo_Score evo = -3" by metis
  from Process_forgets_deep_evaluation [OF this(1,2,3), of sample_lims zeroTime zeroJob] v
  show ?thesis by (fastforce simp: score_Value_clamped clampScore_def)
qed

end
