(* ===== verification/SchedulerTasks.thy ===== *)
theory SchedulerTasks
  imports Scheduler JobPipeline
begin

text \<open>
  The package \<open>internal/scheduler\<close>, second half: the discovery task (fetch, ingest and
  save over all sources) and the evaluation task (the job pipeline over a batch).  What
  discovery guarantees is proved in the locale \<open>job_store\<close> and used for the in-memory store;
  \<open>grown\<close> says which jobs a run leaves in it.
\<close>

section \<open>Discovery and evaluation tasks\<close>

subsection \<open>Discovery\<close>

record 'w DiscoveryTask =
  dt_Sources :: "'w Source list"
  dt_Store :: "'w JobStore"

record DiscoveryResult =
  dr_Fetched :: int
  dr_Ingested :: int
  dr_Duplicates :: int

definition zeroDiscovery :: DiscoveryResult where
  [zero_defs]: "zeroDiscovery = \<lparr>dr_Fetched = 0, dr_Ingested = 0, dr_Duplicates = 0\<rparr>"

text \<open>\<open>if firstErr == nil { firstErr = e }\<close>\<close>

definition keep_first :: "error \<Rightarrow> goerror \<Rightarrow> error" where
  "keep_first firstErr e = (if firstErr = None then Some e else firstErr)"

fun ingest_raws ::
    "golib \<Rightarrow> 'w JobStore \<Rightarrow> string \<Rightarrow> RawJob list \<Rightarrow> DiscoveryResult \<Rightarrow> error
     \<Rightarrow> ('w, DiscoveryResult \<times> error) state" where
  "ingest_raws lib store name [] result firstErr = ret (result, firstErr)"
| "ingest_raws lib store name (raw # raws) result firstErr = do {
     r \<leftarrow> Ingest lib store name raw;
     case r of
       Inl e \<Rightarrow> ingest_raws lib store name raws result
         (keep_first firstErr (WrapError (''scheduler: ingest from '' @ name @ '': '') e))
     | Inr j \<Rightarrow> do {
         let result = (if job_Status j = JobDuplicate
                       then result\<lparr>dr_Duplicates := dr_Duplicates result + 1\<rparr> else result);
         (_, err) \<leftarrow> SaveJob store j;
         case err of
           Some e \<Rightarrow> ingest_raws lib store name raws result
             (keep_first firstErr (WrapError (''scheduler: save job from '' @ name @ '': '') e))
         | None \<Rightarrow> ingest_raws lib store name raws (result\<lparr>dr_Ingested := dr_Ingested result + 1\<rparr>) firstErr
       }
   }"

fun discover_sources ::
    "golib \<Rightarrow> 'w JobStore \<Rightarrow> 'w Source list \<Rightarrow> DiscoveryResult \<Rightarrow> error
     \<Rightarrow> ('w, DiscoveryResult \<times> error) state" where
  "discover_sources lib store [] result firstErr = ret (result, firstErr)"
| "discover_sources lib store (source # sources) result firstErr = do {
     (raws, err) \<leftarrow> FetchJobs source;
     case err of
       Some e \<Rightarrow> discover_sources lib store sources result
         (keep_first firstErr (WrapError (''scheduler: source '' @ src_Name source @ '': '') e))
     | None \<Rightarrow> do {
         (result, firstErr) \<leftarrow> ingest_raws lib store (src_Name source) raws
           (result\<lparr>dr_Fetched := dr_Fetched result + int (length raws)\<rparr>) firstErr;
         discover_sources lib store sources result firstErr
       }
   }"

definition DiscoveryTask_Run :: "golib \<Rightarrow> 'w DiscoveryTask \<Rightarrow> ('w, DiscoveryResult \<times> error) state" where
  "DiscoveryTask_Run lib t = discover_sources lib (dt_Store t) (dt_Sources t) zeroDiscovery None"

subsection \<open>Evaluation\<close>

record 'w PendingJobLister =
  ListPendingEvaluation :: "int \<Rightarrow> ('w, Job list \<times> error) state"

record 'w EvaluationTask =
  et_Lister :: "'w PendingJobLister"
  et_Pipeline :: "'w JobPipeline"
  et_BatchSize :: int

record EvaluationResult =
  er_Processed :: int
  er_Applied :: int
  er_Reviewed :: int
  er_Rejected :: int

definition zeroEvaluationResult :: EvaluationResult where
  [zero_defs]: "zeroEvaluationResult = \<lparr>er_Processed = 0, er_Applied = 0, er_Reviewed = 0, er_Rejected = 0\<rparr>"

definition count_score :: "Score \<Rightarrow> EvaluationResult \<Rightarrow> EvaluationResult" where
  "count_score score result =
     (let result = result\<lparr>er_Processed := er_Processed result + 1\<rparr>
      in case score_Recommendation score of
           RecommendationApply \<Rightarrow> result\<lparr>er_Applied := er_Applied result + 1\<rparr>
         | RecommendationReject \<Rightarrow> result\<lparr>er_Rejected := er_Rejected result + 1\<rparr>
         | _ \<Rightarrow> result\<lparr>er_Reviewed := er_Reviewed result + 1\<rparr>)"

fun evaluate_jobs ::
    "json_pkg \<Rightarrow> 'w JobPipeline \<Rightarrow> Job list \<Rightarrow> EvaluationResult \<Rightarrow> ('w, EvaluationResult \<times> error) state" where
  "evaluate_jobs json p [] result = ret (result, None)"
| "evaluate_jobs json p (j # js) result = do {
     r \<leftarrow> Process json p j;
     case r of
       Inl e \<Rightarrow> ret (result, Errorf (''scheduler: evaluate job '' @ job_ID j @ '': '') e)
     | Inr score \<Rightarrow> evaluate_jobs json p js (count_score score result)
   }"

definition EvaluationTask_Run :: "json_pkg \<Rightarrow> 'w EvaluationTask \<Rightarrow> ('w, EvaluationResult \<times> error) state" where
  "EvaluationTask_Run json t = do {
     (jobs, err) \<leftarrow> ListPendingEvaluation (et_Lister t) (et_BatchSize t);
     case err of
       Some e \<Rightarrow> ret (zeroEvaluationResult, Errorf ''scheduler: list pending jobs: '' e)
     | None \<Rightarrow> evaluate_jobs json (et_Pipeline t) jobs zeroEvaluationResult
   }"

subsection \<open>Discovery over a job store\<close>

lemma Normalize_fields:
  "job_Source (Normalize lib source raw) = source"
  "job_SourceJobID (Normalize lib source raw) = raw_SourceJobID raw"
  "job_Status (Normalize lib source raw) = JobNormalized"
  by (simp_all add: Normalize_def Let_def)

text \<open>The raw jobs of the sources that answer, with the name of their source.\<close>

definition fetched :: "MockSource list \<Rightarrow> (string \<times> RawJob) list" where
  "fetched ms = concat (map (\<lambda>m. if mock_Err m = None then map (Pair (mock_SourceName m)) (mock_Jobs m) else []) ms)"

definition first_failure :: "MockSource list \<Rightarrow> error" where
  "first_failure ms =
     (case filter (\<lambda>m. mock_Err m \<noteq> None) ms of
        [] \<Rightarrow> None
      | m # _ \<Rightarrow> map_option (WrapError (''scheduler: source '' @ mock_SourceName m @ '': '')) (mock_Err m))"

context job_store begin

abbreviation knows :: "golib \<Rightarrow> 'w \<Rightarrow> string \<times> RawJob \<Rightarrow> bool" where
  "knows lib w x \<equiv> known w (Normalize lib (fst x) (snd x)) \<noteq> None"

lemma run_ingest_raws:
  "\<exists>d w'. run_state (ingest_raws lib store name raws result ferr) w =
      ((result\<lparr>dr_Ingested := dr_Ingested result + int (length raws), dr_Duplicates := dr_Duplicates result + d\<rparr>, ferr), w')
    \<and> 0 \<le> d \<and> d \<le> int (length raws) \<and> (\<forall>k. known w k \<noteq> None \<longrightarrow> known w' k \<noteq> None)
    \<and> (\<forall>raw \<in> set raws. knows lib w' (name, raw))
    \<and> ((\<forall>raw \<in> set raws. knows lib w (name, raw)) \<longrightarrow> d = int (length raws))"
proof (induction raws arbitrary: result w)
  case Nil
  then show ?case by simp
next
  case (Cons raw raws)
  let ?j = "Normalize lib name raw"
  define b where "b \<longleftrightarrow> known w ?j \<noteq> None"
  obtain j where j: "run_state (Ingest lib store name raw) w = (Inr j, w)"
    "job_NormalizedHash j = job_NormalizedHash ?j" "(job_Status j = JobDuplicate) = b"
    unfolding b_def by (cases "known w ?j") (simp_all add: run_Ingest Normalize_fields)
  obtain s w1 where s: "run_state (SaveJob store j) w = ((s, None), w1)"
    using save_ok [of j w] by (metis prod.collapse)
  have mono: "known w k \<noteq> None \<Longrightarrow> known w1 k \<noteq> None" for k using known_mono [of w k j] s by simp
  have here: "known w1 ?j \<noteq> None" using known_saved [OF j(2), of w] s by simp
  let ?result = "(if b then result\<lparr>dr_Duplicates := dr_Duplicates result + 1\<rparr> else result)
      \<lparr>dr_Ingested := dr_Ingested result + 1\<rparr>"
  obtain d w2 where ih: "run_state (ingest_raws lib store name raws ?result ferr) w1 =
      ((?result\<lparr>dr_Ingested := dr_Ingested ?result + int (length raws),
                dr_Duplicates := dr_Duplicates ?result + d\<rparr>, ferr), w2)"
    "0 \<le> d" "d \<le> int (length raws)" "\<And>k. known w1 k \<noteq> None \<Longrightarrow> known w2 k \<noteq> None"
    "\<And>raw. raw \<in> set raws \<Longrightarrow> knows lib w2 (name, raw)"
    "(\<And>raw. raw \<in> set raws \<Longrightarrow> knows lib w1 (name, raw)) \<Longrightarrow> d = int (length raws)"
    using Cons.IH [of ?result w1] by blast
  let ?d = "(if b then 1 else 0) + d"
  have "run_state (ingest_raws lib store name (raw # raws) result ferr) w =
      ((result\<lparr>dr_Ingested := dr_Ingested result + int (length (raw # raws)),
               dr_Duplicates := dr_Duplicates result + ?d\<rparr>, ferr), w2)"
    using ih(1) j s by (cases b) (simp_all add: Let_def algebra_simps)
  moreover have "?d = int (length (raw # raws))" if "\<forall>raw \<in> set (raw # raws). knows lib w (name, raw)"
    using that b_def mono ih(6) by auto
  moreover have "0 \<le> ?d" "?d \<le> int (length (raw # raws))" using ih(2,3) by auto
  moreover have "\<forall>raw \<in> set (raw # raws). knows lib w2 (name, raw)" using here ih(4,5) by auto
  ultimately show ?case using mono ih(4) by blast
qed

lemma run_discover:
  "\<exists>d w'. run_state (discover_sources lib store (map MockSource_as_Source ms) result ferr) w =
      ((result\<lparr>dr_Fetched := dr_Fetched result + int (length (fetched ms)),
               dr_Ingested := dr_Ingested result + int (length (fetched ms)),
               dr_Duplicates := dr_Duplicates result + d\<rparr>,
        if ferr = None then first_failure ms else ferr), w')
    \<and> 0 \<le> d \<and> d \<le> int (length (fetched ms)) \<and> (\<forall>k. known w k \<noteq> None \<longrightarrow> known w' k \<noteq> None)
    \<and> (\<forall>x \<in> set (fetched ms). knows lib w' x)
    \<and> ((\<forall>x \<in> set (fetched ms). knows lib w x) \<longrightarrow> d = int (length (fetched ms)))"
proof (induction ms arbitrary: result ferr w)
  case Nil
  then show ?case by (simp add: fetched_def first_failure_def)
next
  case (Cons m ms)
  let ?n = "mock_SourceName m"
  show ?case
  proof (cases "mock_Err m")
    case (Some e)
    let ?ferr = "keep_first ferr (WrapError (''scheduler: source '' @ ?n @ '': '') e)"
    have f: "fetched (m # ms) = fetched ms" and
      ff: "(if ?ferr = None then first_failure ms else ?ferr) = (if ferr = None then first_failure (m # ms) else ferr)"
      using Some by (simp_all add: fetched_def first_failure_def keep_first_def)
    have "run_state (discover_sources lib store (map MockSource_as_Source (m # ms)) result ferr) w
        = run_state (discover_sources lib store (map MockSource_as_Source ms) result ?ferr) w"
      using Some by (simp add: MockSource_as_Source_def MockSource_FetchJobs_def)
    with Cons.IH [of result ?ferr w] show ?thesis by (simp only: f ff)
  next
    case None
    let ?N = "int (length (mock_Jobs m))"
    have f: "fetched (m # ms) = map (Pair ?n) (mock_Jobs m) @ fetched ms"
      and ff: "first_failure (m # ms) = first_failure ms"
      using None by (simp_all add: fetched_def first_failure_def)
    let ?r = "result\<lparr>dr_Fetched := dr_Fetched result + ?N\<rparr>"
    obtain d1 w1 where 1: "run_state (ingest_raws lib store ?n (mock_Jobs m) ?r ferr) w =
        ((?r\<lparr>dr_Ingested := dr_Ingested ?r + ?N, dr_Duplicates := dr_Duplicates ?r + d1\<rparr>, ferr), w1)"
      and 2: "0 \<le> d1" "d1 \<le> ?N" "\<And>k. known w k \<noteq> None \<Longrightarrow> known w1 k \<noteq> None"
      "\<And>raw. raw \<in> set (mock_Jobs m) \<Longrightarrow> knows lib w1 (?n, raw)"
      "(\<And>raw. raw \<in> set (mock_Jobs m) \<Longrightarrow> knows lib w (?n, raw)) \<Longrightarrow> d1 = ?N"
      using run_ingest_raws [of lib ?n "mock_Jobs m" ?r ferr w] by blast
    let ?q = "?r\<lparr>dr_Ingested := dr_Ingested ?r + ?N, dr_Duplicates := dr_Duplicates ?r + d1\<rparr>"
    obtain d2 w2 where 3: "run_state (discover_sources lib store (map MockSource_as_Source ms) ?q ferr) w1 =
        ((?q\<lparr>dr_Fetched := dr_Fetched ?q + int (length (fetched ms)),
             dr_Ingested := dr_Ingested ?q + int (length (fetched ms)),
             dr_Duplicates := dr_Duplicates ?q + d2\<rparr>, if ferr = None then first_failure ms else ferr), w2)"
      and 4: "0 \<le> d2" "d2 \<le> int (length (fetched ms))" "\<And>k. known w1 k \<noteq> None \<Longrightarrow> known w2 k \<noteq> None"
      "\<And>x. x \<in> set (fetched ms) \<Longrightarrow> knows lib w2 x"
      "(\<And>x. x \<in> set (fetched ms) \<Longrightarrow> knows lib w1 x) \<Longrightarrow> d2 = int (length (fetched ms))"
      using Cons.IH [of ?q ferr w1] by blast
    have "run_state (discover_sources lib store (map MockSource_as_Source (m # ms)) result ferr) w =
        ((result\<lparr>dr_Fetched := dr_Fetched result + int (length (fetched (m # ms))),
               dr_Ingested := dr_Ingested result + int (length (fetched (m # ms))),
               dr_Duplicates := dr_Duplicates result + (d1 + d2)\<rparr>,
          if ferr = None then first_failure (m # ms) else ferr), w2)"
      using None 1 3 f ff
      by (simp add: MockSource_as_Source_def MockSource_FetchJobs_def algebra_simps)
    moreover have "\<forall>x \<in> set (fetched (m # ms)). knows lib w2 x" using 2(4) 4(3,4) f by auto
    moreover have "d1 + d2 = int (length (fetched (m # ms)))" if all: "\<forall>x \<in> set (fetched (m # ms)). knows lib w x"
    proof -
      have "d1 = ?N" by (rule 2(5)) (use all f in \<open>simp add: ball_Un\<close>)
      moreover have "d2 = int (length (fetched ms))" by (rule 4(5), rule 2(3)) (use all f in \<open>simp add: ball_Un\<close>)
      ultimately show ?thesis by (simp add: f)
    qed
    ultimately show ?thesis using 2(1-3) 4(1-3) f by (intro exI [of _ "d1 + d2"] exI [of _ w2]) auto
  qed
qed

end

subsection \<open>What discovery stores\<close>

text \<open>The job stored for a posting: the normalised posting, with what the store and \<open>Ingest\<close> add.\<close>

definition stored_for :: "golib \<Rightarrow> string \<times> RawJob \<Rightarrow> Job \<Rightarrow> bool" where
  "stored_for lib x j \<longleftrightarrow> j = (Normalize lib (fst x) (snd x))\<lparr>job_ID := job_ID j, job_Status := job_Status j,
     job_DuplicateOfID := job_DuplicateOfID j\<rparr>"

text \<open>The store has grown by one job for each of the postings, and the duplicates among them were counted.\<close>

definition grown :: "golib \<Rightarrow> (string \<times> RawJob) list \<Rightarrow> fakeJobStore \<Rightarrow> fakeJobStore \<Rightarrow> int \<Rightarrow> bool" where
  "grown lib xs s s' d \<longleftrightarrow> (\<exists>js. fjs_saved s' = fjs_saved s @ js \<and> list_all2 (stored_for lib) xs js
     \<and> d = int (length (filter (\<lambda>j. job_Status j = JobDuplicate) js)))"

lemma grown_refl [simp]: "grown lib [] s s 0"
  by (simp add: grown_def)

lemma grown_trans: "grown lib xs s t d \<Longrightarrow> grown lib ys t u e \<Longrightarrow> grown lib (xs @ ys) s u (d + e)"
  unfolding grown_def by (fastforce intro: list_all2_appendI)

lemma Normalize_new:
  "job_ID (Normalize lib source raw) = []" "job_DuplicateOfID (Normalize lib source raw) = []"
  "job_DiscoveredAt (Normalize lib source raw) = zeroTime"
  by (simp_all add: Normalize_def zeroJob_def Let_def)

lemma stored_for_undated: "stored_for lib x j \<Longrightarrow> job_DiscoveredAt j = zeroTime"
  by (cases j) (auto simp: stored_for_def Normalize_def zeroJob_def Let_def)

lemma stored_for_simps [simp]:
  "stored_for lib (source, raw) (Normalize lib source raw)"
  "stored_for lib (source, raw) ((Normalize lib source raw)\<lparr>job_Status := st, job_DuplicateOfID := i\<rparr>)"
  "stored_for lib x (j\<lparr>job_ID := i\<rparr>) = stored_for lib x j"
  by (simp_all add: stored_for_def) (cases j, cases "Normalize lib (fst x) (snd x)", auto)

lemma Ingest_stored:
  "\<exists>j. run_state (Ingest lib fakeJobStore_ops source raw) s = (Inr j, s) \<and> job_ID j = [] \<and> stored_for lib (source, raw) j"
  unfolding run_Ingest_fake Let_def by (simp add: Normalize_new split: option.split)

lemma ingest_raws_grown:
  assumes "run_state (ingest_raws lib fakeJobStore_ops name raws result ferr) s = ((r', err), s')"
  shows "grown lib (map (Pair name) raws) s s' (dr_Duplicates r' - dr_Duplicates result)"
  using assms
proof (induction raws arbitrary: s result ferr)
  case Nil
  then show ?case by simp
next
  case (Cons raw raws)
  obtain j where j: "run_state (Ingest lib fakeJobStore_ops name raw) s = (Inr j, s)" "job_ID j = []"
    "stored_for lib (name, raw) j" using Ingest_stored by blast
  let ?k = "j\<lparr>job_ID := ''job-'' @ strconv_Itoa (int (length (fjs_saved s)) + 1)\<rparr>"
  let ?s1 = "snd (fakeJobStore_Save j s)"
  let ?r = "(if job_Status j = JobDuplicate then result\<lparr>dr_Duplicates := dr_Duplicates result + 1\<rparr> else result)
    \<lparr>dr_Ingested := dr_Ingested (if job_Status j = JobDuplicate
       then result\<lparr>dr_Duplicates := dr_Duplicates result + 1\<rparr> else result) + 1\<rparr>"
  have save: "run_state (SaveJob fakeJobStore_ops j) s = ((?k, None), ?s1)" and s1: "fjs_saved ?s1 = fjs_saved s @ [?k]"
    using j(2) by (simp_all add: fakeJobStore_ops_def fakeJobStore_Save_def Let_def)
  from j(3) s1 have g: "grown lib [(name, raw)] s ?s1 (dr_Duplicates ?r - dr_Duplicates result)"
    by (simp add: grown_def)
  have run: "run_state (ingest_raws lib fakeJobStore_ops name raws ?r ferr) ?s1 = ((r', err), s')"
    using Cons.prems j(1) save by (simp add: Let_def)
  from grown_trans [OF g Cons.IH [OF run]] show ?case by simp
qed

lemma discover_grown:
  assumes "run_state (discover_sources lib fakeJobStore_ops (map MockSource_as_Source ms) result ferr) s = ((r', err), s')"
  shows "grown lib (fetched ms) s s' (dr_Duplicates r' - dr_Duplicates result)"
  using assms
proof (induction ms arbitrary: s result ferr)
  case Nil
  then show ?case by (simp add: fetched_def)
next
  case (Cons m ms)
  have src: "src_Name (MockSource_as_Source m :: fakeJobStore Source) = mock_SourceName m"
    "FetchJobs (MockSource_as_Source m :: fakeJobStore Source)
      = ret (if mock_Err m = None then mock_Jobs m else [], mock_Err m)"
    by (auto simp: MockSource_as_Source_def MockSource_FetchJobs_def)
  show ?case
  proof (cases "mock_Err m")
    case (Some e)
    with Cons show ?thesis by (simp add: fetched_def src)
  next
    case None
    let ?r = "result\<lparr>dr_Fetched := dr_Fetched result + int (length (mock_Jobs m))\<rparr>"
    obtain r e s1 where i: "run_state (ingest_raws lib fakeJobStore_ops (mock_SourceName m) (mock_Jobs m) ?r ferr) s
        = ((r, e), s1)" by (metis prod.collapse)
    with Cons.prems None have "run_state (discover_sources lib fakeJobStore_ops (map MockSource_as_Source ms) r e) s1 = ((r', err), s')"
      by (simp add: src)
    from grown_trans [OF ingest_raws_grown [OF i] Cons.IH [OF this]] None show ?thesis
      by (simp add: fetched_def)
  qed
qed

abbreviation mock_task :: "MockSource list \<Rightarrow> fakeJobStore DiscoveryTask" where
  "mock_task ms \<equiv> \<lparr>dt_Sources = map MockSource_as_Source ms, dt_Store = fakeJobStore_ops\<rparr>"

lemma DiscoveryTask_grown:
  "run_state (DiscoveryTask_Run lib (mock_task ms)) s = ((res, err), s') \<Longrightarrow> grown lib (fetched ms) s s' (dr_Duplicates res)"
  using discover_grown [of lib ms zeroDiscovery None s res err s'] by (simp add: DiscoveryTask_Run_def zeroDiscovery_def)

subsection \<open>Lemmas on the evaluation loop\<close>

lemma count_score_sum:
  "er_Processed (count_score s r) = er_Processed r + 1
   \<and> er_Applied (count_score s r) + er_Reviewed (count_score s r) + er_Rejected (count_score s r)
     = er_Applied r + er_Reviewed r + er_Rejected r + 1"
  by (auto simp: count_score_def Let_def split: Recommendation.splits)

lemma evaluate_jobs_counts:
  assumes "run_state (evaluate_jobs json p js r0) w = ((r, err), w')"
  shows "\<exists>n \<le> length js. er_Processed r = er_Processed r0 + int n
    \<and> er_Applied r + er_Reviewed r + er_Rejected r = er_Applied r0 + er_Reviewed r0 + er_Rejected r0 + int n
    \<and> (err = None \<longleftrightarrow> n = length js)
    \<and> (err \<noteq> None \<longrightarrow> (\<exists>e v. err = Errorf (''scheduler: evaluate job '' @ job_ID (js ! n) @ '': '') e
         \<and> run_state (Process json p (js ! n)) v = (Inl e, w')))"
  using assms
proof (induction js arbitrary: r0 w)
  case Nil
  then show ?case by simp
next
  case (Cons j js)
  obtain res w1 where p: "run_state (Process json p j) w = (res, w1)" by fastforce
  show ?case
  proof (cases res)
    case (Inl e)
    with Cons.prems p show ?thesis by (intro exI [of _ 0]) auto
  next
    case (Inr s)
    with Cons.prems p have "run_state (evaluate_jobs json p js (count_score s r0)) w1 = ((r, err), w')" by simp
    from Cons.IH [OF this] obtain n where "n \<le> length js"
      "er_Processed r = er_Processed (count_score s r0) + int n"
      "er_Applied r + er_Reviewed r + er_Rejected r = er_Applied (count_score s r0)
         + er_Reviewed (count_score s r0) + er_Rejected (count_score s r0) + int n"
      "err = None \<longleftrightarrow> n = length js"
      "err \<noteq> None \<longrightarrow> (\<exists>e v. err = Errorf (''scheduler: evaluate job '' @ job_ID (js ! n) @ '': '') e
         \<and> run_state (Process json p (js ! n)) v = (Inl e, w'))" by blast
    with count_score_sum [of s r0] show ?thesis by (intro exI [of _ "Suc n"]) simp
  qed
qed

subsection \<open>Properties\<close>


definition sample_sources :: "MockSource list" where
  "sample_sources =
     [\<lparr>mock_SourceName = ''dead'', mock_Jobs = [], mock_Err = Some DeadlineExceeded\<rparr>,
      \<lparr>mock_SourceName = ''gh'', mock_Jobs = [sample_raw ''7'' ''Dev'', sample_raw ''7'' ''Ops''], mock_Err = None\<rparr>]"


text \<open>
  An evaluation run accounts for every job it processed, for every pipeline: the processed
  jobs are the first ones of the batch and each is counted once as applied, reviewed or
  rejected; the run returns no error exactly when it processed the whole batch, and else
  the error names the first job that failed.
\<close>

theorem EvaluationTask_Run_accounts:
  assumes "run_state (ListPendingEvaluation (et_Lister t) (et_BatchSize t)) w = ((jobs, None), w1)"
    and "run_state (EvaluationTask_Run json t) w = ((res, err), w')"
  shows "\<exists>n \<le> length jobs. er_Processed res = int n
    \<and> er_Applied res + er_Reviewed res + er_Rejected res = int n
    \<and> (err = None \<longleftrightarrow> n = length jobs)
    \<and> (err \<noteq> None \<longrightarrow> (\<exists>e v. err = Errorf (''scheduler: evaluate job '' @ job_ID (jobs ! n) @ '': '') e
         \<and> run_state (Process json (et_Pipeline t) (jobs ! n)) v = (Inl e, w')))"
proof -
  from assms have "run_state (evaluate_jobs json (et_Pipeline t) jobs zeroEvaluationResult) w1 = ((res, err), w')"
    by (simp add: EvaluationTask_Run_def)
  from evaluate_jobs_counts [OF this] show ?thesis by (simp add: zeroEvaluationResult_def)
qed

definition test_task :: "JobLimits \<Rightarrow> Job list \<Rightarrow> pipe_world EvaluationTask" where
  "test_task lims jobs =
     \<lparr>et_Lister = \<lparr>ListPendingEvaluation = (\<lambda>limit. ret (take (nat limit) jobs, None))\<rparr>,
      et_Pipeline = test_pipeline ''x'' ''y'' lims zeroTime, et_BatchSize = 10\<rparr>"

theorem EvaluationTask_Run_accounts_witness:
  "\<exists>n \<le> 2. er_Processed (fst (fst (run_state (EvaluationTask_Run sample_json (test_task sample_lims [zeroJob, zeroJob]))
      pipe_world0))) = int n"
proof -
  obtain res err w' where run: "run_state (EvaluationTask_Run sample_json (test_task sample_lims [zeroJob, zeroJob]))
      pipe_world0 = ((res, err), w')" by (metis prod.collapse)
  have "run_state (ListPendingEvaluation (et_Lister (test_task sample_lims [zeroJob, zeroJob]))
      (et_BatchSize (test_task sample_lims [zeroJob, zeroJob]))) pipe_world0 = (([zeroJob, zeroJob], None), pipe_world0)"
    by (simp add: test_task_def)
  from EvaluationTask_Run_accounts [OF this run] run show ?thesis by auto
qed

text \<open>
  A reached limit is an error, not a quiet stop: when the daily discovery limit of the
  pipeline is reached, a run over a non-empty batch processes nothing and returns an error
  for its first job, whose text is the limit message.
\<close>

theorem EvaluationTask_limit_is_error:
  assumes "lim_JobsDiscoveredPerDay lims \<le> 0" and "jobs \<noteq> []"
  shows "run_state (EvaluationTask_Run json (test_task lims jobs)) pipe_world0 =
    ((zeroEvaluationResult, Some (WrapError (''scheduler: evaluate job '' @ job_ID (hd jobs) @ '': '')
        (ErrorString (''job: daily discovery limit ('' @ strconv_Itoa (lim_JobsDiscoveredPerDay lims) @ '') reached'')))),
     pipe_world0)"
  using assms
  by (cases jobs)
     (simp_all add: EvaluationTask_Run_def test_task_def Process_def pipeline_startOfToday_def test_pipeline_simps
       on_jobs_def fakeJobStore_ops_def pipe_world0_def newFakeJobStore_def)

theorem EvaluationTask_limit_is_error_witness:
  "snd (fst (run_state (EvaluationTask_Run sample_json
      (test_task \<lparr>lim_JobsDiscoveredPerDay = 0, lim_DeepEvaluationsPerDay = 1\<rparr> [zeroJob])) pipe_world0)) \<noteq> None"
  using EvaluationTask_limit_is_error [of "\<lparr>lim_JobsDiscoveredPerDay = 0, lim_DeepEvaluationsPerDay = 1\<rparr>"
      "[zeroJob]" sample_json] by simp

end
