(* ===== verification/DiscoveryRuns.thy ===== *)
theory DiscoveryRuns
  imports SchedulerTasks
begin

text \<open>
  Running discovery again: what a further run of \<open>DiscoveryTask.Run\<close>
  (\<open>internal/scheduler/discovery.go\<close>) over the same sources adds to the in-memory job store,
  and what the daily discovery limit of the job pipeline sees of it.
\<close>

section \<open>The same postings once more\<close>

text \<open>
  The task is not idempotent: any number of runs over the same sources store every posting
  at every run, from the second run on as a DUPLICATE of its own.
\<close>

inductive discovers :: "golib \<Rightarrow> MockSource list \<Rightarrow> fakeJobStore \<Rightarrow> nat \<Rightarrow> fakeJobStore \<Rightarrow> bool" for lib ms where
  none: "discovers lib ms s 0 s"
| more: "discovers lib ms s n t \<Longrightarrow> run_state (DiscoveryTask_Run lib (mock_task ms)) t = ((res, err), u) \<Longrightarrow>
    discovers lib ms s (Suc n) u"

lemma grown_length: "grown lib xs s t d \<Longrightarrow> length (fjs_saved t) = length (fjs_saved s) + length xs"
  by (auto simp: grown_def list_all2_lengthD)

lemma rerun_stores_again:
  "discovers lib ms s n t \<Longrightarrow> length (fjs_saved t) = length (fjs_saved s) + n * length (fetched ms)"
proof (induction rule: discovers.induct)
  case (more s n t res err u)
  from grown_length [OF DiscoveryTask_grown [OF more.hyps(2)]] more.IH show ?case by simp
qed simp

section \<open>What the daily limit sees\<close>

lemma grown_count:
  assumes "grown lib xs s t d" and "0 < nsec since"
  shows "fst (run_state (CountDiscoveredSince fakeJobStore_ops since) t)
    = fst (run_state (CountDiscoveredSince fakeJobStore_ops since) s)"
proof -
  from assms(1) obtain js where js: "fjs_saved t = fjs_saved s @ js" "list_all2 (stored_for lib) xs js"
    by (auto simp: grown_def)
  have "filter (\<lambda>j. \<not> time_Before (job_DiscoveredAt j) since) js = []"
  proof (rule filter_False, rule ballI)
    fix j assume "j \<in> set js"
    with js(2) obtain x where "stored_for lib x j" by (metis in_set_conv_nth list_all2_conv_all_nth)
    then have "job_DiscoveredAt j = zeroTime" by (rule stored_for_undated)
    with assms(2) show "\<not> \<not> time_Before (job_DiscoveredAt j) since" by (simp add: time_defs)
  qed
  with js(1) show ?thesis by (simp add: fakeJobStore_ops_def)
qed

text \<open>
  The daily discovery limit does not see discovery: no posting that discovery saves has
  a date of discovery, so after any run the number of jobs discovered since any moment
  after the zero time is what it was, the number the daily limit of the job pipeline is
  compared with, although the store has grown by every posting fetched.
\<close>

theorem discovery_never_counted:
  assumes "run_state (DiscoveryTask_Run lib (mock_task ms)) s = ((res, err), s')"
    and "0 < nsec since"
  shows "fst (run_state (CountDiscoveredSince fakeJobStore_ops since) s')
      = fst (run_state (CountDiscoveredSince fakeJobStore_ops since) s)
    \<and> length (fjs_saved s') = length (fjs_saved s) + length (fetched ms)"
  using grown_count [OF DiscoveryTask_grown [OF assms(1)] assms(2)] grown_length [OF DiscoveryTask_grown [OF assms(1)]]
  by simp

theorem discovery_never_counted_witness:
  "\<exists>s'. fst (run_state (CountDiscoveredSince fakeJobStore_ops (time_Add zeroTime 1)) s') = (0, None)
     \<and> length (fjs_saved s') = 2"
proof -
  obtain res err s' where "run_state (DiscoveryTask_Run sample_lib (mock_task sample_sources)) newFakeJobStore
      = ((res, err), s')" by (metis prod.collapse)
  from discovery_never_counted [OF this, of "time_Add zeroTime 1"] show ?thesis
    by (intro exI [of _ s'])
      (simp add: sample_sources_def fetched_def newFakeJobStore_def fakeJobStore_ops_def time_defs)
qed

end
