(* ===== verification/DiscoveryFaults.thy ===== *)
theory DiscoveryFaults
  imports SchedulerTasks Faults
begin

text \<open>
  Discovery (\<open>internal/scheduler/discovery.go\<close> with \<open>Ingest\<close> of \<open>internal/job/dedup.go\<close>) when
  its sources and its store may fail, with or without having taken effect.  The store of the
  tests keeps two indexes of the jobs saved to it; from what they promise follows which of
  the saved jobs are originals and which are duplicates, and of what, after every history of
  discovery runs, and what the counts of a run say about the store.
\<close>

section \<open>Sources and stores that fail\<close>

definition faulty_source :: "'w Source \<Rightarrow> ('w \<times> fault list) Source" where
  "faulty_source s = \<lparr>src_Name = src_Name s, FetchJobs = or_fail ([], unavailable) (FetchJobs s)\<rparr>"

definition faulty_jobs :: "'w JobStore \<Rightarrow> ('w \<times> fault list) JobStore" where
  "faulty_jobs s =
     \<lparr>GetJob = (\<lambda>i. or_fail (zeroJob, unavailable) (GetJob s i)),
      FindBySourceJobID = (\<lambda>src i. or_fail (zeroJob, False, unavailable) (FindBySourceJobID s src i)),
      FindByNormalizedHash = (\<lambda>h. or_fail (zeroJob, False, unavailable) (FindByNormalizedHash s h)),
      SaveJob = (\<lambda>j. or_fail (zeroJob, unavailable) (SaveJob s j)),
      CountDiscoveredSince = (\<lambda>t. or_fail (0, unavailable) (CountDiscoveredSince s t))\<rparr>"

abbreviation faulty_task :: "MockSource list \<Rightarrow> (fakeJobStore \<times> fault list) DiscoveryTask" where
  "faulty_task ms \<equiv> \<lparr>dt_Sources = map (\<lambda>m. faulty_source (MockSource_as_Source m)) ms,
     dt_Store = faulty_jobs fakeJobStore_ops\<rparr>"

text \<open>What \<open>Ingest\<close> returns over a failing store is what it returns over the store, or an error.\<close>

lemma faulty_Ingest:
  assumes "run_state (Ingest lib (faulty_jobs fakeJobStore_ops) name raw) (s, plan) = (r, v')"
  shows "fst v' = s \<and> (\<forall>j. r = Inr j \<longrightarrow> run_state (Ingest lib fakeJobStore_ops name raw) s = (Inr j, s))"
  using assms
  by (auto simp: Ingest_def Deduplicate_def faulty_jobs_def or_fail_def fakeJobStore_ops_def map_get_def Let_def
      split: list.splits fault.splits if_splits option.splits)

lemma faulty_Save:
  assumes "run_state (SaveJob (faulty_jobs fakeJobStore_ops) j) (s, plan) = ((k, err), v')"
  shows "err = unavailable \<and> fst v' = s \<or> fst v' = snd (fakeJobStore_Save j s)"
  using assms
  by (auto simp: faulty_jobs_def or_fail_def fakeJobStore_ops_def split: list.splits fault.splits prod.splits)

section \<open>Originals and duplicates\<close>

text \<open>
  Two jobs are the same posting when they share the identity at their source, or, where one
  of them has no such identity, the fingerprint; that is how \<open>job.go\<close> describes the two keys.
  \<open>Deduplicate\<close> finds more: it takes an equal fingerprint for a match of any two jobs.
\<close>

definition source_key :: "Job \<Rightarrow> string" where
  "source_key j = job_Source j @ ''|'' @ job_SourceJobID j"

definition same_source :: "Job \<Rightarrow> Job \<Rightarrow> bool" where
  "same_source j k \<longleftrightarrow> job_SourceJobID j \<noteq> [] \<and> job_SourceJobID k \<noteq> [] \<and> source_key j = source_key k"

definition same_fingerprint :: "Job \<Rightarrow> Job \<Rightarrow> bool" where
  "same_fingerprint j k \<longleftrightarrow> job_NormalizedHash j = job_NormalizedHash k"

definition same_posting :: "Job \<Rightarrow> Job \<Rightarrow> bool" where
  "same_posting j k \<longleftrightarrow> same_source j k
     \<or> (job_SourceJobID j = [] \<or> job_SourceJobID k = []) \<and> same_fingerprint j k"

definition matches :: "Job \<Rightarrow> Job \<Rightarrow> bool" where
  "matches j k \<longleftrightarrow> same_source j k \<or> same_fingerprint j k"

text \<open>What holds of a job that was saved after the jobs \<open>earlier\<close>.\<close>

definition judged :: "Job list \<Rightarrow> Job \<Rightarrow> bool" where
  "judged earlier j \<longleftrightarrow>
     job_ID j = ''job-'' @ strconv_Itoa (int (length earlier) + 1)
     \<and> (if \<exists>k \<in> set earlier. matches j k
        then job_Status j = JobDuplicate
          \<and> (\<exists>k \<in> set earlier. job_DuplicateOfID j = job_ID k
               \<and> (if \<exists>k' \<in> set earlier. same_source j k' then same_source j k else same_fingerprint j k))
        else job_Status j = JobNormalized \<and> job_DuplicateOfID j = [])"

definition well_saved :: "Job list \<Rightarrow> bool" where
  "well_saved js \<longleftrightarrow> (\<forall>k < length js. judged (take k js) (js ! k))"

lemma same_updates [simp]:
  "same_source (j\<lparr>job_ID := i\<rparr>) k = same_source j k" "same_fingerprint (j\<lparr>job_ID := i\<rparr>) k = same_fingerprint j k"
  "same_source (j\<lparr>job_Status := st\<rparr>) k = same_source j k"
  "same_fingerprint (j\<lparr>job_Status := st\<rparr>) k = same_fingerprint j k"
  "same_source (j\<lparr>job_DuplicateOfID := i\<rparr>) k = same_source j k"
  "same_fingerprint (j\<lparr>job_DuplicateOfID := i\<rparr>) k = same_fingerprint j k"
  by (simp_all add: same_source_def same_fingerprint_def source_key_def)

lemma matches_update [simp]:
  "matches (j\<lparr>job_ID := i\<rparr>) k = matches j k" "matches (j\<lparr>job_Status := st\<rparr>) k = matches j k"
  "matches (j\<lparr>job_DuplicateOfID := i\<rparr>) k = matches j k"
  by (simp_all add: matches_def)

lemma well_saved_snoc: "well_saved (js @ [j]) \<longleftrightarrow> well_saved js \<and> judged js j"
  by (auto simp: well_saved_def less_Suc_eq nth_append)

text \<open>Both indexes of the store hold the last job saved under a key.\<close>

definition indexed :: "fakeJobStore \<Rightarrow> bool" where
  "indexed s \<longleftrightarrow>
     fjs_byHash s = (\<lambda>h. find (\<lambda>j. job_NormalizedHash j = h) (rev (fjs_saved s)))
     \<and> fjs_bySourceID s = (\<lambda>x. find (\<lambda>j. job_SourceJobID j \<noteq> [] \<and> source_key j = x) (rev (fjs_saved s)))"

definition discovered :: "fakeJobStore \<Rightarrow> bool" where
  "discovered s \<longleftrightarrow> indexed s \<and> well_saved (fjs_saved s)"

lemma discovered_empty: "discovered newFakeJobStore"
  by (simp add: discovered_def indexed_def well_saved_def newFakeJobStore_def)

lemma Save_indexed: "indexed s \<Longrightarrow> indexed (snd (fakeJobStore_Save j s))"
  by (auto simp: indexed_def fakeJobStore_Save_def source_key_def Let_def fun_eq_iff)

lemma find_ex: "find P xs = Some x \<Longrightarrow> P x \<and> x \<in> set xs"
  by (auto simp: find_Some_iff in_set_conv_nth)

lemma Ingest_Save:
  assumes "discovered s" and "run_state (Ingest lib fakeJobStore_ops name raw) s = (Inr j, s)"
  shows "\<exists>k. fjs_saved (snd (fakeJobStore_Save j s)) = fjs_saved s @ [k] \<and> stored_for lib (name, raw) k
    \<and> job_Status k = job_Status j \<and> discovered (snd (fakeJobStore_Save j s))"
proof -
  let ?n = "Normalize lib name raw" and ?js = "fjs_saved s"
  let ?id = "''job-'' @ strconv_Itoa (int (length ?js) + 1)"
  from assms(1) have ix: "fjs_byHash s = (\<lambda>h. find (\<lambda>j. job_NormalizedHash j = h) (rev ?js))"
    "fjs_source s src i = find (\<lambda>j. job_SourceJobID j \<noteq> [] \<and> source_key j = src @ ''|'' @ i) (rev ?js)" for src i
    by (simp_all add: discovered_def indexed_def fjs_source_def)
  define by_src where "by_src = (if raw_SourceJobID raw = [] then None else fjs_source s name (raw_SourceJobID raw))"
  define by_hash where "by_hash = fjs_byHash s (job_NormalizedHash ?n)"
  define found where "found = (case by_src of Some k \<Rightarrow> Some k | None \<Rightarrow> by_hash)"
  have key: "source_key ?n = name @ ''|'' @ raw_SourceJobID raw" by (simp add: source_key_def Normalize_fields)
  have hit_src: "k \<in> set ?js \<and> same_source ?n k" if "by_src = Some k" for k
    using that key
    by (auto simp: by_src_def ix same_source_def Normalize_fields split: if_splits dest!: find_ex)
  have hit_hash: "k \<in> set ?js \<and> same_fingerprint ?n k" if "by_hash = Some k" for k
    using that by (auto simp: by_hash_def ix same_fingerprint_def dest!: find_ex)
  have miss_src: "\<not> same_source ?n k" if "by_src = None" "k \<in> set ?js" for k
    using that key by (auto simp: by_src_def ix same_source_def Normalize_fields find_None_iff split: if_splits)
  have miss_hash: "\<not> same_fingerprint ?n k" if "by_hash = None" "k \<in> set ?js" for k
    using that by (auto simp: by_hash_def ix same_fingerprint_def find_None_iff)
  have j: "j = (case found of Some k \<Rightarrow> ?n\<lparr>job_Status := JobDuplicate, job_DuplicateOfID := job_ID k\<rparr> | None \<Rightarrow> ?n)"
    using assms(2) by (auto simp: run_Ingest_fake found_def by_src_def by_hash_def Let_def split: option.splits if_splits)
  let ?k = "j\<lparr>job_ID := ?id\<rparr>"
  have "judged ?js ?k"
  proof (cases found)
    case None
    then have "by_src = None" "by_hash = None" by (auto simp: found_def split: option.splits)
    with miss_src miss_hash have "\<not> (\<exists>k \<in> set ?js. matches ?n k)" by (auto simp: matches_def)
    with None show ?thesis
      by (simp add: judged_def j Normalize_fields Normalize_new)
  next
    case (Some k)
    have k: "k \<in> set ?js \<and> (if \<exists>k' \<in> set ?js. same_source ?n k' then same_source ?n k else same_fingerprint ?n k)"
      using Some hit_src hit_hash miss_src by (cases by_src) (auto simp: found_def)
    then have m: "\<exists>k \<in> set ?js. matches ?n k" by (auto simp: matches_def split: if_splits)
    from Some m have "judged ?js ?k \<longleftrightarrow> (\<exists>k' \<in> set ?js. job_ID k = job_ID k'
        \<and> (if \<exists>k' \<in> set ?js. same_source ?n k' then same_source ?n k' else same_fingerprint ?n k'))"
      by (simp add: judged_def j)
    with k show ?thesis by blast
  qed
  moreover have "fjs_saved (snd (fakeJobStore_Save j s)) = ?js @ [?k]"
    by (simp add: fakeJobStore_Save_def j Normalize_new Let_def split: option.splits)
  moreover have "stored_for lib (name, raw) ?k" by (simp add: j split: option.splits)
  ultimately show ?thesis
    using assms(1) Save_indexed [of s j] by (simp add: discovered_def well_saved_snoc)
qed

section \<open>What a run leaves behind and what it counts\<close>

text \<open>
  \<open>accounts lib xs s s' r r' ok\<close>: the postings \<open>xs\<close> were worked off.  The store grew by jobs
  for some of them, in their order, at least as many as were counted; and when nothing went
  wrong (\<open>ok\<close>) by one for each of them, and the duplicates counted are the ones saved.
\<close>

definition accounts ::
    "golib \<Rightarrow> (string \<times> RawJob) list \<Rightarrow> fakeJobStore \<Rightarrow> fakeJobStore \<Rightarrow> DiscoveryResult \<Rightarrow> DiscoveryResult \<Rightarrow> bool \<Rightarrow> bool" where
  "accounts lib xs s s' r r' ok \<longleftrightarrow>
     (\<exists>kept js. subseq kept xs \<and> list_all2 (stored_for lib) kept js \<and> fjs_saved s' = fjs_saved s @ js
       \<and> dr_Ingested r \<le> dr_Ingested r' \<and> dr_Ingested r' \<le> dr_Ingested r + int (length js)
       \<and> (ok \<longrightarrow> kept = xs \<and> dr_Ingested r' = dr_Ingested r + int (length js)
           \<and> dr_Duplicates r' = dr_Duplicates r + int (length (filter (\<lambda>j. job_Status j = JobDuplicate) js))))"

lemma accounts_refl: "accounts lib [] s s r r ok"
  by (auto simp: accounts_def intro!: exI [of _ "[]"])

lemma accounts_skip: "dr_Ingested r' = dr_Ingested r \<Longrightarrow> accounts lib xs s s r r' False"
  by (auto simp: accounts_def intro!: exI [of _ "[]"])

lemma accounts_save:
  assumes "fjs_saved s' = fjs_saved s @ [k]" and "stored_for lib x k"
    and "dr_Ingested r \<le> dr_Ingested r'" and "dr_Ingested r' \<le> dr_Ingested r + 1"
    and "ok \<Longrightarrow> dr_Ingested r' = dr_Ingested r + 1
      \<and> dr_Duplicates r' = dr_Duplicates r + (if job_Status k = JobDuplicate then 1 else 0)"
  shows "accounts lib [x] s s' r r' ok"
  unfolding accounts_def using assms by (intro exI [of _ "[x]"] exI [of _ "[k]"]) auto

lemma accounts_trans:
  assumes "accounts lib xs s s1 r r1 ok1" and "accounts lib ys s1 s2 r1 r2 ok2" and "ok \<Longrightarrow> ok1 \<and> ok2"
  shows "accounts lib (xs @ ys) s s2 r r2 ok"
proof -
  from assms(1) obtain xs' js where 1: "subseq xs' xs" "list_all2 (stored_for lib) xs' js" "fjs_saved s1 = fjs_saved s @ js"
    "dr_Ingested r \<le> dr_Ingested r1" "dr_Ingested r1 \<le> dr_Ingested r + int (length js)"
    "ok1 \<Longrightarrow> xs' = xs \<and> dr_Ingested r1 = dr_Ingested r + int (length js)
       \<and> dr_Duplicates r1 = dr_Duplicates r + int (length (filter (\<lambda>j. job_Status j = JobDuplicate) js))"
    by (auto simp: accounts_def)
  from assms(2) obtain ys' ks where 2: "subseq ys' ys" "list_all2 (stored_for lib) ys' ks" "fjs_saved s2 = fjs_saved s1 @ ks"
    "dr_Ingested r1 \<le> dr_Ingested r2" "dr_Ingested r2 \<le> dr_Ingested r1 + int (length ks)"
    "ok2 \<Longrightarrow> ys' = ys \<and> dr_Ingested r2 = dr_Ingested r1 + int (length ks)
       \<and> dr_Duplicates r2 = dr_Duplicates r1 + int (length (filter (\<lambda>j. job_Status j = JobDuplicate) ks))"
    by (auto simp: accounts_def)
  show ?thesis
    unfolding accounts_def
    using 1 2 assms(3) by (intro exI [of _ "xs' @ ys'"] exI [of _ "js @ ks"]) (auto intro: list_emb_append_mono list_all2_appendI)
qed

lemma accounts_from: "accounts lib xs s s' r r' ok \<Longrightarrow> accounts lib xs s s' (r\<lparr>dr_Fetched := n\<rparr>) r' ok"
  "accounts lib xs s s' (r\<lparr>dr_Fetched := n\<rparr>) r' ok \<Longrightarrow> accounts lib xs s s' r r' ok"
  by (simp_all add: accounts_def)

text \<open>One posting: what it makes of the store, the counts and the first error.\<close>

lemma faulty_one:
  fixes raw :: RawJob
  assumes "discovered s"
  obtains r1 ferr1 s1 plan1 where "discovered s1" "ferr \<noteq> None \<longrightarrow> ferr1 = ferr" "dr_Fetched r1 = dr_Fetched r"
    "accounts lib [(name, raw)] s s1 r r1 (ferr1 = None)"
    "\<And>raws. run_state (ingest_raws lib (faulty_jobs fakeJobStore_ops) name (raw # raws) r ferr) (s, plan)
      = run_state (ingest_raws lib (faulty_jobs fakeJobStore_ops) name raws r1 ferr1) (s1, plan1)"
proof -
  obtain q s0 plan0 where run: "run_state (Ingest lib (faulty_jobs fakeJobStore_ops) name raw) (s, plan) = (q, (s0, plan0))"
    by (metis prod.collapse)
  from faulty_Ingest [OF run] have s0: "s0 = s"
    and j: "\<And>j. q = Inr j \<Longrightarrow> run_state (Ingest lib fakeJobStore_ops name raw) s = (Inr j, s)" by auto
  show thesis
  proof (cases q)
    case (Inl e)
    show thesis
      by (rule that [OF assms, of "keep_first ferr (WrapError (''scheduler: ingest from '' @ name @ '': '') e)" r plan0])
        (use run Inl s0 in \<open>auto simp: keep_first_def accounts_skip\<close>)
  next
    case (Inr j)
    from Ingest_Save [OF assms \<open>\<And>j. q = Inr j \<Longrightarrow> _\<close> [OF Inr]] obtain k where
      k: "fjs_saved (snd (fakeJobStore_Save j s)) = fjs_saved s @ [k]" "stored_for lib (name, raw) k"
        "job_Status k = job_Status j" "discovered (snd (fakeJobStore_Save j s))" by blast
    let ?r = "if job_Status j = JobDuplicate then r\<lparr>dr_Duplicates := dr_Duplicates r + 1\<rparr> else r"
    obtain x err s1 plan1 where save: "run_state (SaveJob (faulty_jobs fakeJobStore_ops) j) (s, plan0) = ((x, err), (s1, plan1))"
      by (metis prod.collapse)
    from faulty_Save [OF save] k(4) assms have d: "discovered s1" by auto
    show thesis
    proof (cases err)
      case None
      with faulty_Save [OF save] have s1: "s1 = snd (fakeJobStore_Save j s)" by auto
      have "accounts lib [(name, raw)] s s1 r (?r\<lparr>dr_Ingested := dr_Ingested ?r + 1\<rparr>) (ferr = None)"
        by (rule accounts_save [OF k(1) [folded s1] k(2)]) (use k(3) in auto)
      then show thesis
        by (rule that [OF d, of ferr, rotated 2]) (use run Inr s0 save None in \<open>auto simp: Let_def\<close>)
    next
      case (Some e)
      have "accounts lib [(name, raw)] s s1 r ?r False"
        using faulty_Save [OF save] k by (auto intro!: accounts_skip accounts_save)
      then show thesis
        by (intro that [OF d, of "keep_first ferr (WrapError (''scheduler: save job from '' @ name @ '': '') e)" ?r plan1])
          (use run Inr s0 save Some in \<open>auto simp: keep_first_def Let_def\<close>)
    qed
  qed
qed

lemma faulty_ingest_raws:
  assumes "run_state (ingest_raws lib (faulty_jobs fakeJobStore_ops) name raws r ferr) (s, plan) = ((r', err), (s', plan'))"
    and "discovered s"
  shows "discovered s' \<and> (ferr \<noteq> None \<longrightarrow> err = ferr) \<and> dr_Fetched r' = dr_Fetched r
    \<and> accounts lib (map (Pair name) raws) s s' r r' (err = None)"
  using assms
proof (induction raws arbitrary: r ferr s plan)
  case Nil
  then show ?case by (simp add: accounts_refl)
next
  case (Cons raw raws)
  obtain r1 ferr1 s1 plan1 where 1: "discovered s1" "ferr \<noteq> None \<longrightarrow> ferr1 = ferr" "dr_Fetched r1 = dr_Fetched r"
    "accounts lib [(name, raw)] s s1 r r1 (ferr1 = None)"
    "run_state (ingest_raws lib (faulty_jobs fakeJobStore_ops) name (raw # raws) r ferr) (s, plan)
      = run_state (ingest_raws lib (faulty_jobs fakeJobStore_ops) name raws r1 ferr1) (s1, plan1)"
    by (rule faulty_one [OF Cons.prems(2)]) (rule that)
  from Cons.IH [OF Cons.prems(1) [unfolded 1(5)] 1(1)] have 2: "discovered s'" "ferr1 \<noteq> None \<longrightarrow> err = ferr1"
    "dr_Fetched r' = dr_Fetched r1" "accounts lib (map (Pair name) raws) s1 s' r1 r' (err = None)" by blast+
  from accounts_trans [OF 1(4) 2(4), of "err = None"] 2(2)
  have "accounts lib (map (Pair name) (raw # raws)) s s' r r' (err = None)" by auto
  with 1(2,3) 2(1-3) show ?case by auto
qed

text \<open>A source that fails, by itself or by the plan, yields nothing; another one its postings.\<close>

lemma faulty_FetchJobs:
  assumes "run_state (FetchJobs (faulty_source (MockSource_as_Source m))) (s, plan) = ((raws, err), v')"
  shows "fst v' = s \<and> (err = None \<longrightarrow> mock_Err m = None \<and> raws = mock_Jobs m)"
  using assms
  by (auto simp: faulty_source_def MockSource_as_Source_def MockSource_FetchJobs_def or_fail_def
      split: list.splits fault.splits if_splits)

lemma faulty_discover:
  assumes "run_state (discover_sources lib (faulty_jobs fakeJobStore_ops)
      (map (\<lambda>m. faulty_source (MockSource_as_Source m)) ms) r ferr) (s, plan) = ((r', err), (s', plan'))"
    and "discovered s"
  shows "discovered s' \<and> (ferr \<noteq> None \<longrightarrow> err = ferr)
    \<and> (\<exists>got. subseq got (fetched ms) \<and> (err = None \<longrightarrow> got = fetched ms \<and> first_failure ms = None)
         \<and> dr_Fetched r' = dr_Fetched r + int (length got) \<and> accounts lib got s s' r r' (err = None))"
  using assms
proof (induction ms arbitrary: r ferr s plan)
  case Nil
  then show ?case by (auto simp: fetched_def first_failure_def intro!: exI [of _ "[]"] accounts_refl)
next
  case (Cons m ms)
  let ?n = "mock_SourceName m"
  obtain raws e s1 plan1 where f: "run_state (FetchJobs (faulty_source (MockSource_as_Source m))) (s, plan)
      = ((raws, e), (s1, plan1))" by (metis prod.collapse)
  have name: "src_Name (faulty_source (MockSource_as_Source m :: fakeJobStore Source)) = ?n"
    by (simp add: faulty_source_def MockSource_as_Source_def)
  from faulty_FetchJobs [OF f] have s1: "s1 = s" by simp
  show ?case
  proof (cases e)
    case (Some x)
    define ferr1 where "ferr1 = keep_first ferr (WrapError (''scheduler: source '' @ ?n @ '': '') x)"
    have ferr1: "ferr1 \<noteq> None" "ferr \<noteq> None \<longrightarrow> ferr1 = ferr" by (simp_all add: ferr1_def keep_first_def)
    from Some Cons.prems(1) f name have "run_state (discover_sources lib (faulty_jobs fakeJobStore_ops)
        (map (\<lambda>m. faulty_source (MockSource_as_Source m)) ms) r ferr1) (s, plan1) = ((r', err), (s', plan'))"
      by (simp add: s1 ferr1_def)
    from Cons.IH [OF this Cons.prems(2)] obtain got where "discovered s'" and err: "ferr1 \<noteq> None \<longrightarrow> err = ferr1"
      and "subseq got (fetched ms)" "dr_Fetched r' = dr_Fetched r + int (length got)" "accounts lib got s s' r r' (err = None)"
      by blast
    moreover from err ferr1 have "err \<noteq> None" "ferr \<noteq> None \<longrightarrow> err = ferr" by auto
    moreover have "subseq (fetched ms) (fetched (m # ms))" by (auto simp: fetched_def intro: list_emb_append2)
    ultimately show ?thesis using subseq_order.trans by blast
  next
    case None
    with faulty_FetchJobs [OF f] have m: "mock_Err m = None" "raws = mock_Jobs m" by auto
    let ?r = "r\<lparr>dr_Fetched := dr_Fetched r + int (length raws)\<rparr>"
    obtain r1 ferr1 s2 plan2 where i: "run_state (ingest_raws lib (faulty_jobs fakeJobStore_ops) ?n raws ?r ferr) (s, plan1)
        = ((r1, ferr1), (s2, plan2))" by (metis prod.collapse)
    from faulty_ingest_raws [OF i Cons.prems(2)] have 1: "discovered s2" "ferr \<noteq> None \<longrightarrow> ferr1 = ferr"
      "dr_Fetched r1 = dr_Fetched r + int (length raws)" "accounts lib (map (Pair ?n) raws) s s2 r r1 (ferr1 = None)"
      by (auto dest: accounts_from(2))
    from Cons.prems(1) f name None i have "run_state (discover_sources lib (faulty_jobs fakeJobStore_ops)
        (map (\<lambda>m. faulty_source (MockSource_as_Source m)) ms) r1 ferr1) (s2, plan2) = ((r', err), (s', plan'))"
      by (simp add: s1)
    from Cons.IH [OF this 1(1)] obtain got where 2: "discovered s'" "ferr1 \<noteq> None \<longrightarrow> err = ferr1" "subseq got (fetched ms)"
      "err = None \<longrightarrow> got = fetched ms \<and> first_failure ms = None" "dr_Fetched r' = dr_Fetched r1 + int (length got)"
      "accounts lib got s2 s' r1 r' (err = None)" by blast
    from accounts_trans [OF 1(4) 2(6), of "err = None"] 2(2)
    have "accounts lib (map (Pair ?n) raws @ got) s s' r r' (err = None)" by auto
    moreover have "fetched (m # ms) = map (Pair ?n) raws @ fetched ms" using m by (simp add: fetched_def)
    moreover have "first_failure (m # ms) = first_failure ms" using m by (simp add: first_failure_def)
    moreover have "subseq (map (Pair ?n) raws @ got) (map (Pair ?n) raws @ fetched ms)"
      using 2(3) by (simp add: list_emb_append_mono)
    ultimately show ?thesis using 1 2 by (intro conjI exI [of _ "map (Pair ?n) raws @ got"]) auto
  qed
qed

section \<open>Histories of discovery runs\<close>

text \<open>Runs of the task one after the other, each with its sources and its plan of faults.\<close>

inductive discovery_runs :: "golib \<Rightarrow> fakeJobStore \<Rightarrow> (MockSource list \<times> DiscoveryResult \<times> error) list
    \<Rightarrow> fakeJobStore \<Rightarrow> bool" for lib s0 where
  none: "discovery_runs lib s0 [] s0"
| more: "discovery_runs lib s0 evs s \<Longrightarrow>
    run_state (DiscoveryTask_Run lib (faulty_task ms)) (s, plan) = ((res, err), (s', plan')) \<Longrightarrow>
    discovery_runs lib s0 (evs @ [(ms, res, err)]) s'"

lemma runs_discovered: "discovery_runs lib newFakeJobStore evs s \<Longrightarrow> discovered s"
proof (induction rule: discovery_runs.induct)
  case none
  show ?case by (rule discovered_empty)
next
  case (more evs s ms plan res err s' plan')
  from more.hyps(2) have "run_state (discover_sources lib (faulty_jobs fakeJobStore_ops)
      (map (\<lambda>m. faulty_source (MockSource_as_Source m)) ms) zeroDiscovery None) (s, plan) = ((res, err), (s', plan'))"
    by (simp add: DiscoveryTask_Run_def)
  from faulty_discover [OF this more.IH] show ?case by blast
qed

lemma run_discovery_accounts:
  assumes "discovery_runs lib newFakeJobStore evs s"
    and "run_state (DiscoveryTask_Run lib (faulty_task ms)) (s, plan) = ((res, err), (s', plan'))"
  shows "\<exists>got. subseq got (fetched ms) \<and> (err = None \<longrightarrow> got = fetched ms \<and> first_failure ms = None)
    \<and> dr_Fetched res = int (length got) \<and> accounts lib got s s' zeroDiscovery res (err = None)"
proof -
  from assms(2) have "run_state (discover_sources lib (faulty_jobs fakeJobStore_ops)
      (map (\<lambda>m. faulty_source (MockSource_as_Source m)) ms) zeroDiscovery None) (s, plan) = ((res, err), (s', plan'))"
    by (simp add: DiscoveryTask_Run_def)
  from faulty_discover [OF this runs_discovered [OF assms(1)]] show ?thesis by (simp add: zeroDiscovery_def)
qed

text \<open>
  A history with a lost answer: the second posting is saved as a duplicate of the first, but
  the task hears of an error and does not count it.
\<close>

definition sample_source :: MockSource where
  "sample_source = \<lparr>mock_SourceName = ''gh'', mock_Jobs = [sample_raw ''7'' ''Dev'', sample_raw ''7'' ''Ops''], mock_Err = None\<rparr>"

abbreviation sample_plan :: "fault list" where
  "sample_plan \<equiv> [Works, Works, Works, Works, Works, Lost]"

lemma sample_discovery:
  "\<exists>e s. run_state (DiscoveryTask_Run sample_lib (faulty_task [sample_source])) (newFakeJobStore, sample_plan)
     = ((\<lparr>dr_Fetched = 2, dr_Ingested = 1, dr_Duplicates = 1\<rparr>, Some e), (s, [])) \<and> length (fjs_saved s) = 2
     \<and> same_source (fjs_saved s ! 1) (fjs_saved s ! 0)"
  by (simp add: DiscoveryTask_Run_def sample_source_def faulty_source_def MockSource_as_Source_def
      MockSource_FetchJobs_def faulty_jobs_def or_fail_def Ingest_def Deduplicate_def fakeJobStore_ops_def
      fakeJobStore_Save_def map_get_def newFakeJobStore_def zeroDiscovery_def Normalize_fields Normalize_new
      sample_raw_def keep_first_def same_source_def source_key_def Let_def)

text \<open>
  Where \<open>Deduplicate\<close> goes beyond the documented keys: a posting with a source identifier of
  its own is a DUPLICATE of a job with another one, as soon as their fingerprints agree.
\<close>

lemma fingerprint_overrides_identity:
  assumes "fjs_byHash s (job_NormalizedHash (Normalize lib source raw)) = Some k"
    and "raw_SourceJobID raw \<noteq> []" and "fjs_source s source (raw_SourceJobID raw) = None"
    and "job_SourceJobID k \<noteq> []"
  shows "\<exists>j. run_state (Ingest lib fakeJobStore_ops source raw) s = (Inr j, s)
    \<and> job_Status j = JobDuplicate \<and> job_DuplicateOfID j = job_ID k"
  using assms by (simp add: run_Ingest_fake Let_def)

section \<open>Properties\<close>

text \<open>
  C24. After any history of discovery runs over any mock sources, whatever fails in the sources
  and in the store and whether or not what failed had taken effect: the identifiers of the
  saved jobs count them; a job that is the same posting as one saved before it (the same
  identity at the source, or the same fingerprint where one of them has no such identity) is
  a DUPLICATE, so no two originals are the same posting; a duplicate names the identifier of
  a job saved before it, one with the same identity at the source if there is one and else
  one with the same fingerprint; and a job that is not a duplicate is NORMALIZED and names
  none.  The fingerprint also makes duplicates of postings with distinct source identifiers,
  which the comment on it does not intend (\<open>fingerprint_overrides_identity\<close>).
\<close>

theorem discovery_originals:
  assumes "discovery_runs lib newFakeJobStore evs s" and "k < length (fjs_saved s)"
  defines "j \<equiv> fjs_saved s ! k"
  shows "job_ID j = ''job-'' @ strconv_Itoa (int k + 1)
    \<and> ((\<exists>i < k. same_posting j (fjs_saved s ! i)) \<longrightarrow> job_Status j = JobDuplicate)
    \<and> (job_Status j = JobDuplicate \<longrightarrow> (\<exists>i < k. job_DuplicateOfID j = job_ID (fjs_saved s ! i)
         \<and> (if \<exists>i' < k. same_source j (fjs_saved s ! i') then same_source j (fjs_saved s ! i)
            else same_fingerprint j (fjs_saved s ! i))))
    \<and> (job_Status j \<noteq> JobDuplicate \<longrightarrow> job_Status j = JobNormalized \<and> job_DuplicateOfID j = [])"
proof -
  have ex: "(\<exists>x \<in> set (take k (fjs_saved s)). P x) \<longleftrightarrow> (\<exists>i < k. P (fjs_saved s ! i))" for P
    using assms(2) by (simp add: nth_image [symmetric] Bex_def)
  from runs_discovered [OF assms(1)] assms(2) have J: "judged (take k (fjs_saved s)) j"
    by (simp add: discovered_def well_saved_def j_def)
  have "(\<exists>i < k. same_posting j (fjs_saved s ! i)) \<longrightarrow> (\<exists>i < k. matches j (fjs_saved s ! i))"
    by (auto simp: same_posting_def matches_def)
  with J assms(2) show ?thesis unfolding judged_def ex by (auto simp: min_def split: if_splits)
qed

theorem discovery_originals_witness:
  "\<exists>e s. run_state (DiscoveryTask_Run sample_lib (faulty_task [sample_source])) (newFakeJobStore, sample_plan)
      = ((\<lparr>dr_Fetched = 2, dr_Ingested = 1, dr_Duplicates = 1\<rparr>, Some e), (s, []))
    \<and> discovery_runs sample_lib newFakeJobStore
        [([sample_source], \<lparr>dr_Fetched = 2, dr_Ingested = 1, dr_Duplicates = 1\<rparr>, Some e)] s
    \<and> job_Status (fjs_saved s ! 1) = JobDuplicate \<and> job_DuplicateOfID (fjs_saved s ! 1) = job_ID (fjs_saved s ! 0)"
proof -
  obtain e s where run: "run_state (DiscoveryTask_Run sample_lib (faulty_task [sample_source])) (newFakeJobStore, sample_plan)
    = ((\<lparr>dr_Fetched = 2, dr_Ingested = 1, dr_Duplicates = 1\<rparr>, Some e), (s, []))" and len: "length (fjs_saved s) = 2"
    and same: "same_source (fjs_saved s ! 1) (fjs_saved s ! 0)"
    using sample_discovery by blast
  from discovery_runs.more [OF discovery_runs.none run] have r: "discovery_runs sample_lib newFakeJobStore
      [([sample_source], \<lparr>dr_Fetched = 2, dr_Ingested = 1, dr_Duplicates = 1\<rparr>, Some e)] s" by simp
  from discovery_originals [OF r, of 1] len same
  have "job_Status (fjs_saved s ! 1) = JobDuplicate" "job_DuplicateOfID (fjs_saved s ! 1) = job_ID (fjs_saved s ! 0)"
    by (simp_all add: same_posting_def)
  with run r show ?thesis by blast
qed

text \<open>
  C31. What the counts of a discovery run over mock sources say, from any store a history has left and whatever
  fails: the store grows by jobs for some of the postings that were fetched, in their order;
  those counted as ingested are in it, while a save whose answer was lost is there and not
  counted; and a run that reports no error has lost nothing: every source answered, each of
  its postings is stored and counted, and the duplicates counted are the duplicates stored.
\<close>

theorem discovery_accounts:
  assumes "discovery_runs lib newFakeJobStore evs s"
    and "run_state (DiscoveryTask_Run lib (faulty_task ms)) (s, plan) = ((res, err), (s', plan'))"
  shows "\<exists>got kept js. subseq got (fetched ms) \<and> subseq kept got \<and> fjs_saved s' = fjs_saved s @ js
    \<and> list_all2 (stored_for lib) kept js
    \<and> dr_Fetched res = int (length got) \<and> 0 \<le> dr_Ingested res \<and> dr_Ingested res \<le> int (length js)
    \<and> (err = None \<longrightarrow> kept = fetched ms \<and> first_failure ms = None \<and> dr_Ingested res = dr_Fetched res
        \<and> dr_Duplicates res = int (length (filter (\<lambda>j. job_Status j = JobDuplicate) js)))"
proof -
  from run_discovery_accounts [OF assms] obtain got where 1: "subseq got (fetched ms)"
    "err = None \<longrightarrow> got = fetched ms \<and> first_failure ms = None" "dr_Fetched res = int (length got)"
    and acc: "accounts lib got s s' zeroDiscovery res (err = None)" by blast
  from acc obtain kept js where "subseq kept got" "list_all2 (stored_for lib) kept js" "fjs_saved s' = fjs_saved s @ js"
    "0 \<le> dr_Ingested res" "dr_Ingested res \<le> int (length js)"
    "err = None \<longrightarrow> kept = got \<and> dr_Ingested res = int (length js)
       \<and> dr_Duplicates res = int (length (filter (\<lambda>j. job_Status j = JobDuplicate) js))"
    by (auto simp: accounts_def zeroDiscovery_def)
  moreover from this have "length kept = length js" by (simp add: list_all2_lengthD)
  ultimately show ?thesis using 1 by (intro exI [of _ got] exI [of _ kept] exI [of _ js]) auto
qed

theorem discovery_accounts_witness:
  "\<exists>e s kept js. discovery_runs sample_lib newFakeJobStore [] newFakeJobStore
    \<and> run_state (DiscoveryTask_Run sample_lib (faulty_task [sample_source])) (newFakeJobStore, sample_plan)
      = ((\<lparr>dr_Fetched = 2, dr_Ingested = 1, dr_Duplicates = 1\<rparr>, Some e), (s, []))
    \<and> subseq kept (fetched [sample_source]) \<and> fjs_saved s = js \<and> length js = 2 \<and> list_all2 (stored_for sample_lib) kept js"
proof -
  obtain e s where run: "run_state (DiscoveryTask_Run sample_lib (faulty_task [sample_source])) (newFakeJobStore, sample_plan)
    = ((\<lparr>dr_Fetched = 2, dr_Ingested = 1, dr_Duplicates = 1\<rparr>, Some e), (s, []))" and len: "length (fjs_saved s) = 2"
    using sample_discovery by blast
  have n: "discovery_runs sample_lib newFakeJobStore [] newFakeJobStore" by (rule discovery_runs.none)
  from discovery_accounts [OF n run] obtain got kept js where "subseq got (fetched [sample_source])" "subseq kept got"
    and js: "fjs_saved s = fjs_saved newFakeJobStore @ js" "list_all2 (stored_for sample_lib) kept js" by blast
  then have "subseq kept (fetched [sample_source])" using subseq_order.trans by blast
  moreover have "fjs_saved s = js" using js(1) by (simp add: newFakeJobStore_def)
  ultimately show ?thesis using n run len js(2) by blast
qed

end
