(* ===== verification/EvaluationRuns.thy ===== *)
theory EvaluationRuns
  imports SchedulerTasks
begin

text \<open>
  Evaluating again: what a second run of \<open>Pipeline.Process\<close> (\<open>internal/job/pipeline.go\<close>) or
  of \<open>EvaluationTask.Run\<close> (\<open>internal/scheduler/evaluation.go\<close>) over the same jobs does.  The
  retry policy runs a failed task from the start, and the scheduler runs it every day, so
  jobs meet the pipeline more than once; model calls cost money.
\<close>

section \<open>Processing a job again\<close>

text \<open>What is stored for a stage of a job stays as it is.\<close>

context pipeline_env
begin

lemma runTriage_persist:
  assumes "run_state (runTriage json p j) w = (r, w')" and "st \<in> job_stages" and "get_of w i st = Some e"
  shows "get_of w' i st = Some e"
proof (cases "get_of w (job_ID j) ''triage''")
  case None
  from runTriage_fresh [OF None assms(1)] assms(2,3) None show ?thesis by auto
next
  case (Some ev)
  with runTriage_stored [OF Some] assms show ?thesis by simp
qed

lemma runDeep_persist:
  assumes "run_state (runDeepEvaluation json p j) w = (r, w')" and "st \<in> job_stages" and "get_of w i st = Some e"
  shows "get_of w' i st = Some e"
proof (cases "get_of w (job_ID j) ''deep_evaluation''")
  case None
  from runDeep_fresh [OF None assms(1)] assms(2,3) None show ?thesis by auto
next
  case (Some ev)
  with runDeep_stored [OF Some] assms show ?thesis by simp
qed

lemma runTriage_stores:
  assumes "run_state (runTriage json p j) w = (Inr s, w')"
  shows "\<exists>e. get_of w' (job_ID j) ''triage'' = Some e \<and> eval_Score e = s"
proof (cases "get_of w (job_ID j) ''triage''")
  case None
  from runTriage_fresh [OF None assms] show ?thesis by auto
next
  case (Some ev)
  with runTriage_stored [OF Some] assms show ?thesis by simp
qed

lemma runDeep_stores:
  assumes "run_state (runDeepEvaluation json p j) w = (Inr s, w')"
  shows "\<exists>e. get_of w' (job_ID j) ''deep_evaluation'' = Some e \<and> eval_Score e = s"
proof (cases "get_of w (job_ID j) ''deep_evaluation''")
  case None
  from runDeep_fresh [OF None assms] show ?thesis by auto
next
  case (Some ev)
  with runDeep_stored [OF Some] assms show ?thesis by simp
qed

end

subsection \<open>The pipeline over the in-memory stores, as a decision\<close>

text \<open>The number of jobs that the discovery limit is compared with.\<close>

definition discovered_today :: "Time \<Rightarrow> pipe_world \<Rightarrow> int" where
  "discovered_today t w =
     int (length (filter (\<lambda>j. \<not> time_Before (job_DiscoveredAt j) (startOfDay t)) (fjs_saved (pw_jobs w))))"

lemma Process_run:
  "run_state (Process json (test_pipeline a b lims t) j) w =
     (if lim_JobsDiscoveredPerDay lims \<le> discovered_today t w
      then (Inl (ErrorString (''job: daily discovery limit ('' @ strconv_Itoa (lim_JobsDiscoveredPerDay lims)
              @ '') reached'')), w)
      else case run_state (runTriage json (test_pipeline a b lims t) j) w of
          (Inl e, w1) \<Rightarrow> (Inl e, w1)
        | (Inr s, w1) \<Rightarrow>
            if score_Recommendation s \<noteq> RecommendationApply \<or> lim_DeepEvaluationsPerDay lims \<le> deep_count w1
            then (Inr s, w1)
            else run_state (runDeepEvaluation json (test_pipeline a b lims t) j) w1)"
  by (simp add: Process_def pipeline_startOfToday_def test_pipeline_simps on_jobs_def on_evals_def
      fakeJobStore_ops_def fakeEvalStore_ops_def discovered_today_def deep_count_def
      split: prod.split sum.split)

lemma jobs_leaves_runs: "leaves pw_jobs (on_runs m)" "leaves pw_jobs (on_evals m')"
  unfolding on_runs_def on_evals_def by (rule leaves_on_part; simp)+

lemma jobs_leaves_Recorder: "leaves pw_jobs (Recorder_Generate test_recorder (jsonProvider x) pu rq)"
proof (rule leaves_Recorder)
  show "leaves pw_jobs (prov_Generate (jsonProvider x) rq)" for rq
    by (simp add: jsonProvider_def Gemini_as_Provider_def Gemini_Generate_def leaves_return)
qed (simp_all add: test_recorder_def NewRecorder_def leaves_return jobs_leaves_runs)

lemma jobs_leaves_stages:
  "leaves pw_jobs (runTriage json (test_pipeline a b lims t) j)"
  "leaves pw_jobs (runDeepEvaluation json (test_pipeline a b lims t) j)"
  unfolding runTriage_def Triage_def runDeepEvaluation_def Evaluate_def test_pipeline_simps
  by (intro leaves_rules jobs_leaves_runs jobs_leaves_Recorder)+

lemma deep_count_mono:
  assumes "run_state (runDeepEvaluation json (test_pipeline a b lims t) j) w = (r, w')"
  shows "deep_count w \<le> deep_count w'"
proof -
  note L = leaves_hoare [where f = deep_count and P = "\<lambda>x. deep_count w \<le> x"]
  have save: "hoare (\<lambda>v. deep_count w \<le> deep_count v) (on_evals (SaveEvaluation fakeEvalStore_ops e))
      (\<lambda>_ v. deep_count w \<le> deep_count v)" for e
    by (simp add: hoare_def on_evals_def deep_count_def fakeEvalStore_ops_def fakeEvalStore_Save_def Let_def)
  have ev: "leaves deep_count (Evaluate json (pl_Evaluator (test_pipeline a b lims t)) i prompt)" for i prompt
    unfolding Evaluate_def test_pipeline_simps by (intro leaves_rules deep_leaves)
  have "hoare (\<lambda>v. deep_count w \<le> deep_count v) (runDeepEvaluation json (test_pipeline a b lims t) j)
      (\<lambda>_ v. deep_count w \<le> deep_count v)"
    unfolding runDeepEvaluation_def test_pipeline_simps
    by (intro hoare_bind [OF L [OF deep_leaves(3)]] hoare_rules hoare_bind [OF L [OF leaves_return]]
          hoare_bind [OF L [OF ev [unfolded test_pipeline_simps]]] hoare_bind [OF save]) simp_all
  from hoareD [OF this _ assms] show ?thesis by simp
qed

text \<open>
  A job is settled when the pipeline has nothing left to do for it: it is triaged, and it
  is not worth a deep evaluation, or has one, or today's deep evaluations are used up.
\<close>

definition settled :: "JobLimits \<Rightarrow> Time \<Rightarrow> pipe_world \<Rightarrow> Job \<Rightarrow> bool" where
  "settled lims t w j \<longleftrightarrow> discovered_today t w < lim_JobsDiscoveredPerDay lims
     \<and> (\<exists>e. pw_get w (job_ID j) ''triage'' = Some e
          \<and> (score_Recommendation (eval_Score e) \<noteq> RecommendationApply
             \<or> lim_DeepEvaluationsPerDay lims \<le> deep_count w
             \<or> pw_get w (job_ID j) ''deep_evaluation'' \<noteq> None))"

lemma settled_Process:
  assumes "settled lims t w j"
  shows "\<exists>s. run_state (Process json (test_pipeline a b lims t) j) w = (Inr s, w)"
proof -
  from assms obtain e where e: "discovered_today t w < lim_JobsDiscoveredPerDay lims"
    "pw_get w (job_ID j) ''triage'' = Some e"
    "score_Recommendation (eval_Score e) \<noteq> RecommendationApply \<or> lim_DeepEvaluationsPerDay lims \<le> deep_count w
       \<or> (\<exists>d. pw_get w (job_ID j) ''deep_evaluation'' = Some d)"
    by (auto simp: settled_def)
  have "run_state (runTriage json (test_pipeline a b lims t) j) w = (Inr (eval_Score e), w)"
    by (rule test_pl.runTriage_stored [OF e(2)])
  with e(1,3) test_pl.runDeep_stored [where w = w and j = j] show ?thesis
    by (auto simp: Process_run)
qed

lemma Process_keeps:
  assumes "run_state (Process json (test_pipeline a b lims t) j) w = (r, w')"
  shows "pw_jobs w' = pw_jobs w \<and> deep_count w \<le> deep_count w'
    \<and> (st \<in> job_stages \<longrightarrow> pw_get w i st = Some e \<longrightarrow> pw_get w' i st = Some e)"
proof (cases "lim_JobsDiscoveredPerDay lims \<le> discovered_today t w")
  case True
  with assms show ?thesis by (simp add: Process_run)
next
  case False
  obtain rt w1 where tr: "run_state (runTriage json (test_pipeline a b lims t) j) w = (rt, w1)" by fastforce
  note k1 = leavesD [OF jobs_leaves_stages(1) tr] leavesD [OF leaves_deep_runTriage tr]
    test_pl.runTriage_persist [OF tr, of st i e]
  show ?thesis
  proof (cases "w' = w1")
    case True
    with k1 show ?thesis by auto
  next
    case neq: False
    with assms False tr have dp: "run_state (runDeepEvaluation json (test_pipeline a b lims t) j) w1 = (r, w')"
      by (auto simp: Process_run split: sum.splits if_splits)
    from k1 leavesD [OF jobs_leaves_stages(2) dp] deep_count_mono [OF dp]
      test_pl.runDeep_persist [OF dp, of st i e] show ?thesis by auto
  qed
qed

lemma settled_keep:
  assumes "run_state (Process json (test_pipeline a b lims t) j) w = (r, w')" and "settled lims t w i"
  shows "settled lims t w' i"
proof -
  note k = Process_keeps [OF assms(1)]
  from assms(2) obtain e where e: "pw_get w (job_ID i) ''triage'' = Some e"
    "score_Recommendation (eval_Score e) \<noteq> RecommendationApply \<or> lim_DeepEvaluationsPerDay lims \<le> deep_count w
       \<or> (\<exists>d. pw_get w (job_ID i) ''deep_evaluation'' = Some d)"
    by (auto simp: settled_def)
  have "pw_get w' (job_ID i) ''triage'' = Some e" using k [of "''triage''" "job_ID i" e] e(1) by simp
  moreover have "pw_get w (job_ID i) ''deep_evaluation'' = Some d \<Longrightarrow> pw_get w' (job_ID i) ''deep_evaluation'' = Some d" for d
    using k [of "''deep_evaluation''" "job_ID i" d] by simp
  ultimately show ?thesis using e(2) k assms(2) by (fastforce simp: settled_def discovered_today_def)
qed

lemma Process_settles:
  assumes "run_state (Process json (test_pipeline a b lims t) j) w = (Inr s, w')"
  shows "settled lims t w' j"
proof -
  let ?p = "test_pipeline a b lims t"
  from assms have lim: "discovered_today t w < lim_JobsDiscoveredPerDay lims"
    by (auto simp: Process_run split: if_splits)
  obtain rt w1 where tr: "run_state (runTriage json ?p j) w = (rt, w1)" by fastforce
  with assms lim obtain s1 where s1: "rt = Inr s1" by (auto simp: Process_run split: sum.splits)
  from test_pl.runTriage_stores [OF tr [unfolded s1]] obtain e where
    e: "pw_get w1 (job_ID j) ''triage'' = Some e" "eval_Score e = s1" by blast
  have d1: "discovered_today t w1 = discovered_today t w"
    using leavesD [OF jobs_leaves_stages(1) tr] by (simp add: discovered_today_def)
  show ?thesis
  proof (cases "score_Recommendation s1 \<noteq> RecommendationApply \<or> lim_DeepEvaluationsPerDay lims \<le> deep_count w1")
    case True
    with assms lim tr s1 have "w' = w1" by (auto simp: Process_run split: if_splits)
    with True e d1 lim show ?thesis by (auto simp: settled_def)
  next
    case False
    with assms lim tr s1 have dp: "run_state (runDeepEvaluation json ?p j) w1 = (Inr s, w')"
      by (auto simp: Process_run split: if_splits)
    have "pw_get w' (job_ID j) ''triage'' = Some e" using test_pl.runDeep_persist [OF dp _ e(1)] by simp
    with test_pl.runDeep_stores [OF dp] e d1 lim leavesD [OF jobs_leaves_stages(2) dp] show ?thesis
      by (auto simp: settled_def discovered_today_def)
  qed
qed

lemma settled_score:
  assumes run: "run_state (Process json (test_pipeline a b lims t) j) w = (Inr s, w')"
    and below: "deep_count w' < lim_DeepEvaluationsPerDay lims"
    and again: "run_state (Process json' (test_pipeline a' b' lims t) j) w' = (Inr s2, w')"
  shows "s2 = s"
proof -
  let ?p = "test_pipeline a b lims t"
  from run have lim: "discovered_today t w < lim_JobsDiscoveredPerDay lims"
    by (auto simp: Process_run split: if_splits)
  have lim': "discovered_today t w' < lim_JobsDiscoveredPerDay lims"
    using Process_settles [OF run] by (simp add: settled_def)
  obtain rt w1 where tr: "run_state (runTriage json ?p j) w = (rt, w1)" by fastforce
  with run lim obtain s1 where s1: "rt = Inr s1" by (auto simp: Process_run split: sum.splits)
  from test_pl.runTriage_stores [OF tr [unfolded s1]] obtain e where
    e: "pw_get w1 (job_ID j) ''triage'' = Some e" "eval_Score e = s1" by blast
  show ?thesis
  proof (cases "score_Recommendation s1 \<noteq> RecommendationApply \<or> lim_DeepEvaluationsPerDay lims \<le> deep_count w1")
    case True
    with run lim tr s1 have "w' = w1" "s = s1" by (auto simp: Process_run split: if_splits)
    with True below again e lim' test_pl.runTriage_stored [OF e(1), of json' a' b' lims t] show ?thesis
      by (auto simp: Process_run)
  next
    case False
    with run lim tr s1 have dp: "run_state (runDeepEvaluation json ?p j) w1 = (Inr s, w')"
      by (auto simp: Process_run split: if_splits)
    have "pw_get w' (job_ID j) ''triage'' = Some e" using test_pl.runDeep_persist [OF dp _ e(1)] by simp
    from test_pl.runTriage_stored [OF this, of json' a' b' lims t] e(2) again lim' below False
    have "run_state (runDeepEvaluation json' (test_pipeline a' b' lims t) j) w' = (Inr s2, w')"
      by (auto simp: Process_run)
    with test_pl.runDeep_stores [OF dp] test_pl.runDeep_stored [of w' j] show ?thesis by fastforce
  qed
qed

text \<open>What is settled stays settled while the jobs after it are processed.\<close>

lemma evaluate_jobs_settles:
  assumes "run_state (evaluate_jobs json (test_pipeline a b lims t) js r0) w = ((r, None), w')"
  shows "(\<forall>i. settled lims t w i \<longrightarrow> settled lims t w' i) \<and> (\<forall>j \<in> set js. settled lims t w' j)"
  using assms
proof (induction js arbitrary: r0 w)
  case Nil
  then show ?case by simp
next
  case (Cons j js)
  from Cons.prems obtain s w1 where p: "run_state (Process json (test_pipeline a b lims t) j) w = (Inr s, w1)"
    and rest: "run_state (evaluate_jobs json (test_pipeline a b lims t) js (count_score s r0)) w1 = ((r, None), w')"
    by (auto split: prod.splits sum.splits)
  from Cons.IH [OF rest] settled_keep [OF p] Process_settles [OF p] show ?case by auto
qed

lemma evaluate_jobs_settled:
  assumes "\<forall>j \<in> set js. settled lims t w j"
  shows "\<exists>r. run_state (evaluate_jobs json (test_pipeline a b lims t) js r0) w = ((r, None), w)
    \<and> er_Processed r = er_Processed r0 + int (length js)"
  using assms
proof (induction js arbitrary: r0)
  case Nil
  then show ?case by simp
next
  case (Cons j js)
  from Cons.prems settled_Process [of lims t w j json a b] obtain s where
    p: "run_state (Process json (test_pipeline a b lims t) j) w = (Inr s, w)" by auto
  from Cons.IH [of "count_score s r0"] Cons.prems obtain r where
    "run_state (evaluate_jobs json (test_pipeline a b lims t) js (count_score s r0)) w = ((r, None), w)"
    "er_Processed r = er_Processed (count_score s r0) + int (length js)" by auto
  with p count_score_sum [of s r0] show ?case by auto
qed

section \<open>Properties\<close>

text \<open>
  C21. Once the pipeline has processed a job without an error, processing it again the same
  day costs nothing and changes nothing, whatever the models would answer now: no model
  call is made or recorded, no evaluation is stored, and the world is the same world.  The
  score is the same one too, as long as the deep evaluations of the day are not used up.
\<close>

theorem Process_rerun:
  assumes "run_state (Process json (test_pipeline a b lims t) j) w = (Inr s, w')"
  shows "\<exists>s2. run_state (Process json' (test_pipeline a' b' lims t) j) w' = (Inr s2, w')
    \<and> (deep_count w' < lim_DeepEvaluationsPerDay lims \<longrightarrow> s2 = s)"
proof -
  from settled_Process [OF Process_settles [OF assms]] obtain s2 where
    s2: "run_state (Process json' (test_pipeline a' b' lims t) j) w' = (Inr s2, w')" by blast
  have "s2 = s" if "deep_count w' < lim_DeepEvaluationsPerDay lims"
    using settled_score [OF assms that s2] .
  with s2 show ?thesis by blast
qed

theorem Process_rerun_witness:
  "\<exists>s s2 w'. run_state (Process sample_json (test_pipeline ''x'' ''y'' sample_lims zeroTime) zeroJob) pipe_world0 = (Inr s, w')
     \<and> run_state (Process sample_json (test_pipeline ''z'' ''u'' sample_lims zeroTime) zeroJob) w' = (Inr s2, w')"
proof -
  obtain s w1 where r: "run_state (Process sample_json (test_pipeline ''x'' ''y'' sample_lims zeroTime) zeroJob)
      pipe_world0 = (Inr s, w1)"
    using sample_Process by blast
  from Process_rerun [OF r] r show ?thesis by blast
qed

text \<open>
  An evaluation run that ended without an error can be repeated: a second run of the
  day over the same batch processes every job, makes no model call, stores nothing and
  returns no error, whatever the models would answer now.
\<close>

theorem EvaluationTask_rerun:
  assumes "run_state (evaluate_jobs json (test_pipeline a b lims t) jobs zeroEvaluationResult) w = ((r, None), w')"
  shows "\<exists>r2. run_state (EvaluationTask_Run json'
        \<lparr>et_Lister = \<lparr>ListPendingEvaluation = (\<lambda>limit. ret (jobs, None))\<rparr>,
         et_Pipeline = test_pipeline a' b' lims t, et_BatchSize = n\<rparr>) w' = ((r2, None), w')
    \<and> er_Processed r2 = int (length jobs)"
proof -
  from evaluate_jobs_settled [OF conjunct2 [OF evaluate_jobs_settles [OF assms]]] obtain r2 where
    "run_state (evaluate_jobs json' (test_pipeline a' b' lims t) jobs zeroEvaluationResult) w' = ((r2, None), w')"
    "er_Processed r2 = er_Processed zeroEvaluationResult + int (length jobs)" by blast
  then show ?thesis by (auto simp: EvaluationTask_Run_def zeroEvaluationResult_def)
qed

theorem EvaluationTask_rerun_witness:
  "\<exists>w' r2. run_state (EvaluationTask_Run sample_json
        \<lparr>et_Lister = \<lparr>ListPendingEvaluation = (\<lambda>limit. ret ([zeroJob], None))\<rparr>,
         et_Pipeline = test_pipeline ''z'' ''u'' sample_lims zeroTime, et_BatchSize = 10\<rparr>) w' = ((r2, None), w')
    \<and> er_Processed r2 = 1"
proof -
  obtain s w1 where "run_state (Process sample_json (test_pipeline ''x'' ''y'' sample_lims zeroTime) zeroJob)
      pipe_world0 = (Inr s, w1)"
    using sample_Process by blast
  then have "run_state (evaluate_jobs sample_json (test_pipeline ''x'' ''y'' sample_lims zeroTime) [zeroJob]
      zeroEvaluationResult) pipe_world0 = ((count_score s zeroEvaluationResult, None), w1)" by simp
  from EvaluationTask_rerun [OF this, of sample_json "''z''" "''u''" 10] show ?thesis by auto
qed

end
