(* ===== verification/PipelineFaults.thy ===== *)
theory PipelineFaults
  imports EvaluationRuns Faults
begin

text \<open>
  The job pipeline of \<open>internal/job/pipeline.go\<close> when anything it calls may fail, with or
  without having taken effect: the stores, the models and the audit log.  A locale states
  what little such an environment still promises, and carries the origin of the scores and
  the cost in model calls through \<open>Process\<close>; it is interpreted on the pipeline of
  \<open>pipeline_test.go\<close> with a plan of faults.
\<close>

section \<open>The shape of a stage\<close>

text \<open>
  The two stages of \<open>Process\<close> are the same program around a prompt, a model and the policy
  that turns its output into a score.
\<close>

definition run_stage :: "'w JobPipeline \<Rightarrow> Job \<Rightarrow> string \<Rightarrow> ('w, string) state \<Rightarrow> (string \<Rightarrow> ('w, goerror + 'o) state)
    \<Rightarrow> ('o \<Rightarrow> Score) \<Rightarrow> string \<Rightarrow> string \<Rightarrow> ('w, goerror + Score) state" where
  "run_stage p j st ask answer score_of lost unsaved = do {
     (existing, found, err) \<leftarrow> GetEvaluation (pl_EvalStore p) (job_ID j) st;
     case err of
       Some e \<Rightarrow> ret (Inl (WrapError lost e))
     | None \<Rightarrow>
         if found then ret (Inr (eval_Score existing))
         else do {
           prompt \<leftarrow> ask;
           out \<leftarrow> answer prompt;
           case out of
             Inl e \<Rightarrow> ret (Inl e)
           | Inr out \<Rightarrow> do {
               i \<leftarrow> pl_NewID p;
               t \<leftarrow> pl_Now p;
               serr \<leftarrow> SaveEvaluation (pl_EvalStore p)
                 \<lparr>eval_ID = i, eval_JobID = job_ID j, eval_Stage = st, eval_Score = score_of out, eval_CreatedAt = t\<rparr>;
               case serr of
                 Some e \<Rightarrow> ret (Inl (WrapError unsaved e))
               | None \<Rightarrow> ret (Inr (score_of out))
             }
         }
   }"

lemma stages:
  "runTriage json p j = run_stage p j ''triage'' (TriagePrompt (pl_Prompts p) j) (Triage json (pl_Triager p) (job_ID j))
     ApplyTriage ''job: check triage idempotency: '' ''job: save triage evaluation: ''"
  "runDeepEvaluation json p j = run_stage p j ''deep_evaluation'' (EvaluationPrompt (pl_Prompts p) j)
     (Evaluate json (pl_Evaluator p) (job_ID j)) ApplyEvaluation
     ''job: check deep-evaluation idempotency: '' ''job: save deep evaluation: ''"
  by (simp_all only: runTriage_def runDeepEvaluation_def run_stage_def Let_def)

section \<open>An environment that may fail\<close>

text \<open>An evaluation has been written to a table of evaluations.\<close>

definition written :: "Evaluation \<Rightarrow> (string \<Rightarrow> string \<Rightarrow> Evaluation option) \<Rightarrow> (string \<Rightarrow> string \<Rightarrow> Evaluation option) \<Rightarrow> bool" where
  "written e g g' \<longleftrightarrow> (\<forall>i st. st \<in> job_stages \<longrightarrow>
     g' i st = (if i = eval_JobID e \<and> st = eval_Stage e then Some e else g i st))"

text \<open>
  What a lookup that returns no error says is true; a save that returns no error has been
  done, and one that returns an error may have been; a call of a model costs one at most,
  and when it returns no error its answer is among \<open>T\<close> for triage and \<open>D\<close> for deep evaluation.
\<close>

locale fallible_pipeline =
  fixes p :: "'w JobPipeline" and get_of :: "'w \<Rightarrow> string \<Rightarrow> string \<Rightarrow> Evaluation option" and cost :: "'w \<Rightarrow> nat"
    and T :: "string set" and D :: "string set"
  assumes env: "leaves (\<lambda>w. (get_of w, cost w)) (pl_NewID p)" "leaves (\<lambda>w. (get_of w, cost w)) (pl_Now p)"
      "leaves (\<lambda>w. (get_of w, cost w)) (CountDiscoveredSince (pl_JobStore p) d)"
      "leaves (\<lambda>w. (get_of w, cost w)) (CountDeepEvaluationsSince (pl_EvalStore p) d)"
      "leaves (\<lambda>w. (get_of w, cost w)) (TriagePrompt (pl_Prompts p) j)"
      "leaves (\<lambda>w. (get_of w, cost w)) (EvaluationPrompt (pl_Prompts p) j)"
      "leaves (\<lambda>w. (get_of w, cost w)) (GetEvaluation (pl_EvalStore p) i st)"
    and look: "run_state (GetEvaluation (pl_EvalStore p) i st) w = ((e, found, None), w') \<Longrightarrow>
      get_of w i st = (if found then Some e else None)"
    and save: "run_state (SaveEvaluation (pl_EvalStore p) e) w = (err, w') \<Longrightarrow> eval_Stage e \<in> job_stages \<Longrightarrow>
      cost w' = cost w \<and> (written e (get_of w) (get_of w') \<or> err \<noteq> None \<and> get_of w' = get_of w)"
    and call: "run_state (Recorder_Generate (tr_Recorder (pl_Triager p)) (tr_Provider (pl_Triager p)) pu rq) w = ((resp, err), w') \<Longrightarrow>
      get_of w' = get_of w \<and> cost w' \<le> cost w + 1 \<and> (err = None \<longrightarrow> resp_Text resp \<in> T)"
      "run_state (Recorder_Generate (ev_Recorder (pl_Evaluator p)) (ev_Provider (pl_Evaluator p)) pu rq) w = ((resp, err), w') \<Longrightarrow>
      get_of w' = get_of w \<and> cost w' \<le> cost w + 1 \<and> (err = None \<longrightarrow> resp_Text resp \<in> D)"
begin

abbreviation seen :: "'w \<Rightarrow> (string \<Rightarrow> string \<Rightarrow> Evaluation option) \<times> nat" where
  "seen w \<equiv> (get_of w, cost w)"

text \<open>The scores that the decodable answers of a stage lead to.\<close>

definition triage_scores :: "json_pkg \<Rightarrow> Score set" where
  "triage_scores json = {ApplyTriage out | out. \<exists>text \<in> T. Unmarshal_Triage json text = Inr out}"

definition deep_scores :: "json_pkg \<Rightarrow> Score set" where
  "deep_scores json = {ApplyEvaluation out | out. \<exists>text \<in> D. Unmarshal_Evaluation json text = Inr out}"

lemma Triage_call:
  assumes "run_state (Triage json (pl_Triager p) i prompt) w = (x, w')"
  shows "get_of w' = get_of w \<and> cost w' \<le> cost w + 1 \<and> (\<forall>out. x = Inr out \<longrightarrow> ApplyTriage out \<in> triage_scores json)"
  using assms
  by (auto simp: Triage_def triage_scores_def split: prod.splits option.splits sum.splits dest!: call(1))

lemma Evaluate_call:
  assumes "run_state (Evaluate json (pl_Evaluator p) i prompt) w = (x, w')"
  shows "get_of w' = get_of w \<and> cost w' \<le> cost w + 1 \<and> (\<forall>out. x = Inr out \<longrightarrow> ApplyEvaluation out \<in> deep_scores json)"
  using assms
  by (auto simp: Evaluate_def deep_scores_def split: prod.splits option.splits sum.splits dest!: call(2))

text \<open>
  What a stage of a job can do: return what is stored; fail, at the price of one call; or
  compute a score and write it, and even then it may report an error.
\<close>

definition stage_effect :: "string \<Rightarrow> string \<Rightarrow> Score set \<Rightarrow> 'w \<Rightarrow> goerror + Score \<Rightarrow> 'w \<Rightarrow> bool" where
  "stage_effect i st computed w r w' \<longleftrightarrow>
     seen w' = seen w \<and> (\<exists>e. get_of w i st = Some e \<and> r = Inr (eval_Score e))
   \<or> get_of w' = get_of w \<and> cost w' \<le> cost w + 1 \<and> (\<exists>e. r = Inl e)
   \<or> (\<exists>ev. eval_JobID ev = i \<and> eval_Stage ev = st \<and> eval_Score ev \<in> computed \<and> get_of w i st = None
        \<and> written ev (get_of w) (get_of w') \<and> cost w' \<le> cost w + 1
        \<and> (r = Inr (eval_Score ev) \<or> (\<exists>e. r = Inl e)))"

lemma stage_effects:
  assumes run: "run_state (run_stage p j st ask answer score_of lost unsaved) w = (r, w')"
    and ask: "leaves seen ask" and st: "st \<in> job_stages"
    and answer: "\<And>prompt w x w'. run_state (answer prompt) w = (x, w') \<Longrightarrow> get_of w' = get_of w \<and> cost w' \<le> cost w + 1
      \<and> (\<forall>out. x = Inr out \<longrightarrow> score_of out \<in> computed)"
  shows "stage_effect (job_ID j) st computed w r w'"
proof -
  obtain e found err w1 where g: "run_state (GetEvaluation (pl_EvalStore p) (job_ID j) st) w = ((e, found, err), w1)"
    by (metis prod.collapse)
  obtain prompt w2 where p2: "run_state ask w1 = (prompt, w2)" by (metis prod.collapse)
  obtain o1 w3 where p3: "run_state (answer prompt) w2 = (o1, w3)" by (metis prod.collapse)
  obtain k w4 where p4: "run_state (pl_NewID p) w3 = (k, w4)" by (metis prod.collapse)
  obtain t w5 where p5: "run_state (pl_Now p) w4 = (t, w5)" by (metis prod.collapse)
  note l1 = leavesD [OF env(7) g] and l2 = leavesD [OF ask p2] and l3 = answer [OF p3]
    and l4 = leavesD [OF env(1) p4] and l5 = leavesD [OF env(2) p5]
  note steps = run_stage_def stage_effect_def
  consider (stop) x where "err = Some x" | (stored) "err = None" "found" | (fresh) "err = None" "\<not> found" by (cases err) auto
  then show ?thesis
  proof cases
    case stop
    with run g l1 show ?thesis by (auto simp: steps)
  next
    case stored
    with run g l1 look [of "job_ID j" st w e found w1] show ?thesis by (auto simp: steps)
  next
    case fresh
    with look [of "job_ID j" st w e found w1] g have none: "get_of w (job_ID j) st = None" by simp
    show ?thesis
    proof (cases o1)
      case (Inl x)
      with fresh run g p2 p3 l1 l2 l3 show ?thesis by (auto simp: steps)
    next
      case (Inr out)
      let ?ev = "\<lparr>eval_ID = k, eval_JobID = job_ID j, eval_Stage = st, eval_Score = score_of out, eval_CreatedAt = t\<rparr>"
      obtain serr w6 where p6: "run_state (SaveEvaluation (pl_EvalStore p) ?ev) w5 = (serr, w6)" by (metis prod.collapse)
      from save [OF p6] st have s6: "cost w6 = cost w5"
        "written ?ev (get_of w5) (get_of w6) \<or> serr \<noteq> None \<and> get_of w6 = get_of w5" by simp_all
      from fresh Inr run g p2 p3 p4 p5 p6 have w': "w' = w6"
        and r: "r = (case serr of Some x \<Rightarrow> Inl (WrapError unsaved x) | None \<Rightarrow> Inr (score_of out))"
        by (auto simp: run_stage_def split: option.splits)
      have same: "get_of w5 = get_of w" and cost: "cost w' \<le> cost w + 1" using l1 l2 l3 l4 l5 s6(1) w' by auto
      show ?thesis
      proof (cases "written ?ev (get_of w) (get_of w')")
        case True
        with r none cost l3 Inr have "eval_JobID ?ev = job_ID j \<and> eval_Stage ?ev = st \<and> eval_Score ?ev \<in> computed
            \<and> get_of w (job_ID j) st = None \<and> written ?ev (get_of w) (get_of w') \<and> cost w' \<le> cost w + 1
            \<and> (r = Inr (eval_Score ?ev) \<or> (\<exists>e. r = Inl e))"
          by (simp split: option.splits)
        then show ?thesis unfolding stage_effect_def by blast
      next
        case False
        with s6(2) same w' r cost show ?thesis by (auto simp: stage_effect_def split: option.splits)
      qed
    qed
  qed
qed

lemma runTriage_effect:
  "run_state (runTriage json p j) w = (r, w') \<Longrightarrow> stage_effect (job_ID j) ''triage'' (triage_scores json) w r w'"
  unfolding stages by (erule stage_effects) (auto intro: env(5) dest: Triage_call)

lemma runDeep_effect:
  "run_state (runDeepEvaluation json p j) w = (r, w') \<Longrightarrow>
   stage_effect (job_ID j) ''deep_evaluation'' (deep_scores json) w r w'"
  unfolding stages by (erule stage_effects) (auto intro: env(6) dest: Evaluate_call)

text \<open>How a run of \<open>Process\<close> is made of its stages.\<close>

lemma Process_stages:
  assumes run: "run_state (Process json p j) w = (r, w')"
  obtains (stop) x where "r = Inl x" and "seen w' = seen w"
    | (triage) w1 o1 w2 where "seen w1 = seen w" and "run_state (runTriage json p j) w1 = (o1, w2)"
        and "seen w' = seen w2" and "r = o1 \<or> (\<exists>x. r = Inl x)"
    | (deep) w1 s w2 w3 where "seen w1 = seen w" and "run_state (runTriage json p j) w1 = (Inr s, w2)"
        and "seen w3 = seen w2" and "run_state (runDeepEvaluation json p j) w3 = (r, w')"
proof -
  obtain d w1 where p1: "run_state (pipeline_startOfToday p) w = (d, w1)" by (metis prod.collapse)
  obtain n err w2 where p2: "run_state (CountDiscoveredSince (pl_JobStore p) d) w1 = ((n, err), w2)" by (metis prod.collapse)
  obtain o1 w3 where p3: "run_state (runTriage json p j) w2 = (o1, w3)" by (metis prod.collapse)
  obtain m derr w4 where p4: "run_state (CountDeepEvaluationsSince (pl_EvalStore p) d) w3 = ((m, derr), w4)"
    by (metis prod.collapse)
  have "leaves seen (pipeline_startOfToday p)"
    unfolding pipeline_startOfToday_def by (intro leaves_rules env)
  from leavesD [OF this p1] leavesD [OF env(3) p2] have s2: "seen w2 = seen w" by simp
  from leavesD [OF env(4) p4] have s4: "seen w4 = seen w3" .
  show thesis
  proof (cases "err = None \<and> n < lim_JobsDiscoveredPerDay (pl_Limits p)")
    case False
    with run p1 p2 s2 have "(\<exists>x. r = Inl x) \<and> seen w' = seen w"
      by (auto simp: Process_def not_less split: option.splits if_splits)
    with stop show thesis by blast
  next
    case True
    show thesis
    proof (cases "\<exists>s. o1 = Inr s \<and> score_Recommendation s = RecommendationApply \<and> derr = None
        \<and> m < lim_DeepEvaluationsPerDay (pl_Limits p)")
      case True
      then obtain s where o1: "o1 = Inr s" "score_Recommendation s = RecommendationApply" by blast
      with run p1 p2 p3 p4 True \<open>err = None \<and> _\<close> have "run_state (runDeepEvaluation json p j) w4 = (r, w')"
        by (simp add: Process_def)
      from deep [OF s2 p3 [unfolded o1(1)] s4 this] show thesis .
    next
      case False
      with run p1 p2 p3 p4 s4 \<open>err = None \<and> _\<close> have "seen w' = seen w3 \<and> (r = o1 \<or> (\<exists>x. r = Inl x))"
        by (cases o1) (auto simp: Process_def not_less split: option.splits if_splits)
      with triage [OF s2 p3] show thesis by blast
    qed
  qed
qed

subsection \<open>Where the scores come from\<close>

text \<open>Every evaluation stored for one of the two stages is as \<open>R\<close> says for its job and stage.\<close>

definition stored_as :: "(string \<Rightarrow> string \<Rightarrow> Score \<Rightarrow> bool) \<Rightarrow> 'w \<Rightarrow> bool" where
  "stored_as R w \<longleftrightarrow> (\<forall>i st e. st \<in> job_stages \<longrightarrow> get_of w i st = Some e \<longrightarrow> R i st (eval_Score e))"

lemma stored_as_seen: "seen w' = seen w \<Longrightarrow> stored_as R w' \<longleftrightarrow> stored_as R w"
  by (simp add: stored_as_def)

lemma effect_stored:
  assumes "stage_effect i st computed w r w'" and "stored_as R w" and "st \<in> job_stages"
    and "\<And>s. s \<in> computed \<Longrightarrow> R i st s"
  shows "stored_as R w' \<and> (\<forall>s. r = Inr s \<longrightarrow> R i st s)"
  using assms(1)
  unfolding stage_effect_def
proof (elim disjE exE conjE)
  fix e assume "seen w' = seen w" and "get_of w i st = Some e" and "r = Inr (eval_Score e)"
  with assms(2,3) show ?thesis by (auto simp: stored_as_def)
next
  fix ev assume "eval_Score ev \<in> computed" and "written ev (get_of w) (get_of w')" and "r = Inr (eval_Score ev)"
    "eval_JobID ev = i" "eval_Stage ev = st"
  with assms(2,4) show ?thesis by (auto simp: stored_as_def written_def split: if_splits)
next
  fix ev e assume "eval_Score ev \<in> computed" and "written ev (get_of w) (get_of w')" and "r = Inl e"
    "eval_JobID ev = i" "eval_Stage ev = st"
  with assms(2,4) show ?thesis by (auto simp: stored_as_def written_def split: if_splits)
qed (use assms(2) in \<open>auto simp: stored_as_def\<close>)

lemma Process_stored:
  assumes "run_state (Process json p j) w = (r, w')" and w: "stored_as R w"
    and R: "\<And>s. s \<in> triage_scores json \<Longrightarrow> R (job_ID j) ''triage'' s"
      "\<And>s. s \<in> deep_scores json \<Longrightarrow> R (job_ID j) ''deep_evaluation'' s"
  shows "stored_as R w' \<and> (\<forall>s. r = Inr s \<longrightarrow> R (job_ID j) ''triage'' s \<or> R (job_ID j) ''deep_evaluation'' s)"
  using assms(1)
proof (cases rule: Process_stages)
  case (stop x)
  with w stored_as_seen show ?thesis by blast
next
  case (triage w1 o1 w2)
  have "stored_as R w1" using w stored_as_seen [OF triage(1)] by blast
  from effect_stored [OF runTriage_effect [OF triage(2)] this _ R(1)] triage(3,4) stored_as_seen
  show ?thesis by (metis Inr_not_Inl insertI1)
next
  case (deep w1 s w2 w3)
  have "stored_as R w1" using w stored_as_seen [OF deep(1)] by blast
  from effect_stored [OF runTriage_effect [OF deep(2)] this _ R(1)] have "stored_as R w2" by simp
  with stored_as_seen [OF deep(3)] have "stored_as R w3" by blast
  from effect_stored [OF runDeep_effect [OF deep(4)] this _ R(2)] show ?thesis by simp
qed

end

section \<open>The pipeline of the tests with a plan of faults\<close>

text \<open>
  Next to the world there is a count of the calls that have reached a model, whether or not
  their answer arrived or could be recorded.
\<close>

definition counted :: "'w Provider \<Rightarrow> ('w \<times> nat) Provider" where
  "counted pr = \<lparr>prov_Name = prov_Name pr,
     prov_Generate = (\<lambda>rq. State (\<lambda>(w, n). case run_state (prov_Generate pr rq) w of (a, w') \<Rightarrow> (a, (w', n + 1))))\<rparr>"

definition faulty_Provider :: "'w Provider \<Rightarrow> (('w \<times> nat) \<times> fault list) Provider" where
  "faulty_Provider pr = \<lparr>prov_Name = prov_Name pr,
     prov_Generate = (\<lambda>rq. or_fail (zeroResponse, unavailable) (prov_Generate (counted pr) rq))\<rparr>"

definition faulty_Recorder :: "'w Recorder \<Rightarrow> (('w \<times> nat) \<times> fault list) Recorder" where
  "faulty_Recorder r =
     \<lparr>rec_Store = \<lparr>SaveModelRun = (\<lambda>run. or_fail unavailable (on_fst (SaveModelRun (rec_Store r) run)))\<rparr>,
      rec_NewID = on_fst (on_fst (rec_NewID r)), rec_Now = on_fst (on_fst (rec_Now r))\<rparr>"

definition faulty_JobStore :: "'w JobStore \<Rightarrow> (('w \<times> nat) \<times> fault list) JobStore" where
  "faulty_JobStore s =
     \<lparr>GetJob = (\<lambda>i. or_fail (zeroJob, unavailable) (on_fst (GetJob s i))),
      FindBySourceJobID = (\<lambda>src i. or_fail (zeroJob, False, unavailable) (on_fst (FindBySourceJobID s src i))),
      FindByNormalizedHash = (\<lambda>h. or_fail (zeroJob, False, unavailable) (on_fst (FindByNormalizedHash s h))),
      SaveJob = (\<lambda>j. or_fail (zeroJob, unavailable) (on_fst (SaveJob s j))),
      CountDiscoveredSince = (\<lambda>t. or_fail (0, unavailable) (on_fst (CountDiscoveredSince s t)))\<rparr>"

definition faulty_EvaluationStore :: "'w EvaluationStore \<Rightarrow> (('w \<times> nat) \<times> fault list) EvaluationStore" where
  "faulty_EvaluationStore s =
     \<lparr>SaveEvaluation = (\<lambda>e. or_fail unavailable (on_fst (SaveEvaluation s e))),
      CountDeepEvaluationsSince = (\<lambda>t. or_fail (0, unavailable) (on_fst (CountDeepEvaluationsSince s t))),
      GetEvaluation = (\<lambda>i st. or_fail (zeroEvaluation, False, unavailable) (on_fst (GetEvaluation s i st)))\<rparr>"

definition faulty_pipeline :: "'w JobPipeline \<Rightarrow> (('w \<times> nat) \<times> fault list) JobPipeline" where
  "faulty_pipeline p =
     \<lparr>pl_JobStore = faulty_JobStore (pl_JobStore p), pl_EvalStore = faulty_EvaluationStore (pl_EvalStore p),
      pl_Prompts = \<lparr>TriagePrompt = (\<lambda>j. on_fst (on_fst (TriagePrompt (pl_Prompts p) j))),
                    EvaluationPrompt = (\<lambda>j. on_fst (on_fst (EvaluationPrompt (pl_Prompts p) j)))\<rparr>,
      pl_Triager = \<lparr>tr_Recorder = faulty_Recorder (tr_Recorder (pl_Triager p)),
                    tr_Provider = faulty_Provider (tr_Provider (pl_Triager p))\<rparr>,
      pl_Evaluator = \<lparr>ev_Recorder = faulty_Recorder (ev_Recorder (pl_Evaluator p)),
                      ev_Provider = faulty_Provider (ev_Provider (pl_Evaluator p))\<rparr>,
      pl_Limits = pl_Limits p, pl_NewID = on_fst (on_fst (pl_NewID p)), pl_Now = on_fst (on_fst (pl_Now p))\<rparr>"

lemmas faulty_pipeline_simps = faulty_pipeline_def faulty_JobStore_def faulty_EvaluationStore_def test_pipeline_simps

abbreviation test_faults :: "string \<Rightarrow> string \<Rightarrow> JobLimits \<Rightarrow> Time \<Rightarrow> ((pipe_world \<times> nat) \<times> fault list) JobPipeline" where
  "test_faults a b lims t \<equiv> faulty_pipeline (test_pipeline a b lims t)"

abbreviation evals_of :: "(pipe_world \<times> nat) \<times> fault list \<Rightarrow> string \<Rightarrow> string \<Rightarrow> Evaluation option" where
  "evals_of v \<equiv> pw_get (fst (fst v))"

abbreviation calls_of :: "('w \<times> nat) \<times> fault list \<Rightarrow> nat" where
  "calls_of v \<equiv> snd (fst v)"

lemma run_on_fstD: "run_state (on_fst m) v = (a, v') \<Longrightarrow> run_state m (fst v) = (a, fst v') \<and> snd v' = snd v"
  by (cases v) (auto split: prod.splits)

lemma fault_cases:
  assumes "run_state (or_fail x (on_fst m)) v = (a, v')"
  shows "calls_of v' = calls_of v \<and> (a = x \<and> fst (fst v') = fst (fst v)
    \<or> (\<exists>y. (a = x \<or> a = y) \<and> run_state m (fst (fst v)) = (y, fst (fst v'))))"
  using or_fail_cases [OF assms] by (auto dest: run_on_fstD)

lemma counted_model:
  "run_state (prov_Generate (counted (jsonProvider x)) rq) v = ((resp, err), v') \<Longrightarrow>
   fst v' = fst v \<and> snd v' = snd v + 1 \<and> resp_Text resp = x"
  by (auto simp: counted_def jsonProvider_def Gemini_as_Provider_def Gemini_Generate_def split: prod.splits)

lemma faulty_model:
  assumes "run_state (or_fail (zeroResponse, unavailable) (prov_Generate (counted (jsonProvider x)) rq)) v = ((resp, err), v')"
  shows "fst (fst v') = fst (fst v) \<and> snd (fst v') \<le> snd (fst v) + 1 \<and> (err = None \<longrightarrow> resp_Text resp = x)"
proof -
  from or_fail_cases [OF assms] consider "err \<noteq> None" "fst v' = fst v"
    | resp' err' where "err \<noteq> None \<or> resp = resp'"
      "run_state (prov_Generate (counted (jsonProvider x)) rq) (fst v) = ((resp', err'), fst v')" by auto
  then show ?thesis by cases (use counted_model in \<open>fastforce+\<close>)
qed

lemma errors_Join_last: "errors_Join [x, Some e] \<noteq> None"
  by (cases x) simp_all

lemma faulty_call:
  assumes "run_state (Recorder_Generate (faulty_Recorder test_recorder) (faulty_Provider (jsonProvider x)) pu rq) v = ((resp', err'), v')"
  shows "pw_evals (fst (fst v')) = pw_evals (fst (fst v)) \<and> pw_jobs (fst (fst v')) = pw_jobs (fst (fst v))
    \<and> calls_of v' \<le> calls_of v + 1 \<and> (err' = None \<longrightarrow> resp_Text resp' = x)"
proof -
  obtain resp err v1 where m: "run_state (or_fail (zeroResponse, unavailable) (prov_Generate (counted (jsonProvider x)) rq)) v
      = ((resp, err), v1)" by (metis prod.collapse)
  note 1 = faulty_model [OF m]
  have save: "leaves (\<lambda>v. (pw_evals (fst (fst v)), pw_jobs (fst (fst v)), snd (fst v)))
      (or_fail unavailable (on_fst (on_runs (fakeRunStore_SaveRun run))))" for run
    by (rule leaves_or_fail) (auto simp: leaves_def on_runs_def split: prod.splits)
  from assms m obtain run b where "run_state (or_fail unavailable (on_fst (on_runs (fakeRunStore_SaveRun run)))) v1 = (b, v')"
    and "resp' = resp" and "err' = None \<longrightarrow> err = None"
    by (cases v, cases v1)
      (auto simp: Recorder_Generate_def faulty_Recorder_def faulty_Provider_def test_recorder_def NewRecorder_def Let_def
        errors_Join_last split: prod.splits option.splits)
  with leavesD [OF save this(1)] 1 show ?thesis by simp
qed

lemma test_save_evaluation:
  assumes "run_state (on_evals (SaveEvaluation fakeEvalStore_ops e)) w = (err, w')"
  shows "err = None \<and> pw_evals w' = snd (fakeEvalStore_Save e (pw_evals w)) \<and> pw_jobs w' = pw_jobs w"
  using assms fakeEvalStore_Save_simps(1) [of e "pw_evals w"]
  by (auto simp: on_evals_def fakeEvalStore_ops_def split: prod.splits)

lemma faulty_save:
  assumes "run_state (SaveEvaluation (pl_EvalStore (test_faults a b lims t)) e) v = (err, v')"
  shows "calls_of v' = calls_of v \<and> (pw_evals (fst (fst v')) = snd (fakeEvalStore_Save e (pw_evals (fst (fst v))))
    \<or> err \<noteq> None \<and> pw_evals (fst (fst v')) = pw_evals (fst (fst v)))"
proof -
  from assms have run: "run_state (or_fail unavailable (on_fst (on_evals (SaveEvaluation fakeEvalStore_ops e)))) v = (err, v')"
    by (simp add: faulty_pipeline_simps)
  have "pw_evals (fst (fst v')) = snd (fakeEvalStore_Save e (pw_evals (fst (fst v)))) \<and> y = None"
    if "run_state (on_evals (SaveEvaluation fakeEvalStore_ops e)) (fst (fst v)) = (y, fst (fst v'))" for y
    using test_save_evaluation [OF that] by simp
  with fault_cases [OF run] show ?thesis by auto
qed

interpretation faults: fallible_pipeline "test_faults a b lims t" evals_of calls_of "{a}" "{b}" for a b lims t
proof
  fix i st e found w w'
  assume "run_state (GetEvaluation (pl_EvalStore (test_faults a b lims t)) i st) w = ((e, found, None), w')"
  then have "run_state (or_fail (zeroEvaluation, False, unavailable) (on_fst (on_evals (GetEvaluation fakeEvalStore_ops i st)))) w
      = ((e, found, None), w')" by (simp add: faulty_pipeline_simps)
  from fault_cases [OF this] show "evals_of w i st = (if found then Some e else None)"
    by (auto simp: on_evals_def fakeEvalStore_ops_def pw_get_def split: option.splits prod.splits)
next
  fix e w err w'
  assume run: "run_state (SaveEvaluation (pl_EvalStore (test_faults a b lims t)) e) w = (err, w')" and st: "eval_Stage e \<in> job_stages"
  have "written e (fes_get s) (fes_get (snd (fakeEvalStore_Save e s)))" for s
    unfolding written_def using fes_get_Save [OF st] by blast
  with faulty_save [OF run] show "calls_of w' = calls_of w \<and>
      (written e (evals_of w) (evals_of w') \<or> err \<noteq> None \<and> evals_of w' = evals_of w)"
    by (auto simp: pw_get_def [abs_def])
next
  fix pu rq w resp err w'
  assume "run_state (Recorder_Generate (tr_Recorder (pl_Triager (test_faults a b lims t)))
    (tr_Provider (pl_Triager (test_faults a b lims t))) pu rq) w = ((resp, err), w')"
  then have "run_state (Recorder_Generate (faulty_Recorder test_recorder) (faulty_Provider (jsonProvider a)) pu rq) w = ((resp, err), w')"
    by (simp add: faulty_pipeline_simps)
  from faulty_call [OF this] show "evals_of w' = evals_of w \<and> calls_of w' \<le> calls_of w + 1
      \<and> (err = None \<longrightarrow> resp_Text resp \<in> {a})" by (simp add: pw_get_def [abs_def])
next
  fix pu rq w resp err w'
  assume "run_state (Recorder_Generate (ev_Recorder (pl_Evaluator (test_faults a b lims t)))
    (ev_Provider (pl_Evaluator (test_faults a b lims t))) pu rq) w = ((resp, err), w')"
  then have "run_state (Recorder_Generate (faulty_Recorder test_recorder) (faulty_Provider (jsonProvider b)) pu rq) w = ((resp, err), w')"
    by (simp add: faulty_pipeline_simps)
  from faulty_call [OF this] show "evals_of w' = evals_of w \<and> calls_of w' \<le> calls_of w + 1
      \<and> (err = None \<longrightarrow> resp_Text resp \<in> {b})" by (simp add: pw_get_def [abs_def])
qed (simp_all add: faulty_pipeline_simps leaves_def or_fail_def on_jobs_def on_evals_def pw_get_def [abs_def]
    fakeJobStore_ops_def fakeEvalStore_ops_def split: prod.splits list.splits fault.splits)

section \<open>Histories of \<open>Process\<close>\<close>

text \<open>
  Any number of calls, each with its own job, decoder, model answers, limits, time and
  faults, on pipelines made by \<open>mk\<close> from the two answers, the limits and the time.
\<close>

record pipe_event =
  pev_json :: json_pkg
  pev_job :: Job
  pev_triage :: string
  pev_eval :: string
  pev_limits :: JobLimits
  pev_time :: Time
  pev_result :: "goerror + Score"

inductive pipe_runs ::
    "(string \<Rightarrow> string \<Rightarrow> JobLimits \<Rightarrow> Time \<Rightarrow> (('w \<times> nat) \<times> fault list) JobPipeline)
     \<Rightarrow> 'w \<times> nat \<Rightarrow> pipe_event list \<Rightarrow> 'w \<times> nat \<Rightarrow> bool" for mk where
  none: "pipe_runs mk v [] v"
| more: "pipe_runs mk v evs v1 \<Longrightarrow> run_state (Process json (mk a b lims t) j) (v1, plan) = (r, (v2, plan')) \<Longrightarrow>
    pipe_runs mk v (evs @ [\<lparr>pev_json = json, pev_job = j, pev_triage = a, pev_eval = b, pev_limits = lims,
      pev_time = t, pev_result = r\<rparr>]) v2"

text \<open>
  A score comes from the history: some call about the job had, for that stage, an answer
  that decodes, and the score is what the policy makes of the decoded answer.
\<close>

definition decoded_in :: "pipe_event list \<Rightarrow> string \<Rightarrow> string \<Rightarrow> Score \<Rightarrow> bool" where
  "decoded_in evs i st s \<longleftrightarrow> (\<exists>ev \<in> set evs. job_ID (pev_job ev) = i
     \<and> (st = ''triage'' \<and> (\<exists>out. Unmarshal_Triage (pev_json ev) (pev_triage ev) = Inr out \<and> s = ApplyTriage out)
        \<or> st = ''deep_evaluation''
          \<and> (\<exists>out. Unmarshal_Evaluation (pev_json ev) (pev_eval ev) = Inr out \<and> s = ApplyEvaluation out)))"

lemma decoded_in_append: "decoded_in evs i st s \<Longrightarrow> decoded_in (evs @ evs') i st s"
  unfolding decoded_in_def by fastforce

lemma decoded_in_bounds:
  assumes "decoded_in evs i st s"
  shows "0 \<le> score_Value s \<and> score_Value s \<le> 100
    \<and> score_Recommendation s \<in> {RecommendationApply, RecommendationReview, RecommendationReject}"
  using assms score_bounds unfolding decoded_in_def by blast

lemmas test_more = pipe_runs.more [where mk = test_faults]

lemma runs_decoded:
  assumes "pipe_runs test_faults v evs v'" and "faults.stored_as (decoded_in []) (v, [])"
  shows "faults.stored_as (decoded_in evs) (v', [])
    \<and> (\<forall>ev \<in> set evs. \<forall>s. pev_result ev = Inr s \<longrightarrow> (\<exists>st \<in> job_stages. decoded_in evs (job_ID (pev_job ev)) st s))"
  using assms
proof (induction rule: pipe_runs.induct)
  case (none v)
  then show ?case by simp
next
  case (more v evs v1 json a b lims t j plan r v2 plan')
  let ?ev = "\<lparr>pev_json = json, pev_job = j, pev_triage = a, pev_eval = b, pev_limits = lims, pev_time = t, pev_result = r\<rparr>"
  let ?R = "decoded_in (evs @ [?ev])"
  from more.IH [OF more.prems] have "faults.stored_as ?R (v1, plan)"
    by (auto simp: faults.stored_as_def intro: decoded_in_append)
  from faults.Process_stored [OF more.hyps(2) this]
  have "faults.stored_as ?R (v2, plan') \<and> (\<forall>s. r = Inr s \<longrightarrow> ?R (job_ID j) ''triage'' s \<or> ?R (job_ID j) ''deep_evaluation'' s)"
    by (auto simp: faults.triage_scores_def faults.deep_scores_def decoded_in_def)
  then show ?case
  proof (intro conjI ballI allI impI)
    fix ev s assume ev: "ev \<in> set (evs @ [?ev])" and s: "pev_result ev = Inr s"
      and last: "faults.stored_as ?R (v2, plan') \<and> (\<forall>s. r = Inr s \<longrightarrow> ?R (job_ID j) ''triage'' s \<or> ?R (job_ID j) ''deep_evaluation'' s)"
    show "\<exists>st \<in> job_stages. ?R (job_ID (pev_job ev)) st s"
    proof (cases "ev \<in> set evs")
      case True
      with more.IH [OF more.prems] s obtain st where "st \<in> job_stages" "decoded_in evs (job_ID (pev_job ev)) st s" by blast
      with decoded_in_append show ?thesis by blast
    next
      case False
      with ev s last show ?thesis by auto
    qed
  qed (simp add: faults.stored_as_def)
qed

lemmas run_Process_simps = Process_def pipeline_startOfToday_def runTriage_def runDeepEvaluation_def Triage_def Evaluate_def
  Recorder_Generate_def or_fail_def faulty_pipeline_simps faulty_Recorder_def faulty_Provider_def counted_def
  test_recorder_def NewRecorder_def jsonProvider_def Gemini_as_Provider_def Gemini_Generate_def on_jobs_def
  on_evals_def on_runs_def fakeJobStore_ops_def fakeEvalStore_ops_def

text \<open>
  A history with a fault in it: the first call stores its triage, but the answer of the
  store is lost and the call fails; the second finds the triage and goes on.
\<close>

abbreviation sample_event :: "json_pkg \<Rightarrow> goerror + Score \<Rightarrow> pipe_event" where
  "sample_event json r \<equiv> \<lparr>pev_json = json, pev_job = zeroJob, pev_triage = ''x'', pev_eval = ''y'',
     pev_limits = sample_lims, pev_time = zeroTime, pev_result = r\<rparr>"

lemma sample_runs:
  "\<exists>e s v. pipe_runs test_faults (pipe_world0, 0) [sample_event sample_json (Inl e), sample_event sample_json (Inr s)] v
     \<and> snd v = 2 \<and> (\<exists>ev. pw_get (fst v) (job_ID zeroJob) ''triage'' = Some ev)"
proof -
  let ?p = "test_faults ''x'' ''y'' sample_lims zeroTime"
  have "\<exists>e w s w'. run_state (Process sample_json ?p zeroJob) ((pipe_world0, 0), [Works, Works, Works, Works, Lost])
        = (Inl e, ((w, 1), []))
      \<and> run_state (Process sample_json ?p zeroJob) ((w, 1), []) = (Inr s, ((w', 2), []))
      \<and> (\<exists>ev. pw_get w' (job_ID zeroJob) ''triage'' = Some ev)"
    by (simp add: run_Process_simps fakeEvalStore_Save_def fes_get_def pw_get_def
        pipe_world0_def newFakeJobStore_def newFakeEvalStore_def sample_json_def ApplyTriage_Recommendation Let_def)
  then obtain e w s w' ev where "run_state (Process sample_json ?p zeroJob) ((pipe_world0, 0), [Works, Works, Works, Works, Lost])
      = (Inl e, ((w, 1), []))" and 2: "run_state (Process sample_json ?p zeroJob) ((w, 1), []) = (Inr s, ((w', 2), []))"
    and ev: "pw_get w' (job_ID zeroJob) ''triage'' = Some ev" by blast
  from test_more [OF test_more [OF pipe_runs.none this(1)] 2] ev show ?thesis by fastforce
qed

section \<open>What the limit does not count\<close>

text \<open>
  The limit counts the deep evaluations that are stored, not the calls of the model.  When
  the model answers and the answer does not parse, nothing is stored and nothing counted:
  with a limit of one a day, any number of calls is made for one job.
\<close>

definition unparsable :: json_pkg where
  "unparsable = sample_json\<lparr>Unmarshal_Evaluation := (\<lambda>_. Inl (ErrorString ''unexpected end of JSON input''))\<rparr>"

definition triaged :: "pipe_world \<Rightarrow> bool" where
  "triaged w \<longleftrightarrow> pw_jobs w = newFakeJobStore \<and> fes_deepCount (pw_evals w) = 0
     \<and> fes_get (pw_evals w) (job_ID zeroJob) ''deep_evaluation'' = None
     \<and> (\<exists>e. fes_get (pw_evals w) (job_ID zeroJob) ''triage'' = Some e
          \<and> score_Recommendation (eval_Score e) = RecommendationApply)"

lemma unparsable_first:
  "\<exists>e w. run_state (Process unparsable (test_faults ''x'' ''y'' sample_lims zeroTime) zeroJob) ((pipe_world0, 0), [])
      = (Inl e, ((w, 2), [])) \<and> triaged w"
  by (simp add: run_Process_simps fakeEvalStore_Save_def fes_get_def pipe_world0_def newFakeJobStore_def
      newFakeEvalStore_def unparsable_def sample_json_def ApplyTriage_Recommendation triaged_def Let_def)

lemma unparsable_next:
  assumes "triaged w"
  shows "\<exists>e w'. run_state (Process unparsable (test_faults ''x'' ''y'' sample_lims zeroTime) zeroJob) ((w, n), [])
      = (Inl e, ((w', n + 1), [])) \<and> triaged w'"
  using assms
  by (auto simp: run_Process_simps triaged_def newFakeJobStore_def unparsable_def sample_json_def Let_def
      split: option.splits)

theorem unparsable_deep_uncounted:
  "\<exists>evs v. pipe_runs test_faults (pipe_world0, 0) evs v \<and> length evs = n + 1
     \<and> (\<forall>ev \<in> set evs. \<exists>e. ev = sample_event unparsable (Inl e))
     \<and> snd v = n + 2 \<and> triaged (fst v)"
proof (induction n)
  case 0
  from unparsable_first obtain e w where
    1: "run_state (Process unparsable (test_faults ''x'' ''y'' sample_lims zeroTime) zeroJob) ((pipe_world0, 0), [])
      = (Inl e, ((w, 2), []))" and w: "triaged w" by blast
  from test_more [OF pipe_runs.none 1] w show ?case by fastforce
next
  case (Suc n)
  then obtain evs v where r: "pipe_runs test_faults (pipe_world0, 0) evs v" "length evs = n + 1" "snd v = n + 2" "triaged (fst v)"
    and evs: "\<forall>ev \<in> set evs. \<exists>e. ev = sample_event unparsable (Inl e)" by blast
  from unparsable_next [OF r(4), of "n + 2"] r(3) obtain e w' where
    1: "run_state (Process unparsable (test_faults ''x'' ''y'' sample_lims zeroTime) zeroJob) (v, [])
      = (Inl e, ((w', n + 3), []))" and w': "triaged w'" by (cases v) auto
  from test_more [OF r(1) 1] r(2) evs w' show ?case
    by (intro exI [of _ "evs @ [sample_event unparsable (Inl e)]"] exI [of _ "(w', n + 3)"]) auto
qed

section \<open>Properties\<close>

text \<open>
  C19. The pipeline returns and stores scores of decoded answers only, whatever fails.  After
  any history of calls of \<open>Process\<close>, in which every call of the stores, the models and the
  audit log may fail, with or without having taken effect, each evaluation stored for a job
  and stage carries the score that the policy makes of an answer which decoded, given for
  that stage in a call about that job; so does each score that a call returns, for one of
  the two stages; and such a score lies in 0 to 100 and has a known recommendation.  An
  answer that does not decode leaves no score behind.
\<close>

theorem Process_policy:
  assumes "pipe_runs test_faults (pipe_world0, 0) evs (w, n)"
  shows "(\<forall>i st e. st \<in> job_stages \<longrightarrow> pw_get w i st = Some e \<longrightarrow> decoded_in evs i st (eval_Score e))
     \<and> (\<forall>ev \<in> set evs. \<forall>s. pev_result ev = Inr s \<longrightarrow> (\<exists>st \<in> job_stages. decoded_in evs (job_ID (pev_job ev)) st s))
     \<and> (\<forall>i st s. decoded_in evs i st s \<longrightarrow> 0 \<le> score_Value s \<and> score_Value s \<le> 100
          \<and> score_Recommendation s \<in> {RecommendationApply, RecommendationReview, RecommendationReject})"
proof -
  have "faults.stored_as (decoded_in []) ((pipe_world0, 0), [])"
    unfolding faults.stored_as_def by (simp add: pw_get_def fes_get_def pipe_world0_def newFakeEvalStore_def)
  from runs_decoded [OF assms this] decoded_in_bounds [of evs] show ?thesis
    unfolding faults.stored_as_def by simp
qed

theorem Process_policy_witness:
  "\<exists>e s w n ev. pipe_runs test_faults (pipe_world0, 0)
       [sample_event sample_json (Inl e), sample_event sample_json (Inr s)] (w, n)
     \<and> pw_get w (job_ID zeroJob) ''triage'' = Some ev
     \<and> decoded_in [sample_event sample_json (Inl e), sample_event sample_json (Inr s)] (job_ID zeroJob) ''triage''
         (eval_Score ev)
     \<and> (\<exists>st \<in> job_stages. decoded_in [sample_event sample_json (Inl e), sample_event sample_json (Inr s)]
          (job_ID zeroJob) st s)"
proof -
  from sample_runs obtain e s v ev where
    "pipe_runs test_faults (pipe_world0, 0) [sample_event sample_json (Inl e), sample_event sample_json (Inr s)] v"
    and ev: "pw_get (fst v) (job_ID zeroJob) ''triage'' = Some ev" by blast
  then have r: "pipe_runs test_faults (pipe_world0, 0)
      [sample_event sample_json (Inl e), sample_event sample_json (Inr s)] (fst v, snd v)" by simp
  note P = Process_policy [OF r]
  have "decoded_in [sample_event sample_json (Inl e), sample_event sample_json (Inr s)] (job_ID zeroJob) ''triage'' (eval_Score ev)"
    by (rule P [THEN conjunct1, rule_format, OF _ ev]) simp
  moreover have "\<exists>st \<in> job_stages.
      decoded_in [sample_event sample_json (Inl e), sample_event sample_json (Inr s)] (job_ID zeroJob) st s"
    using P [THEN conjunct2, THEN conjunct1, rule_format, of "sample_event sample_json (Inr s)" s] by simp
  ultimately show ?thesis using r ev by blast
qed

end
