(* ===== verification/EvaluationCost.thy ===== *)
theory EvaluationCost
  imports PipelineFaults
begin

text \<open>
  What evaluating a batch costs in model calls, also when it is retried.  The argument is
  amortised: a stage of a job that is not stored yet is worth one call, a call that succeeds
  is paid by the stage it stores, and only a failing attempt has to be paid on top.  It is
  made for any environment that may fail, with any measure that a model call raises by at
  most one, and so holds with faults in the stores, the models and the audit log.
\<close>

section \<open>The potential of a batch\<close>

text \<open>The stages of the jobs \<open>ids\<close> that are not stored.\<close>

definition missing :: "('w \<Rightarrow> string \<Rightarrow> string \<Rightarrow> Evaluation option) \<Rightarrow> string set \<Rightarrow> 'w \<Rightarrow> (string \<times> string) set" where
  "missing get_of ids w = {(i, st). i \<in> ids \<and> st \<in> job_stages \<and> get_of w i st = None}"

lemma missing_finite: "finite ids \<Longrightarrow> finite (missing get_of ids w)"
  by (rule finite_subset [of _ "ids \<times> job_stages"]) (auto simp: missing_def)

lemma missing_bound: "finite ids \<Longrightarrow> card (missing get_of ids w) \<le> 2 * card ids"
proof -
  assume "finite ids"
  then have "card (missing get_of ids w) \<le> card (ids \<times> job_stages)"
    by (intro card_mono) (auto simp: missing_def)
  then show ?thesis by (simp add: card_cartesian_product)
qed

lemma missing_written:
  assumes "written ev (get_of w) (get_of w')" and "eval_JobID ev = i" and "eval_Stage ev = st"
    and "i \<in> ids" and "st \<in> job_stages" and "get_of w i st = None" and "finite ids"
  shows "card (missing get_of ids w') + 1 = card (missing get_of ids w)"
proof -
  have g: "get_of w' k s = (if k = i \<and> s = st then Some ev else get_of w k s)" if "s \<in> job_stages" for k s
    using assms(1) [unfolded written_def, rule_format, OF that, of k] assms(2,3) by simp
  have eq: "missing get_of ids w' = missing get_of ids w - {(i, st)}"
    by (auto simp: missing_def g split: if_splits)
  have mem: "(i, st) \<in> missing get_of ids w"
    using assms(4-6) by (simp add: missing_def)
  from card_Suc_Diff1 [OF missing_finite [OF assms(7)] mem] show ?thesis by (simp add: eq)
qed

text \<open>A call that fails is charged one, a call that succeeds nothing.\<close>

definition failed :: "'e + 'a \<Rightarrow> nat" where
  "failed r = (case r of Inl _ \<Rightarrow> 1 | Inr _ \<Rightarrow> 0)"

lemma failed_simps [simp]: "failed (Inl e) = 1" "failed (Inr a) = 0"
  by (simp_all add: failed_def)

context fallible_pipeline
begin

abbreviation amount :: "string set \<Rightarrow> 'w \<Rightarrow> nat" where
  "amount ids w \<equiv> cost w + card (missing get_of ids w)"

lemma amount_seen: "seen w' = seen w \<Longrightarrow> amount ids w' = amount ids w"
  by (simp add: missing_def)

lemma effect_amount:
  assumes "stage_effect i st computed w r w'" and "i \<in> ids" and "st \<in> job_stages" and "finite ids"
  shows "amount ids w' \<le> amount ids w + failed r"
proof -
  from assms(1) consider (stored) "seen w' = seen w" | (unsaved) e where "get_of w' = get_of w" "cost w' \<le> cost w + 1" "r = Inl e"
    | (saved) ev where "eval_JobID ev = i" "eval_Stage ev = st" "get_of w i st = None" "written ev (get_of w) (get_of w')"
        "cost w' \<le> cost w + 1"
    unfolding stage_effect_def by blast
  then show ?thesis
  proof cases
    case stored
    from amount_seen [OF this] show ?thesis by simp
  next
    case (unsaved e)
    then show ?thesis by (simp add: missing_def)
  next
    case (saved ev)
    from missing_written [where get_of = get_of, OF saved(4,1,2) assms(2,3) saved(3) assms(4)] saved(5) show ?thesis by linarith
  qed
qed

lemma amount_Process:
  assumes "run_state (Process json p j) w = (r, w')" and "job_ID j \<in> ids" and "finite ids"
  shows "amount ids w' \<le> amount ids w + failed r"
  using assms(1)
proof (cases rule: Process_stages)
  case (stop x)
  with amount_seen [OF stop(2)] show ?thesis by simp
next
  case (triage w1 o1 w2)
  have "amount ids w2 \<le> amount ids w1 + failed o1"
    by (rule effect_amount [OF runTriage_effect [OF triage(2)] assms(2) _ assms(3)]) simp
  with amount_seen [OF triage(1)] amount_seen [OF triage(3)] triage(4) show ?thesis
    by (cases o1) auto
next
  case (deep w1 s w2 w3)
  have "amount ids w2 \<le> amount ids w1 + failed (Inr s :: goerror + Score)"
    by (rule effect_amount [OF runTriage_effect [OF deep(2)] assms(2) _ assms(3)]) simp
  moreover have "amount ids w' \<le> amount ids w3 + failed r"
    by (rule effect_amount [OF runDeep_effect [OF deep(4)] assms(2) _ assms(3)]) simp
  ultimately show ?thesis using amount_seen [OF deep(1)] amount_seen [OF deep(3)] by simp
qed

lemma amount_Process_hoare:
  assumes "job_ID j \<in> ids" and "finite ids"
  shows "hoare (\<lambda>w. amount ids w \<le> n) (Process json p j) (\<lambda>r w. amount ids w \<le> n + failed r)"
  by (rule hoareI) (meson amount_Process assms add_right_mono order_trans)

lemma amount_evaluate_jobs:
  assumes "job_ID ` set jobs \<subseteq> ids" and "finite ids"
  shows "hoare (\<lambda>w. amount ids w \<le> n) (evaluate_jobs json p jobs r0)
    (\<lambda>(_, err) w. amount ids w \<le> n + (if err = None then 0 else 1))"
  using assms(1)
proof (induction jobs arbitrary: r0)
  case Nil
  then show ?case by (simp add: hoare_def)
next
  case (Cons j js)
  then have j: "job_ID j \<in> ids" and js: "job_ID ` set js \<subseteq> ids" by auto
  have "hoare (\<lambda>w. amount ids w \<le> n + failed r)
      (case r of Inl e \<Rightarrow> ret (r0, Errorf (''scheduler: evaluate job '' @ job_ID j @ '': '') e)
       | Inr score \<Rightarrow> evaluate_jobs json p js (count_score score r0))
      (\<lambda>(_, err) w. amount ids w \<le> n + (if err = None then 0 else 1))" for r
    using Cons.IH [OF js] by (cases r) (simp_all add: hoare_return)
  then show ?case
    unfolding evaluate_jobs.simps by (rule hoare_bind [OF amount_Process_hoare [OF j assms(2)]])
qed

end

section \<open>Attempts\<close>

text \<open>Attempts of which a failing one is charged one, under any measure of the world.\<close>

lemma run_attempts_charged:
  assumes "\<And>k n. hoare (\<lambda>w. M w \<le> n) (fn k) (\<lambda>err w. M w \<le> n + (if err = None then 0 else (1::nat)))"
    and "leaves M now"
  shows "M (snd (run_attempts now fn n w)) \<le> M w + length (filter (\<lambda>e. e \<noteq> None) (fst (run_attempts now fn n w)))"
proof (induction n)
  case 0
  show ?case by simp
next
  case (Suc n)
  obtain errs w1 where a: "run_attempts now fn n w = (errs, w1)" by fastforce
  obtain s w2 where 1: "run_state now w1 = (s, w2)" by fastforce
  obtain err w3 where 2: "run_state (fn (int n + 1)) w2 = (err, w3)" by fastforce
  obtain f w4 where 3: "run_state now w3 = (f, w4)" by fastforce
  from leavesD [OF assms(2) 1] leavesD [OF assms(2) 3] hoareD [OF assms(1) le_refl 2]
  have "M w4 \<le> M w1 + (if err = None then 0 else 1)" by simp
  also have "\<dots> \<le> M w + length (filter (\<lambda>e. e \<noteq> None) (errs @ [err]))"
    using Suc a by (cases err) simp_all
  finally show ?case using a 1 2 3 by (simp add: attempt_once_def)
qed

section \<open>The task of the tests with a plan of faults\<close>

text \<open>An attempt at the evaluation task, its counts dropped, and the task over a fixed batch.\<close>

definition evaluation_attempt :: "json_pkg \<Rightarrow> 'w EvaluationTask \<Rightarrow> ('w, error) state" where
  "evaluation_attempt json task = do {
     (_, err) \<leftarrow> EvaluationTask_Run json task;
     ret err
   }"

definition batch_task :: "string \<Rightarrow> string \<Rightarrow> JobLimits \<Rightarrow> Time \<Rightarrow> Job list
    \<Rightarrow> ((pipe_world \<times> nat) \<times> fault list) EvaluationTask" where
  "batch_task a b lims t jobs =
     \<lparr>et_Lister = \<lparr>ListPendingEvaluation = (\<lambda>limit. or_fail ([], unavailable) (ret (jobs, None)))\<rparr>,
      et_Pipeline = test_faults a b lims t, et_BatchSize = int (length jobs)\<rparr>"

abbreviation batch_amount :: "Job list \<Rightarrow> (pipe_world \<times> nat) \<times> fault list \<Rightarrow> nat" where
  "batch_amount jobs v \<equiv> calls_of v + card (missing evals_of (job_ID ` set jobs) v)"

lemma attempt_amount:
  "hoare (\<lambda>v. batch_amount jobs v \<le> n) (evaluation_attempt json (batch_task a b lims t jobs))
    (\<lambda>err v. batch_amount jobs v \<le> n + (if err = None then 0 else 1))"
proof -
  have list: "hoare (\<lambda>v. batch_amount jobs v \<le> n) (or_fail ([], unavailable) (ret (jobs, None)))
      (\<lambda>(js, err) v. (err = None \<longrightarrow> js = jobs) \<and> batch_amount jobs v \<le> n)"
    by (rule hoareI) (auto simp: missing_def dest!: or_fail_cases)
  have "hoare (\<lambda>v. batch_amount jobs v \<le> n) (EvaluationTask_Run json (batch_task a b lims t jobs))
      (\<lambda>(_, err) v. batch_amount jobs v \<le> n + (if err = None then 0 else 1))"
    unfolding EvaluationTask_Run_def batch_task_def EvaluationTask.select_convs PendingJobLister.select_convs
    by (intro hoare_bind [OF list] hoare_prod hoare_option)
      (use faults.amount_evaluate_jobs [of jobs "job_ID ` set jobs"] in \<open>auto simp: hoare_def\<close>)
  then show ?thesis
    unfolding evaluation_attempt_def by (rule hoare_bind) (auto simp: hoare_def split: if_splits)
qed

lemma failures:
  assumes "\<forall>e \<in> set (butlast errs). e \<noteq> None" and "errs \<noteq> []"
  shows "length (filter (\<lambda>e. e \<noteq> None) errs) = length errs - (if last errs = None then 1 else 0)"
proof -
  have "filter (\<lambda>e. e \<noteq> None) (butlast errs @ [last errs]) =
      butlast errs @ (if last errs = None then [] else [last errs])"
    using assms(1) by (simp add: filter_id_conv)
  with assms(2) show ?thesis by (simp split: if_splits)
qed

section \<open>Properties\<close>

text \<open>
  C22. Retrying an evaluation does not multiply its cost.  Whatever the models answer at each
  attempt and whatever fails on the way, with or without having taken effect, a batch under
  the retry policy makes, over all its attempts, at most one model call for every stage of a
  job that was not stored at the start, two per job, and one for every attempt that failed:
  no attempt pays again for what an earlier one has stored.
\<close>

theorem retried_evaluation_cost:
  assumes "int64 (MaxRetries p)" and "MaxRetries p < 2 ^ 63 - 1"
  shows "\<exists>r w' n' plan'. Execute p TaskJobEvaluation (ret i) (ret u)
        (\<lambda>k. evaluation_attempt (json k) (batch_task (a k) (b k) lims t jobs)) ((w, n), plan) = Some (r, ((w', n'), plan'))
    \<and> sr_Attempt r \<le> max 1 (MaxRetries p + 1)
    \<and> int n' \<le> int n + int (card (missing pw_get (job_ID ` set jobs) w))
        + (sr_Attempt r - (if sr_Status r = RunSucceeded then 1 else 0))
    \<and> card (missing pw_get (job_ID ` set jobs) w) \<le> 2 * card (job_ID ` set jobs)"
proof -
  let ?fn = "\<lambda>k. evaluation_attempt (json k) (batch_task (a k) (b k) lims t jobs)" and ?v = "((w, n), plan)"
  obtain r v' m where x: "Execute p TaskJobEvaluation (ret i) (ret u) ?fn ?v = Some (r, v')" "1 \<le> m"
    "int m \<le> max 1 (MaxRetries p + 1)" "sr_Attempt r = int m" "sr_Task r = TaskJobEvaluation"
    "\<forall>e \<in> set (butlast (fst (run_attempts (ret u) ?fn m ?v))). e \<noteq> None"
    "run_state (ret i) (snd (run_attempts (ret u) ?fn m ?v)) = (sr_ID r, v')"
    "if last (fst (run_attempts (ret u) ?fn m ?v)) = None then sr_Status r = RunSucceeded
     else sr_Status r = RunDeadLetter \<and> int m = max 1 (MaxRetries p + 1)"
    by (rule Execute_attempts [OF assms])
  let ?errs = "fst (run_attempts (ret u) ?fn m ?v)"
  have len: "length ?errs = m" by (rule length_run_attempts)
  with x(2) have ne: "?errs \<noteq> []" by auto
  have v': "v' = snd (run_attempts (ret u) ?fn m ?v)" using x(7) by simp
  have "batch_amount jobs v' \<le> batch_amount jobs ?v + length (filter (\<lambda>e. e \<noteq> None) ?errs)"
    unfolding v' by (rule run_attempts_charged [OF attempt_amount leaves_return])
  moreover have "missing evals_of ids ?v = missing pw_get ids w" for ids by (simp add: missing_def)
  ultimately have "int (calls_of v') \<le> int n
      + int (card (missing pw_get (job_ID ` set jobs) w)) + (int m - (if sr_Status r = RunSucceeded then 1 else 0))"
    using failures [OF x(6) ne] len x(2,8) by (auto split: if_splits)
  with x(1,3,4) missing_bound [of "job_ID ` set jobs" pw_get w] show ?thesis
    by (cases v', cases "fst v'") auto
qed

theorem retried_evaluation_cost_witness:
  "\<exists>r w' n' plan'. Execute \<lparr>MaxRetries = 2\<rparr> TaskJobEvaluation (ret ''run'') (ret zeroTime)
        (\<lambda>k. evaluation_attempt sample_json (batch_task ''x'' ''y'' sample_lims zeroTime [zeroJob, zeroJob]))
        ((pipe_world0, 0), [Works, Works, Works, Works, Works, Lost]) = Some (r, ((w', n'), plan')) \<and> n' \<le> 5"
proof -
  have "int64 2" by (simp add: int64_def)
  then show ?thesis
    using retried_evaluation_cost [of "\<lparr>MaxRetries = 2\<rparr>" "''run''" zeroTime "\<lambda>_. sample_json" "\<lambda>_. ''x''" "\<lambda>_. ''y''"
        sample_lims zeroTime "[zeroJob, zeroJob]" pipe_world0 0 "[Works, Works, Works, Works, Works, Lost]"]
    by (fastforce split: if_splits)
qed

end
