(* ===== verification/DeepBudget.thy ===== *)
theory DeepBudget
  imports PipelineFaults
begin

text \<open>
  The daily limit of deep evaluations (\<open>Process\<close> in \<open>internal/job/pipeline.go\<close>).  The store of
  \<open>pipeline_test.go\<close> counts all deep evaluations, whatever day is asked for, so here the
  pipeline runs over a store that keeps the evaluations with their dates and counts those
  since the time it is given, as the interface \<open>EvaluationStore\<close> says.  A locale states what
  the count and a save mean for the evaluations of one day; it is interpreted on that
  pipeline with a plan of faults.
\<close>

section \<open>The evaluations of a day\<close>

text \<open>
  \<open>on_day\<close> counts the deep evaluations created on the day \<open>day\<close>.  Only a save of one can raise
  it, and by one; and when the count since the start of that day returns no error, it is at
  least this number.
\<close>

locale day_counter =
  fixes p :: "'w JobPipeline" and t :: Time and day :: Time and on_day :: "'w \<Rightarrow> int"
  assumes still: "leaves on_day (pl_NewID p)" "leaves on_day (pl_Now p)"
      "leaves on_day (CountDiscoveredSince (pl_JobStore p) d)" "leaves on_day (TriagePrompt (pl_Prompts p) j)"
      "leaves on_day (EvaluationPrompt (pl_Prompts p) j)" "leaves on_day (GetEvaluation (pl_EvalStore p) i st)"
      "leaves on_day (CountDeepEvaluationsSince (pl_EvalStore p) d)"
      "leaves on_day (Recorder_Generate (tr_Recorder (pl_Triager p)) (tr_Provider (pl_Triager p)) pu rq)"
      "leaves on_day (Recorder_Generate (ev_Recorder (pl_Evaluator p)) (ev_Provider (pl_Evaluator p)) pu rq)"
      "\<not> (eval_Stage e = ''deep_evaluation'' \<and> startOfDay (eval_CreatedAt e) = day) \<Longrightarrow>
        leaves on_day (SaveEvaluation (pl_EvalStore p) e)"
    and clock: "run_state (pl_Now p) w = (u, w') \<Longrightarrow> u = t"
    and count: "run_state (CountDeepEvaluationsSince (pl_EvalStore p) day) w = ((n, None), w') \<Longrightarrow> on_day w \<le> n"
    and save: "run_state (SaveEvaluation (pl_EvalStore p) e) w = (err, w') \<Longrightarrow> on_day w' \<le> on_day w + 1"
begin

lemma still_hoare: "leaves on_day m \<Longrightarrow> hoare (\<lambda>w. on_day w = k) m (\<lambda>_ w. on_day w = k)"
  by (rule leaves_hoare)

lemma triage_still: "leaves on_day (runTriage json p j)"
  unfolding runTriage_def Triage_def by (intro leaves_rules still) simp

lemma Evaluate_still: "leaves on_day (Evaluate json (pl_Evaluator p) i prompt)"
  unfolding Evaluate_def by (intro leaves_rules still)

lemma Now_hoare: "hoare (\<lambda>w. on_day w = k) (pl_Now p) (\<lambda>u w. u = t \<and> on_day w = k)"
  by (rule hoareI) (auto dest: clock leavesD [OF still(2)])

lemma Now_then: "hoare (\<lambda>w. on_day w = k) (f t) Q \<Longrightarrow> hoare (\<lambda>w. on_day w = k) (State_Monad.bind (pl_Now p) f) Q"
  by (rule hoare_bind [OF Now_hoare]) (auto simp: hoare_def)

lemma deep_step:
  "hoare (\<lambda>w. on_day w = k) (runDeepEvaluation json p j)
    (\<lambda>_ w. on_day w \<le> k + (if startOfDay t = day then 1 else 0))"
proof -
  have sv: "hoare (\<lambda>w. on_day w = k) (SaveEvaluation (pl_EvalStore p) e)
      (\<lambda>_ w. on_day w \<le> k + (if startOfDay t = day then 1 else 0))" if "eval_CreatedAt e = t" for e
  proof (rule hoareI)
    fix w err w' assume k: "on_day w = k" and run: "run_state (SaveEvaluation (pl_EvalStore p) e) w = (err, w')"
    show "on_day w' \<le> k + (if startOfDay t = day then 1 else 0)"
    proof (cases "startOfDay t = day")
      case True
      with save [OF run] k show ?thesis by simp
    next
      case False
      with that have "leaves on_day (SaveEvaluation (pl_EvalStore p) e)" by (intro still(10)) simp
      from leavesD [OF this run] k False show ?thesis by simp
    qed
  qed
  show ?thesis
    unfolding runDeepEvaluation_def Let_def
    by (intro hoare_bind [OF still_hoare [OF still(6)]] hoare_bind [OF still_hoare [OF still(5)]]
          hoare_bind [OF still_hoare [OF Evaluate_still]] hoare_bind [OF still_hoare [OF still(1)]] Now_then
          hoare_bind [OF sv] hoare_prod hoare_option hoare_if hoare_sum hoare_return) simp_all
qed

text \<open>
  On another day \<open>Process\<close> leaves the number as it is, and on that day it does not pass the limit.
\<close>

lemma Process_day:
  "hoare (\<lambda>w. on_day w = k) (Process json p j)
    (\<lambda>_ w. on_day w \<le> (if startOfDay t = day then max k (lim_DeepEvaluationsPerDay (pl_Limits p)) else k))"
    (is "hoare ?P _ ?Q")
proof -
  let ?C = "\<lambda>n w. on_day w = k \<and> (startOfDay t = day \<longrightarrow> k \<le> n)"
  have day: "hoare ?P (pipeline_startOfToday p) (\<lambda>d w. d = startOfDay t \<and> ?P w)"
    unfolding pipeline_startOfToday_def by (rule hoare_bind [OF Now_hoare]) (simp add: hoare_def)
  have cnt: "hoare ?P (CountDeepEvaluationsSince (pl_EvalStore p) d)
      (\<lambda>(n, err) w. ?P w \<and> (err = None \<longrightarrow> ?C n w))" if d: "d = startOfDay t" for d
    unfolding d
  proof (rule hoareI, clarify)
    fix w n err w' assume run: "run_state (CountDeepEvaluationsSince (pl_EvalStore p) (startOfDay t)) w = ((n, err), w')"
    have "on_day w \<le> n" if "err = None" "startOfDay t = day"
      using count [of w n w'] run that by simp
    with leavesD [OF still(7) run] show "on_day w' = on_day w \<and> (err = None \<longrightarrow> on_day w' = on_day w \<and> (startOfDay t = day \<longrightarrow> on_day w \<le> n))"
      by simp
  qed
  have deep: "hoare (\<lambda>w. on_day w = k \<and> k \<le> n) (runDeepEvaluation json p j)
      (\<lambda>_ w. on_day w \<le> max k (lim_DeepEvaluationsPerDay (pl_Limits p)))"
    if "startOfDay t = day" "\<not> lim_DeepEvaluationsPerDay (pl_Limits p) \<le> n" for n
  proof (rule hoareI)
    fix w r w' assume "on_day w = k \<and> k \<le> n" and run: "run_state (runDeepEvaluation json p j) w = (r, w')"
    with hoareD [OF deep_step _ run, of k] that
    show "on_day w' \<le> max k (lim_DeepEvaluationsPerDay (pl_Limits p))" by simp
  qed
  have other: "hoare (\<lambda>w. on_day w = k) (runDeepEvaluation json p j) (\<lambda>_ w. on_day w \<le> k)"
    if "startOfDay t \<noteq> day"
    using deep_step that by simp
  show ?thesis
    unfolding Process_def
    by (intro hoare_bind [OF day] hoare_pure hoare_bind [OF still_hoare [OF still(3)]]
          hoare_bind [OF still_hoare [OF triage_still]] hoare_bind [OF cnt] hoare_prod hoare_option hoare_if
          hoare_sum hoare_return) (simp_all add: deep other)
qed

end

section \<open>A store that keeps the dates\<close>

text \<open>The evaluations in the order in which they were saved; the last one of a job and stage is the one found.\<close>

definition dated_find :: "string \<Rightarrow> string \<Rightarrow> Evaluation list \<Rightarrow> Evaluation option" where
  "dated_find i st es = find (\<lambda>e. eval_JobID e = i \<and> eval_Stage e = st) (rev es)"

definition dated_store :: "Evaluation list EvaluationStore" where
  "dated_store =
     \<lparr>SaveEvaluation = (\<lambda>e. State (\<lambda>es. (None, es @ [e]))),
      CountDeepEvaluationsSince = (\<lambda>d. State (\<lambda>es.
        ((int (length (filter (\<lambda>e. eval_Stage e = ''deep_evaluation'' \<and> \<not> time_Before (eval_CreatedAt e) d) es)),
          None), es))),
      GetEvaluation = (\<lambda>i st. State (\<lambda>es.
        (case dated_find i st es of Some e \<Rightarrow> (e, True, None) | None \<Rightarrow> (zeroEvaluation, False, None), es)))\<rparr>"

lemma dated_store_last:
  "eval_Stage e \<in> job_stages \<Longrightarrow> st \<in> job_stages \<Longrightarrow>
   dated_find i st (es @ [e]) = (if i = eval_JobID e \<and> st = eval_Stage e then Some e else dated_find i st es)"
  by (auto simp: dated_find_def)

interpretation dated: eval_store dated_store "\<lambda>es i st. dated_find i st es"
  by unfold_locales (auto simp: dated_store_def dated_store_last)

text \<open>The job store and the run log of the tests next to it.\<close>

record dated_world =
  dw_jobs :: fakeJobStore
  dw_evals :: "Evaluation list"
  dw_runs :: fakeRunStore

definition dated_world0 :: dated_world where
  "dated_world0 = \<lparr>dw_jobs = newFakeJobStore, dw_evals = [], dw_runs = \<lparr>frs_saved = [], frs_err = None\<rparr>\<rparr>"

definition on_dw_jobs :: "(fakeJobStore, 'a) state \<Rightarrow> (dated_world, 'a) state" where
  "on_dw_jobs = on_part dw_jobs (\<lambda>s w. w\<lparr>dw_jobs := s\<rparr>)"

definition on_dw_evals :: "(Evaluation list, 'a) state \<Rightarrow> (dated_world, 'a) state" where
  "on_dw_evals = on_part dw_evals (\<lambda>s w. w\<lparr>dw_evals := s\<rparr>)"

definition on_dw_runs :: "(fakeRunStore, 'a) state \<Rightarrow> (dated_world, 'a) state" where
  "on_dw_runs = on_part dw_runs (\<lambda>s w. w\<lparr>dw_runs := s\<rparr>)"

definition dated_recorder :: "dated_world Recorder" where
  "dated_recorder = NewRecorder (ret zeroTime) \<lparr>SaveModelRun = (\<lambda>r. on_dw_runs (fakeRunStore_SaveRun r))\<rparr> (ret ''run'')"

definition dated_pipeline :: "string \<Rightarrow> string \<Rightarrow> JobLimits \<Rightarrow> Time \<Rightarrow> dated_world JobPipeline" where
  "dated_pipeline triageText evalText limits t = NewJobPipeline (ret t)
     \<lparr>GetJob = (\<lambda>i. on_dw_jobs (GetJob fakeJobStore_ops i)),
      FindBySourceJobID = (\<lambda>s i. on_dw_jobs (FindBySourceJobID fakeJobStore_ops s i)),
      FindByNormalizedHash = (\<lambda>h. on_dw_jobs (FindByNormalizedHash fakeJobStore_ops h)),
      SaveJob = (\<lambda>j. on_dw_jobs (SaveJob fakeJobStore_ops j)),
      CountDiscoveredSince = (\<lambda>t. on_dw_jobs (CountDiscoveredSince fakeJobStore_ops t))\<rparr>
     \<lparr>SaveEvaluation = (\<lambda>e. on_dw_evals (SaveEvaluation dated_store e)),
      CountDeepEvaluationsSince = (\<lambda>t. on_dw_evals (CountDeepEvaluationsSince dated_store t)),
      GetEvaluation = (\<lambda>i st. on_dw_evals (GetEvaluation dated_store i st))\<rparr>
     \<lparr>TriagePrompt = (\<lambda>j. ret (''triage:'' @ job_ID j)),
      EvaluationPrompt = (\<lambda>j. ret (''evaluate:'' @ job_ID j))\<rparr>
     (NewTriager dated_recorder (jsonProvider triageText))
     (NewEvaluator dated_recorder (jsonProvider evalText))
     limits (ret ''eval-1'')"

abbreviation dated_faults :: "string \<Rightarrow> string \<Rightarrow> JobLimits \<Rightarrow> Time \<Rightarrow> ((dated_world \<times> nat) \<times> fault list) JobPipeline" where
  "dated_faults a b lims t \<equiv> faulty_pipeline (dated_pipeline a b lims t)"

lemmas dated_simps = faulty_pipeline_def faulty_JobStore_def faulty_EvaluationStore_def dated_pipeline_def
  NewJobPipeline_def NewTriager_def NewEvaluator_def dated_recorder_def NewRecorder_def

text \<open>The deep evaluations of a day.\<close>

definition deep_on :: "Time \<Rightarrow> dated_world \<Rightarrow> int" where
  "deep_on day w = int (length (filter (\<lambda>e. eval_Stage e = ''deep_evaluation'' \<and> startOfDay (eval_CreatedAt e) = day)
     (dw_evals w)))"

lemma filter_length_mono: "(\<And>x. P x \<Longrightarrow> Q x) \<Longrightarrow> length (filter P xs) \<le> length (filter Q xs)"
  by (induction xs) auto

lemma deep_on_since:
  "deep_on day w \<le> int (length (filter (\<lambda>e. eval_Stage e = ''deep_evaluation'' \<and> \<not> time_Before (eval_CreatedAt e) day)
     (dw_evals w)))"
proof -
  have "\<not> time_Before u day" if "startOfDay u = day" for u
    using startOfDay_bounds [of u] that by (simp add: time_Before_def)
  then have "length (filter (\<lambda>e. eval_Stage e = ''deep_evaluation'' \<and> startOfDay (eval_CreatedAt e) = day) es)
      \<le> length (filter (\<lambda>e. eval_Stage e = ''deep_evaluation'' \<and> \<not> time_Before (eval_CreatedAt e) day) es)" for es
    by (intro filter_length_mono) blast
  then show ?thesis unfolding deep_on_def by simp
qed

lemma deep_on_leaves:
  "leaves dw_evals m \<Longrightarrow> leaves (\<lambda>v. deep_on day (fst (fst v))) (or_fail x (on_fst m))"
  "leaves dw_evals m \<Longrightarrow> leaves (\<lambda>v. deep_on day (fst (fst v))) (on_fst (on_fst m))"
proof -
  assume "leaves dw_evals m"
  then have "leaves (deep_on day) m" by (simp add: leaves_def deep_on_def)
  then have 1: "leaves (\<lambda>v. deep_on day (fst v)) (on_fst m)" by (rule leaves_on_fst)
  show "leaves (\<lambda>v. deep_on day (fst (fst v))) (or_fail x (on_fst m))" by (rule leaves_or_fail [OF 1])
  show "leaves (\<lambda>v. deep_on day (fst (fst v))) (on_fst (on_fst m))" by (rule leaves_on_fst [OF 1])
qed

lemma dated_evals_leaves:
  "leaves dw_evals (on_dw_jobs m)" "leaves dw_evals (on_dw_runs m')"
  "leaves dw_evals (on_dw_evals (GetEvaluation dated_store i st))"
  "leaves dw_evals (on_dw_evals (CountDeepEvaluationsSince dated_store d))"
  by (simp_all add: on_dw_jobs_def on_dw_runs_def leaves_on_part)
     (simp_all add: leaves_def on_dw_evals_def dated_store_def)

lemma deep_on_counted: "leaves dw_evals (prov_Generate pr rq) \<Longrightarrow>
   leaves (\<lambda>v. deep_on day (fst (fst v))) (or_fail x (prov_Generate (counted pr) rq))"
proof (rule leaves_or_fail, rule leavesI)
  fix v a v'
  assume L: "leaves dw_evals (prov_Generate pr rq)" and run: "run_state (prov_Generate (counted pr) rq) v = (a, v')"
  from run have "run_state (prov_Generate pr rq) (fst v) = (a, fst v')"
    by (cases v) (auto simp: counted_def split: prod.splits)
  from leavesD [OF L this] show "deep_on day (fst v') = deep_on day (fst v)" by (simp add: deep_on_def)
qed

lemma deep_on_Recorder:
  "leaves (\<lambda>v. deep_on day (fst (fst v))) (Recorder_Generate (faulty_Recorder dated_recorder) (faulty_Provider (jsonProvider x)) pu rq)"
proof (rule leaves_Recorder)
  show "leaves (\<lambda>v. deep_on day (fst (fst v))) (prov_Generate (faulty_Provider (jsonProvider x)) rq)" for rq
    unfolding faulty_Provider_def Provider.select_convs
    by (rule deep_on_counted) (simp add: jsonProvider_def Gemini_as_Provider_def Gemini_Generate_def leaves_return)
qed (simp_all add: faulty_Recorder_def dated_recorder_def NewRecorder_def deep_on_leaves leaves_return dated_evals_leaves)

lemma dated_save:
  assumes "run_state (SaveEvaluation (pl_EvalStore (dated_faults a b lims t)) e) w = (err, w')"
  shows "dw_evals (fst (fst w')) = dw_evals (fst (fst w)) \<or> dw_evals (fst (fst w')) = dw_evals (fst (fst w)) @ [e]"
proof -
  from assms have "run_state (or_fail unavailable (on_fst (on_dw_evals (SaveEvaluation dated_store e)))) w = (err, w')"
    by (simp add: dated_simps)
  from fault_cases [OF this] show ?thesis
    by (auto simp: on_dw_evals_def dated_store_def dest!: arg_cong [of _ _ dw_evals])
qed

interpretation day: day_counter "dated_faults a b lims t" t day "\<lambda>v. deep_on day (fst (fst v))" for a b lims t day
proof
  fix e :: Evaluation and err w w'
  assume "run_state (SaveEvaluation (pl_EvalStore (dated_faults a b lims t)) e) w = (err, w')"
  from dated_save [OF this] show "deep_on day (fst (fst w')) \<le> deep_on day (fst (fst w)) + 1"
    by (auto simp: deep_on_def)
next
  fix e :: Evaluation assume e: "\<not> (eval_Stage e = ''deep_evaluation'' \<and> startOfDay (eval_CreatedAt e) = day)"
  show "leaves (\<lambda>v. deep_on day (fst (fst v))) (SaveEvaluation (pl_EvalStore (dated_faults a b lims t)) e)"
    using e by (intro leavesI) (drule dated_save, auto simp: deep_on_def)
next
  fix w n w'
  assume "run_state (CountDeepEvaluationsSince (pl_EvalStore (dated_faults a b lims t)) day) w = ((n, None), w')"
  then have "run_state (or_fail (0, unavailable) (on_fst (on_dw_evals (CountDeepEvaluationsSince dated_store day)))) w
      = ((n, None), w')" by (simp add: dated_simps)
  from fault_cases [OF this] deep_on_since [of day "fst (fst w)"] show "deep_on day (fst (fst w)) \<le> n"
    by (auto simp: on_dw_evals_def dated_store_def)
qed (simp_all add: dated_simps deep_on_Recorder [unfolded dated_simps] deep_on_leaves leaves_return dated_evals_leaves,
    auto dest!: run_on_fstD)

section \<open>Histories over several days\<close>

lemmas dated_more = pipe_runs.more [where mk = dated_faults]

lemma runs_day:
  assumes "pipe_runs dated_faults v evs v'"
    and "\<forall>ev \<in> set evs. startOfDay (pev_time ev) = day \<longrightarrow> lim_DeepEvaluationsPerDay (pev_limits ev) \<le> L"
  shows "deep_on day (fst v') \<le> max (deep_on day (fst v)) L"
  using assms
proof (induction rule: pipe_runs.induct)
  case (more v evs v1 json a b lims t j plan r v2 plan')
  have lim: "pl_Limits (dated_faults a b lims t) = lims" by (simp add: dated_simps)
  from hoareD [OF day.Process_day refl more.hyps(2), of day]
  have "deep_on day (fst v2) \<le> (if startOfDay t = day then max (deep_on day (fst v1)) (lim_DeepEvaluationsPerDay lims)
      else deep_on day (fst v1))" unfolding lim fst_conv .
  with more.IH more.prems show ?case by (auto split: if_splits)
qed simp

lemmas run_dated_simps = Process_def pipeline_startOfToday_def runTriage_def runDeepEvaluation_def Triage_def Evaluate_def
  Recorder_Generate_def or_fail_def dated_simps faulty_Recorder_def faulty_Provider_def counted_def
  jsonProvider_def Gemini_as_Provider_def Gemini_Generate_def on_dw_jobs_def
  on_dw_evals_def on_dw_runs_def fakeJobStore_ops_def dated_store_def dated_find_def

text \<open>
  Two jobs worth a deep evaluation, with one a day: the second job has to wait for the next day.
\<close>

abbreviation job_named :: "string \<Rightarrow> Job" where
  "job_named i \<equiv> zeroJob\<lparr>job_ID := i\<rparr>"

abbreviation dated_event :: "string \<Rightarrow> Time \<Rightarrow> goerror + Score \<Rightarrow> pipe_event" where
  "dated_event i t r \<equiv> \<lparr>pev_json = sample_json, pev_job = job_named i, pev_triage = ''x'', pev_eval = ''y'',
     pev_limits = sample_lims, pev_time = t, pev_result = r\<rparr>"

abbreviation next_day :: Time where
  "next_day \<equiv> time_Add zeroTime day_ns"

lemma sample_days:
  "\<exists>r1 r2 r3 v. pipe_runs dated_faults (dated_world0, 0)
       [dated_event ''a'' zeroTime r1, dated_event ''b'' zeroTime r2, dated_event ''b'' next_day r3] v
     \<and> deep_on (startOfDay zeroTime) (fst v) = 1 \<and> deep_on (startOfDay next_day) (fst v) = 1"
proof -
  let ?p = "dated_faults ''x'' ''y'' sample_lims"
  have "\<exists>r1 w1 r2 w2 r3 w3. run_state (Process sample_json (?p zeroTime) (job_named ''a'')) ((dated_world0, 0), []) = (r1, (w1, []))
      \<and> run_state (Process sample_json (?p zeroTime) (job_named ''b'')) (w1, []) = (r2, (w2, []))
      \<and> run_state (Process sample_json (?p next_day) (job_named ''b'')) (w2, []) = (r3, (w3, []))
      \<and> deep_on (startOfDay zeroTime) (fst w3) = 1 \<and> deep_on (startOfDay next_day) (fst w3) = 1"
    by (simp add: run_dated_simps dated_world0_def newFakeJobStore_def sample_json_def ApplyTriage_Recommendation
        deep_on_def time_defs startOfDay_def day_ns_def Let_def)
  then obtain r1 w1 r2 w2 r3 w3 where
    1: "run_state (Process sample_json (?p zeroTime) (job_named ''a'')) ((dated_world0, 0), []) = (r1, (w1, []))"
    and 2: "run_state (Process sample_json (?p zeroTime) (job_named ''b'')) (w1, []) = (r2, (w2, []))"
    and 3: "run_state (Process sample_json (?p next_day) (job_named ''b'')) (w2, []) = (r3, (w3, []))"
    and "deep_on (startOfDay zeroTime) (fst w3) = 1" "deep_on (startOfDay next_day) (fst w3) = 1" by blast
  with dated_more [OF dated_more [OF dated_more [OF pipe_runs.none 1] 2] 3] show ?thesis by fastforce
qed

section \<open>Properties\<close>

text \<open>
  C23. The daily budget of deep evaluations is respected, whatever fails: over every history
  of calls of \<open>Process\<close>, at whatever times, if the calls made on a day have a limit of at most
  \<open>L\<close>, the number of deep evaluations created on that day does not pass \<open>L\<close>, or where it
  already was; evaluations of other days are not charged to it.
\<close>

theorem Process_deep_budget:
  assumes "pipe_runs dated_faults v evs v'"
    and "\<forall>ev \<in> set evs. startOfDay (pev_time ev) = day \<longrightarrow> lim_DeepEvaluationsPerDay (pev_limits ev) \<le> L"
  shows "deep_on day (fst v') \<le> max (deep_on day (fst v)) L"
  by (rule runs_day [OF assms])

theorem Process_deep_budget_witness:
  "\<exists>r1 r2 r3 v. pipe_runs dated_faults (dated_world0, 0)
       [dated_event ''a'' zeroTime r1, dated_event ''b'' zeroTime r2, dated_event ''b'' next_day r3] v
     \<and> deep_on (startOfDay zeroTime) (fst v) = 1 \<and> deep_on (startOfDay next_day) (fst v) = 1
     \<and> deep_on (startOfDay zeroTime) (fst v) \<le> max (deep_on (startOfDay zeroTime) (dated_world0)) 1"
proof -
  from sample_days obtain r1 r2 r3 v where r: "pipe_runs dated_faults (dated_world0, 0)
      [dated_event ''a'' zeroTime r1, dated_event ''b'' zeroTime r2, dated_event ''b'' next_day r3] v"
    and n: "deep_on (startOfDay zeroTime) (fst v) = 1" "deep_on (startOfDay next_day) (fst v) = 1" by blast
  from Process_deep_budget [OF r, of "startOfDay zeroTime" 1]
  have "deep_on (startOfDay zeroTime) (fst v) \<le> max (deep_on (startOfDay zeroTime) (dated_world0)) 1" by simp
  with r n show ?thesis by blast
qed

end
