(* ===== verification/Float64.thy ===== *)
theory Float64
  imports CP_Prelude Complex_Main "HOL-Library.Log_Nat"
begin

text \<open>
  The part of Go's \<open>float64\<close> that the analytics use: conversion of a non-negative integer,
  the quotient of two such numbers, and comparison.  A value is the rational number it
  denotes; \<open>float64 x\<close> is \<open>x\<close> rounded to 53 significant bits, ties to even.  The counts
  divided here are 64-bit integers, so no quotient is subnormal or infinite.
\<close>

section \<open>Rounding to double precision\<close>

definition round_half_even :: "rat \<Rightarrow> int" where
  "round_half_even x =
     (let f = \<lfloor>x\<rfloor>; r = x - of_int f
      in if r < 1 / 2 then f else if 1 / 2 < r then f + 1 else if even f then f else f + 1)"

definition rat_exponent :: "rat \<Rightarrow> int" where
  "rat_exponent x =
     (case quotient_of x of (p, q) \<Rightarrow>
        let e = bitlen p - bitlen q in if 2 powi e \<le> x then e else e - 1)"

definition float64 :: "rat \<Rightarrow> rat" where
  "float64 x =
     (if x \<le> 0 then 0
      else let u = 2 powi (rat_exponent x - 52) in of_int (round_half_even (x / u)) * u)"

lemma round_half_even_int: "round_half_even (of_int n) = n"
  by (simp add: round_half_even_def)

lemma round_half_even_floor: "round_half_even x = \<lfloor>x\<rfloor> \<or> round_half_even x = \<lfloor>x\<rfloor> + 1"
  by (simp add: round_half_even_def Let_def)

lemma round_half_even_mono:
  assumes "x \<le> y"
  shows "round_half_even x \<le> round_half_even y"
proof (cases "\<lfloor>x\<rfloor> = \<lfloor>y\<rfloor>")
  case True
  then have "x - of_int \<lfloor>x\<rfloor> \<le> y - of_int \<lfloor>x\<rfloor>" using assms by simp
  with True show ?thesis by (auto simp: round_half_even_def Let_def)
next
  case False
  with floor_mono [OF assms] have "\<lfloor>x\<rfloor> + 1 \<le> \<lfloor>y\<rfloor>" by linarith
  with round_half_even_floor [of x] round_half_even_floor [of y] show ?thesis by linarith
qed

lemma bitlen_powi:
  assumes "0 < p"
  shows "2 powi (bitlen p - 1) \<le> rat_of_int p \<and> rat_of_int p < 2 powi bitlen p"
proof -
  have b: "1 \<le> bitlen p" using assms bitlen_nonneg [of p] bitlen_eq_zero_iff [of p] by linarith
  have "2 powi (bitlen p - 1) = rat_of_int (2 ^ nat (bitlen p - 1))"
    and "2 powi bitlen p = rat_of_int (2 ^ nat (bitlen p))"
    using b by (simp_all add: power_int_def)
  then show ?thesis using bitlen_bounds [OF assms] by (simp only: of_int_le_iff of_int_less_iff)
qed

lemma powi_pos: "0 < (2 :: rat) powi e"
  by (rule zero_less_power_int) simp

text \<open>The exponent is the one of the binary order of magnitude.\<close>

lemma rat_exponent_bounds:
  assumes "0 < x"
  shows "2 powi rat_exponent x \<le> x \<and> x < 2 powi (rat_exponent x + 1)"
proof -
  obtain p q where pq: "quotient_of x = (p, q)" by fastforce
  then have x: "x = of_int p / of_int q" and q: "0 < q"
    by (simp_all add: quotient_of_div quotient_of_denom_pos)
  with assms have p: "0 < p" by (simp add: zero_less_divide_iff)
  let ?e = "bitlen p - bitlen q"
  have "2 powi (bitlen p - 1) / 2 powi bitlen q < x"
    unfolding x using bitlen_powi [OF p] bitlen_powi [OF q] p q
    by (intro frac_less2) (auto simp: powi_pos)
  moreover have "?e - 1 = (bitlen p - 1) - bitlen q" by simp
  ultimately have lo: "2 powi (?e - 1) < x" by (metis power_int_diff zero_neq_numeral)
  have "x < 2 powi bitlen p / 2 powi (bitlen q - 1)"
    unfolding x using bitlen_powi [OF p] bitlen_powi [OF q] p q
    by (intro frac_less) (auto simp: powi_pos)
  moreover have "?e + 1 = bitlen p - (bitlen q - 1)" by simp
  ultimately have hi: "x < 2 powi (?e + 1)" by (metis power_int_diff zero_neq_numeral)
  show ?thesis
    using lo hi by (auto simp: rat_exponent_def pq Let_def)
qed

lemma powi_mono: "a \<le> b \<Longrightarrow> (2 :: rat) powi a \<le> 2 powi b"
  by (rule power_int_increasing) simp_all

lemma rat_exponent_mono:
  assumes "0 < x" and "x \<le> y"
  shows "rat_exponent x \<le> rat_exponent y"
proof (rule ccontr)
  assume "\<not> ?thesis"
  then have "2 powi (rat_exponent y + 1) \<le> (2 :: rat) powi rat_exponent x" by (intro powi_mono) simp
  with rat_exponent_bounds [of x] rat_exponent_bounds [of y] assms show False by force
qed

lemma float64_binade:
  assumes "0 < x"
  shows "2 powi rat_exponent x \<le> float64 x \<and> float64 x \<le> 2 powi (rat_exponent x + 1)"
proof -
  let ?e = "rat_exponent x"
  let ?u = "(2 :: rat) powi (?e - 52)"
  have e: "2 powi ?e = of_int (2 ^ 52) * ?u" "2 powi (?e + 1) = of_int (2 ^ 53) * ?u"
    by (simp_all add: power_int_diff power_int_add)
  from rat_exponent_bounds [OF assms] e have "of_int (2 ^ 52) \<le> x / ?u" "x / ?u \<le> of_int (2 ^ 53)"
    by (simp_all add: le_divide_eq divide_le_eq powi_pos del: of_int_power)
  from this [THEN round_half_even_mono] have "2 ^ 52 \<le> round_half_even (x / ?u)"
    "round_half_even (x / ?u) \<le> 2 ^ 53"
    by (simp_all only: round_half_even_int)
  then have "rat_of_int (2 ^ 52) * ?u \<le> of_int (round_half_even (x / ?u)) * ?u"
    "of_int (round_half_even (x / ?u)) * ?u \<le> rat_of_int (2 ^ 53) * ?u"
    by (intro mult_right_mono; simp add: less_imp_le [OF powi_pos] del: of_int_power)+
  with assms e show ?thesis by (simp add: float64_def Let_def)
qed

lemma float64_mono:
  assumes "x \<le> y"
  shows "float64 x \<le> float64 y"
proof (cases "x \<le> 0")
  case True
  have "0 \<le> float64 y"
  proof (cases "y \<le> 0")
    case False
    then have "0 < y" by simp
    from float64_binade [OF this] powi_pos [of "rat_exponent y"] show ?thesis by linarith
  qed (simp add: float64_def)
  with True show ?thesis by (simp add: float64_def)
next
  case False
  then have pos: "0 < x" "0 < y" using assms by auto
  show ?thesis
  proof (cases "rat_exponent x = rat_exponent y")
    case True
    let ?u = "(2 :: rat) powi (rat_exponent y - 52)"
    have "x / ?u \<le> y / ?u" using assms by (simp add: divide_right_mono less_imp_le [OF powi_pos])
    from round_half_even_mono [OF this] True pos show ?thesis
      by (simp add: float64_def Let_def mult_right_mono less_imp_le [OF powi_pos])
  next
    case False
    with rat_exponent_mono [OF pos(1) assms] have "(2 :: rat) powi (rat_exponent x + 1) \<le> 2 powi rat_exponent y"
      by (intro powi_mono) simp
    with float64_binade [OF pos(1)] float64_binade [OF pos(2)] show ?thesis by linarith
  qed
qed

lemma float64_zero [simp]: "float64 0 = 0"
  by (simp add: float64_def)

lemma float64_nonneg: "0 \<le> float64 x"
  using float64_mono [of 0 x] by (cases "x \<le> 0") (simp_all add: float64_def)

text \<open>Integers of at most 53 bits are exact.\<close>

lemma float64_int:
  assumes "0 \<le> n" and "n < 2 ^ 53"
  shows "float64 (of_int n) = of_int n"
proof (cases "n = 0")
  case False
  with assms have n: "0 < n" by simp
  let ?e = "rat_exponent (of_int n)"
  have b: "2 powi ?e \<le> rat_of_int n" "rat_of_int n < 2 powi (?e + 1)"
    using rat_exponent_bounds [of "of_int n"] n by auto
  have "\<not> 53 \<le> ?e"
  proof
    assume "53 \<le> ?e"
    then have "(2 :: rat) powi 53 \<le> 2 powi ?e" by (intro powi_mono)
    with b(1) have "rat_of_int (2 ^ 53) \<le> of_int n" by simp
    with assms(2) show False by (simp only: of_int_le_iff)
  qed
  then have le: "?e \<le> 52" by simp
  let ?k = "nat (52 - ?e)"
  have u: "(2 :: rat) powi (?e - 52) = inverse (of_int (2 ^ ?k))"
    using le by (cases "?e = 52") (simp_all add: power_int_def power_one_over inverse_eq_divide)
  have "of_int n / 2 powi (?e - 52) = rat_of_int (n * 2 ^ ?k)" by (simp add: u divide_inverse)
  with n show ?thesis
    by (simp add: float64_def Let_def round_half_even_int u del: of_int_mult of_int_power) simp
qed simp

text \<open>The rounding error is at most half a unit in the last place.\<close>

lemma round_half_even_error: "\<bar>of_int (round_half_even x) - x\<bar> \<le> 1 / 2"
proof -
  have "of_int \<lfloor>x\<rfloor> \<le> x" "x < of_int \<lfloor>x\<rfloor> + 1" by linarith+
  then show ?thesis by (auto simp: round_half_even_def Let_def abs_le_iff)
qed

lemma float64_error:
  assumes "0 \<le> x"
  shows "\<bar>float64 x - x\<bar> \<le> x / 2 ^ 53"
proof (cases "x = 0")
  case False
  with assms have pos: "0 < x" by simp
  let ?u = "(2 :: rat) powi (rat_exponent x - 52)"
  have u: "0 < ?u" by (rule powi_pos)
  have "?u * 2 ^ 52 = 2 powi rat_exponent x" by (simp add: power_int_diff)
  with rat_exponent_bounds [OF pos] have le: "?u * 2 ^ 52 \<le> x" by simp
  have "float64 x - x = (of_int (round_half_even (x / ?u)) - x / ?u) * ?u"
    using pos u by (simp add: float64_def Let_def left_diff_distrib)
  then have "\<bar>float64 x - x\<bar> = \<bar>of_int (round_half_even (x / ?u)) - x / ?u\<bar> * ?u"
    using u by (simp add: abs_mult)
  also have "\<dots> \<le> 1 / 2 * ?u"
    using u by (intro mult_right_mono round_half_even_error) simp
  also have "\<dots> \<le> x / 2 ^ 53" using le by (simp add: field_simps)
  finally show ?thesis .
qed simp

text \<open>A negative value is rounded by its magnitude.\<close>

definition to_float64 :: "rat \<Rightarrow> rat" where
  "to_float64 x = (if x < 0 then - float64 (- x) else float64 x)"

lemma to_float64_nonneg: "0 \<le> x \<Longrightarrow> to_float64 x = float64 x"
  by (simp add: to_float64_def)

end
