(* ===== verification/Outcome.thy ===== *)
theory Outcome
  imports Go_Lib Float64 "HOL-Library.List_Lexorder" "HOL-Library.Char_ord"
    "HOL-Library.Multiset"
begin

text \<open>
  \<open>internal/outcome\<close>: the outcome records with their append-only stage history
  (\<open>outcome.go\<close>), the read-only analytics over them (\<open>analytics.go\<close>) and the
  recommendation of resume versions to review (\<open>recommendation.go\<close>).

  The three groupings build a Go map and range over it, in an order Go does not fix: the
  order of the keys is an argument \<open>iter\<close> of the definitions, and the theorems show that
  the result does not depend on it.  \<open>sort.Slice\<close> is the insertion sort that Go runs on
  short slices; on the distinct keys of a grouping every comparison sort has that result.
\<close>

section \<open>Outcome records\<close>

datatype FunnelStage = StageDiscovered | StageQualified | StagePrepared | StageSubmitted
  | StageResponded | StageInterview | StageOffer | StageRejected | StageWithdrawn
  | StageOther string

definition zeroStage :: FunnelStage where "zeroStage = StageOther []"

record StageEvent =
  se_Stage :: FunnelStage
  se_Timestamp :: Time

record Record =
  rec_ID :: string
  rec_ApplicationID :: string
  rec_JobID :: string
  rec_Role :: string
  rec_Company :: string
  rec_Source :: string
  rec_ResumeVariant :: string
  rec_ResumeVersion :: int
  rec_JobScore :: int
  rec_ApplicationDate :: Time
  rec_Stages :: "StageEvent list"
  rec_FinalOutcome :: FunnelStage

definition zeroRecord :: Record where
  "zeroRecord = \<lparr>rec_ID = [], rec_ApplicationID = [], rec_JobID = [], rec_Role = [],
     rec_Company = [], rec_Source = [], rec_ResumeVariant = [], rec_ResumeVersion = 0,
     rec_JobScore = 0, rec_ApplicationDate = zeroTime, rec_Stages = [],
     rec_FinalOutcome = zeroStage\<rparr>"

fun HasStage_loop :: "StageEvent list \<Rightarrow> FunnelStage \<Rightarrow> bool" where
  "HasStage_loop [] stage = False"
| "HasStage_loop (e # es) stage = (if se_Stage e = stage then True else HasStage_loop es stage)"

definition HasStage :: "Record \<Rightarrow> FunnelStage \<Rightarrow> bool" where
  "HasStage r stage = HasStage_loop (rec_Stages r) stage"

record 'w OutcomeStore =
  GetRecord :: "string \<Rightarrow> ('w, Record \<times> error) state"
  ListRecords :: "Time \<Rightarrow> ('w, Record list \<times> error) state"
  SaveRecord :: "Record \<Rightarrow> ('w, Record \<times> error) state"

definition AppendStage :: "Record \<Rightarrow> FunnelStage \<Rightarrow> Time \<Rightarrow> Record" where
  "AppendStage r stage ts =
     (let r = r\<lparr>rec_Stages := rec_Stages r @ [\<lparr>se_Stage = stage, se_Timestamp = ts\<rparr>]\<rparr>
      in case stage of
           StageOffer \<Rightarrow> r\<lparr>rec_FinalOutcome := stage\<rparr>
         | StageRejected \<Rightarrow> r\<lparr>rec_FinalOutcome := stage\<rparr>
         | StageWithdrawn \<Rightarrow> r\<lparr>rec_FinalOutcome := stage\<rparr>
         | _ \<Rightarrow> r)"

lemma HasStage_iff: "HasStage r s \<longleftrightarrow> s \<in> se_Stage ` set (rec_Stages r)"
proof -
  have "HasStage_loop es s \<longleftrightarrow> s \<in> se_Stage ` set es" for es
    by (induction es) auto
  then show ?thesis by (simp add: HasStage_def)
qed

abbreviation terminal_stage :: "FunnelStage \<Rightarrow> bool" where
  "terminal_stage s \<equiv> s \<in> {StageOffer, StageRejected, StageWithdrawn}"

lemma AppendStage_eq:
  "AppendStage r s ts =
     r\<lparr>rec_Stages := rec_Stages r @ [\<lparr>se_Stage = s, se_Timestamp = ts\<rparr>],
       rec_FinalOutcome := if terminal_stage s then s else rec_FinalOutcome r\<rparr>"
  by (cases s) (simp_all add: AppendStage_def Let_def)

lemma HasStage_AppendStage: "HasStage (AppendStage r s ts) t \<longleftrightarrow> t = s \<or> HasStage r t"
  by (auto simp: AppendStage_eq HasStage_iff)

text \<open>A whole history, one \<open>AppendStage\<close> call per event.\<close>

definition append_all :: "Record \<Rightarrow> StageEvent list \<Rightarrow> Record" where
  "append_all r es = foldl (\<lambda>r e. AppendStage r (se_Stage e) (se_Timestamp e)) r es"

text \<open>
  Outcome history is append-only.  After any sequence of \<open>AppendStage\<close> calls the
  history is the old one followed by the appended events in call order, nothing but the
  history and the final outcome has changed, and the final outcome is the last terminal
  stage appended (offer, rejected, withdrawn), or what it was when there was none.
\<close>

theorem AppendStage_history:
  "append_all r es =
     r\<lparr>rec_Stages := rec_Stages r @ es,
       rec_FinalOutcome :=
         last (rec_FinalOutcome r # filter (\<lambda>s. terminal_stage s) (map se_Stage es))\<rparr>"
proof (induction es rule: rev_induct)
  case Nil
  show ?case by (simp add: append_all_def)
next
  case (snoc e es)
  have "append_all r (es @ [e]) = AppendStage (append_all r es) (se_Stage e) (se_Timestamp e)"
    by (simp add: append_all_def)
  also have "\<dots> = r\<lparr>rec_Stages := rec_Stages r @ es @ [e],
      rec_FinalOutcome := if terminal_stage (se_Stage e) then se_Stage e
        else last (rec_FinalOutcome r # filter (\<lambda>s. terminal_stage s) (map se_Stage es))\<rparr>"
    by (simp only: snoc AppendStage_eq) simp
  finally show ?case by simp
qed

section \<open>The funnel\<close>

record FunnelCounts =
  f_Discovered :: int
  f_Qualified :: int
  f_Prepared :: int
  f_Submitted :: int
  f_Responded :: int
  f_Interview :: int
  f_Offer :: int
  f_Rejected :: int
  f_Withdrawn :: int

definition zeroFunnelCounts :: FunnelCounts where
  "zeroFunnelCounts = \<lparr>f_Discovered = 0, f_Qualified = 0, f_Prepared = 0, f_Submitted = 0,
     f_Responded = 0, f_Interview = 0, f_Offer = 0, f_Rejected = 0, f_Withdrawn = 0\<rparr>"

text \<open>The body of the loop of \<open>Funnel\<close>: nine independent conditional increments.\<close>

definition Funnel_step :: "FunnelCounts \<Rightarrow> Record \<Rightarrow> FunnelCounts" where
  "Funnel_step f r =
     (let f = if HasStage r StageDiscovered then f\<lparr>f_Discovered := f_Discovered f + 1\<rparr> else f;
          f = if HasStage r StageQualified then f\<lparr>f_Qualified := f_Qualified f + 1\<rparr> else f;
          f = if HasStage r StagePrepared then f\<lparr>f_Prepared := f_Prepared f + 1\<rparr> else f;
          f = if HasStage r StageSubmitted then f\<lparr>f_Submitted := f_Submitted f + 1\<rparr> else f;
          f = if HasStage r StageResponded then f\<lparr>f_Responded := f_Responded f + 1\<rparr> else f;
          f = if HasStage r StageInterview then f\<lparr>f_Interview := f_Interview f + 1\<rparr> else f;
          f = if HasStage r StageOffer then f\<lparr>f_Offer := f_Offer f + 1\<rparr> else f;
          f = if HasStage r StageRejected then f\<lparr>f_Rejected := f_Rejected f + 1\<rparr> else f;
          f = if HasStage r StageWithdrawn then f\<lparr>f_Withdrawn := f_Withdrawn f + 1\<rparr> else f
      in f)"

definition Funnel :: "Record list \<Rightarrow> FunnelCounts" where
  "Funnel records = foldl Funnel_step zeroFunnelCounts records"

text \<open>The number of records that ever reached a stage.\<close>

definition reached :: "FunnelStage \<Rightarrow> Record list \<Rightarrow> int" where
  "reached s records = int (length (filter (\<lambda>r. HasStage r s) records))"

lemma reached_simps [simp]:
  "reached s [] = 0"
  "reached s (r # rs) = (if HasStage r s then 1 else 0) + reached s rs"
  "reached s (xs @ ys) = reached s xs + reached s ys"
  by (simp_all add: reached_def)

lemma reached_bounds: "0 \<le> reached s rs \<and> reached s rs \<le> int (length rs)"
  by (simp add: reached_def)

lemma Funnel_counter:
  fixes f :: FunnelCounts
  shows
  "(if b then f\<lparr>f_Discovered := f_Discovered f + 1\<rparr> else f) = f\<lparr>f_Discovered := f_Discovered f + (if b then 1 else 0)\<rparr>"
  "(if b then f\<lparr>f_Qualified := f_Qualified f + 1\<rparr> else f) = f\<lparr>f_Qualified := f_Qualified f + (if b then 1 else 0)\<rparr>"
  "(if b then f\<lparr>f_Prepared := f_Prepared f + 1\<rparr> else f) = f\<lparr>f_Prepared := f_Prepared f + (if b then 1 else 0)\<rparr>"
  "(if b then f\<lparr>f_Submitted := f_Submitted f + 1\<rparr> else f) = f\<lparr>f_Submitted := f_Submitted f + (if b then 1 else 0)\<rparr>"
  "(if b then f\<lparr>f_Responded := f_Responded f + 1\<rparr> else f) = f\<lparr>f_Responded := f_Responded f + (if b then 1 else 0)\<rparr>"
  "(if b then f\<lparr>f_Interview := f_Interview f + 1\<rparr> else f) = f\<lparr>f_Interview := f_Interview f + (if b then 1 else 0)\<rparr>"
  "(if b then f\<lparr>f_Offer := f_Offer f + 1\<rparr> else f) = f\<lparr>f_Offer := f_Offer f + (if b then 1 else 0)\<rparr>"
  "(if b then f\<lparr>f_Rejected := f_Rejected f + 1\<rparr> else f) = f\<lparr>f_Rejected := f_Rejected f + (if b then 1 else 0)\<rparr>"
  "(if b then f\<lparr>f_Withdrawn := f_Withdrawn f + 1\<rparr> else f) = f\<lparr>f_Withdrawn := f_Withdrawn f + (if b then 1 else 0)\<rparr>"
  by simp_all

lemma Funnel_step_eq:
  "Funnel_step f r = \<lparr>f_Discovered = f_Discovered f + reached StageDiscovered [r],
     f_Qualified = f_Qualified f + reached StageQualified [r],
     f_Prepared = f_Prepared f + reached StagePrepared [r],
     f_Submitted = f_Submitted f + reached StageSubmitted [r],
     f_Responded = f_Responded f + reached StageResponded [r],
     f_Interview = f_Interview f + reached StageInterview [r],
     f_Offer = f_Offer f + reached StageOffer [r],
     f_Rejected = f_Rejected f + reached StageRejected [r],
     f_Withdrawn = f_Withdrawn f + reached StageWithdrawn [r]\<rparr>"
  unfolding Funnel_step_def Let_def Funnel_counter reached_simps by simp

lemma Funnel_eq:
  "Funnel rs = \<lparr>f_Discovered = reached StageDiscovered rs,
     f_Qualified = reached StageQualified rs, f_Prepared = reached StagePrepared rs,
     f_Submitted = reached StageSubmitted rs, f_Responded = reached StageResponded rs,
     f_Interview = reached StageInterview rs, f_Offer = reached StageOffer rs,
     f_Rejected = reached StageRejected rs, f_Withdrawn = reached StageWithdrawn rs\<rparr>"
proof (induction rs rule: rev_induct)
  case Nil
  show ?case by (simp add: Funnel_def zeroFunnelCounts_def)
next
  case (snoc r rs)
  have "Funnel (rs @ [r]) = Funnel_step (Funnel rs) r" by (simp add: Funnel_def)
  then show ?case by (simp add: snoc Funnel_step_eq)
qed

lemmas Funnel_fields = Funnel_eq [THEN arg_cong [where f = f_Submitted], simplified]
  Funnel_eq [THEN arg_cong [where f = f_Responded], simplified]
  Funnel_eq [THEN arg_cong [where f = f_Interview], simplified]
  Funnel_eq [THEN arg_cong [where f = f_Offer], simplified]

text \<open>The counter of a stage, in the order of the struct.\<close>

definition stage_counts :: "FunnelCounts \<Rightarrow> (FunnelStage \<times> int) list" where
  "stage_counts f = [(StageDiscovered, f_Discovered f), (StageQualified, f_Qualified f),
     (StagePrepared, f_Prepared f), (StageSubmitted, f_Submitted f),
     (StageResponded, f_Responded f), (StageInterview, f_Interview f), (StageOffer, f_Offer f),
     (StageRejected, f_Rejected f), (StageWithdrawn, f_Withdrawn f)]"

lemma stage_counts_Funnel:
  "(s, n) \<in> set (stage_counts (Funnel rs)) \<Longrightarrow> n = reached s rs"
  by (auto simp: stage_counts_def Funnel_eq)

text \<open>
  Recording one more stage event moves the funnel in exactly one place: if the record
  had not reached the stage, the counter of that stage goes up by one and no other counter
  changes; if it had, the funnel is unchanged (a stage is counted once per record).
\<close>

theorem Funnel_AppendStage:
  "stage_counts (Funnel (xs @ AppendStage r s ts # ys)) =
     map (\<lambda>(t, n). (t, if t = s \<and> \<not> HasStage r s then n + 1 else n))
       (stage_counts (Funnel (xs @ r # ys)))"
  by (cases s) (auto simp: stage_counts_def Funnel_eq HasStage_AppendStage)

section \<open>Rates\<close>

record Rate =
  rt_Numerator :: int
  rt_Denominator :: int
  rt_Value :: rat

definition computeRate :: "int \<Rightarrow> int \<Rightarrow> Rate" where
  "computeRate numerator denominator =
     (if denominator = 0
      then \<lparr>rt_Numerator = numerator, rt_Denominator = 0, rt_Value = 0\<rparr>
      else \<lparr>rt_Numerator = numerator, rt_Denominator = denominator,
            rt_Value = to_float64 (to_float64 (of_int numerator) / to_float64 (of_int denominator))\<rparr>)"

definition ResponseRate :: "Record list \<Rightarrow> Rate" where
  "ResponseRate records = (let f = Funnel records in computeRate (f_Responded f) (f_Submitted f))"

definition InterviewRate :: "Record list \<Rightarrow> Rate" where
  "InterviewRate records = (let f = Funnel records in computeRate (f_Interview f) (f_Submitted f))"

text \<open>The mathematical ratio that a rate approximates.\<close>

definition exact_rate :: "int \<Rightarrow> int \<Rightarrow> rat" where
  "exact_rate n d = (if d = 0 then 0 else of_int n / of_int d)"

lemma computeRate_value:
  assumes "0 \<le> n" "n < 2 ^ 53" "0 \<le> d" "d < 2 ^ 53"
  shows "rt_Value (computeRate n d) = float64 (exact_rate n d)"
  using assms by (simp add: computeRate_def exact_rate_def to_float64_nonneg float64_int)

lemma computeRate_counts [simp]:
  "rt_Numerator (computeRate n d) = n" "rt_Denominator (computeRate n d) = d"
  by (simp_all add: computeRate_def)

lemma reached_small:
  "int (length rs) < 2 ^ 53 \<Longrightarrow> 0 \<le> reached s rs \<and> reached s rs < 2 ^ 53"
  using reached_bounds [of s rs] by linarith

lemma rate_value:
  "int (length rs) < 2 ^ 53 \<Longrightarrow>
   rt_Value (computeRate (reached s rs) (reached t rs)) = float64 (exact_rate (reached s rs) (reached t rs))"
  using reached_small [of rs] by (intro computeRate_value) auto

text \<open>
  The response rate of at most \<open>2^53\<close> records is the number of records that ever
  got a response over the number ever submitted, correctly rounded to a double, and zero
  (never a NaN or an infinity) when nothing was submitted.  It lies between 0 and 1 when
  every record with a response was also recorded as submitted; the same holds of the
  interview rate.
\<close>

theorem rates_correct:
  assumes "int (length rs) < 2 ^ 53"
  shows "ResponseRate rs =
      \<lparr>rt_Numerator = reached StageResponded rs, rt_Denominator = reached StageSubmitted rs,
       rt_Value = float64 (exact_rate (reached StageResponded rs) (reached StageSubmitted rs))\<rparr> \<and>
    InterviewRate rs =
      \<lparr>rt_Numerator = reached StageInterview rs, rt_Denominator = reached StageSubmitted rs,
       rt_Value = float64 (exact_rate (reached StageInterview rs) (reached StageSubmitted rs))\<rparr> \<and>
    ((\<forall>r \<in> set rs. HasStage r StageResponded \<longrightarrow> HasStage r StageSubmitted) \<longrightarrow>
      0 \<le> rt_Value (ResponseRate rs) \<and> rt_Value (ResponseRate rs) \<le> 1)"
proof (intro conjI impI)
  show R: "ResponseRate rs =
      \<lparr>rt_Numerator = reached StageResponded rs, rt_Denominator = reached StageSubmitted rs,
       rt_Value = float64 (exact_rate (reached StageResponded rs) (reached StageSubmitted rs))\<rparr>"
    using rate_value [OF assms] by (simp add: ResponseRate_def Funnel_eq Rate.equality)
  show "InterviewRate rs =
      \<lparr>rt_Numerator = reached StageInterview rs, rt_Denominator = reached StageSubmitted rs,
       rt_Value = float64 (exact_rate (reached StageInterview rs) (reached StageSubmitted rs))\<rparr>"
    using rate_value [OF assms] by (simp add: InterviewRate_def Funnel_eq Rate.equality)
  show "0 \<le> rt_Value (ResponseRate rs)" by (simp add: R float64_nonneg)
  assume "\<forall>r \<in> set rs. HasStage r StageResponded \<longrightarrow> HasStage r StageSubmitted"
  then have "reached StageResponded rs \<le> reached StageSubmitted rs"
    by (induction rs) auto
  with reached_bounds [of StageResponded rs]
  have "exact_rate (reached StageResponded rs) (reached StageSubmitted rs) \<le> 1"
    by (auto simp: exact_rate_def)
  from float64_mono [OF this] float64_int [of 1]
  show "rt_Value (ResponseRate rs) \<le> 1" by (simp add: R)
qed

text \<open>A history that skips \<open>submitted\<close>, which no operation of the package rules out.\<close>

definition skipping_record :: Record where
  "skipping_record = AppendStage zeroRecord StageInterview zeroTime"

definition full_record :: Record where
  "full_record = AppendStage (AppendStage zeroRecord StageSubmitted zeroTime) StageInterview zeroTime"

lemma example_stages:
  "HasStage skipping_record s \<longleftrightarrow> s = StageInterview"
  "HasStage full_record s \<longleftrightarrow> s = StageSubmitted \<or> s = StageInterview"
  by (auto simp: skipping_record_def full_record_def HasStage_AppendStage)
    (simp_all add: HasStage_iff zeroRecord_def)

text \<open>
  The funnel is not cumulative by construction: a record whose history has an
  interview but no submission counts at Interview only, its interview rate has the
  denominator 0, and together with one complete history the rate is 2.
\<close>

theorem Funnel_not_cumulative:
  "f_Interview (Funnel [skipping_record]) = 1 \<and> f_Submitted (Funnel [skipping_record]) = 0 \<and>
   InterviewRate [skipping_record] = \<lparr>rt_Numerator = 1, rt_Denominator = 0, rt_Value = 0\<rparr> \<and>
   InterviewRate [skipping_record, full_record] =
     \<lparr>rt_Numerator = 2, rt_Denominator = 1, rt_Value = 2\<rparr>"
  using float64_int [of 1] float64_int [of 2]
  by (simp add: Funnel_eq InterviewRate_def example_stages computeRate_def to_float64_nonneg)

section \<open>Grouping\<close>

text \<open>\<open>groups[k] = append(groups[k], r)\<close> for every record, on a nil-valued Go map.\<close>

definition group_step :: "(Record \<Rightarrow> 'k) \<Rightarrow> ('k \<Rightarrow> Record list option) \<Rightarrow> Record \<Rightarrow> ('k \<Rightarrow> Record list option)" where
  "group_step key groups r =
     (let k = key r in groups(k \<mapsto> (case groups k of None \<Rightarrow> [] | Some g \<Rightarrow> g) @ [r]))"

definition group_records :: "(Record \<Rightarrow> 'k) \<Rightarrow> Record list \<Rightarrow> ('k \<Rightarrow> Record list option)" where
  "group_records key records = foldl (group_step key) Map.empty records"

text \<open>\<open>for k, group := range groups\<close>, with the keys in the order \<open>iter\<close>.\<close>

fun range_groups :: "('k \<Rightarrow> Record list option) \<Rightarrow> 'k list \<Rightarrow> ('k \<times> Record list) list" where
  "range_groups groups [] = []"
| "range_groups groups (k # ks) =
     (case groups k of None \<Rightarrow> range_groups groups ks
      | Some g \<Rightarrow> (k, g) # range_groups groups ks)"

text \<open>The insertion sort of \<open>sort.Slice\<close>: an element moves left past the greater ones.\<close>

fun insert_back :: "('a \<Rightarrow> 'a \<Rightarrow> bool) \<Rightarrow> 'a \<Rightarrow> 'a list \<Rightarrow> 'a list" where
  "insert_back lt x [] = [x]"
| "insert_back lt x (y # ys) = (if lt x y then y # insert_back lt x ys else x # y # ys)"

definition sort_Slice :: "('a \<Rightarrow> 'a \<Rightarrow> bool) \<Rightarrow> 'a list \<Rightarrow> 'a list" where
  "sort_Slice lt xs = rev (foldl (\<lambda>acc x. insert_back lt x acc) [] xs)"

lemma group_records_eq:
  "group_records key rs k =
     (if k \<in> key ` set rs then Some (filter (\<lambda>r. key r = k) rs) else None)"
proof (induction rs rule: rev_induct)
  case Nil
  show ?case by (simp add: group_records_def)
next
  case (snoc r rs)
  have "group_records key (rs @ [r]) = group_step key (group_records key rs) r"
    by (simp add: group_records_def)
  with snoc show ?case by (auto simp: group_step_def Let_def) (metis (mono_tags, lifting) filter_False image_eqI)
qed

lemma range_groups_eq:
  "set ks \<subseteq> dom groups \<Longrightarrow> range_groups groups ks = map (\<lambda>k. (k, the (groups k))) ks"
  by (induction ks) auto

text \<open>The contract of \<open>sort.Slice\<close> for a comparison by a key.\<close>

lemma insert_back_sorted:
  fixes key :: "'a \<Rightarrow> 'k :: linorder"
  assumes "\<And>x y. lt x y \<longleftrightarrow> key x < key y"
  shows "sorted_wrt (\<ge>) (map key ys) \<Longrightarrow> sorted_wrt (\<ge>) (map key (insert_back lt x ys))"
    and "mset (insert_back lt x ys) = add_mset x (mset ys)"
proof -
  show m: "mset (insert_back lt x ys) = add_mset x (mset ys)" for ys
    by (induction ys) auto
  have s: "set (insert_back lt x ys) = insert x (set ys)" for ys
    using arg_cong [OF m [of ys], of set_mset] by simp
  show "sorted_wrt (\<ge>) (map key ys) \<Longrightarrow> sorted_wrt (\<ge>) (map key (insert_back lt x ys))"
    by (induction ys) (auto simp: s assms)
qed

lemma sort_Slice_sorted:
  fixes key :: "'a \<Rightarrow> 'k :: linorder"
  assumes "\<And>x y. lt x y \<longleftrightarrow> key x < key y"
  shows "sorted (map key (sort_Slice lt xs)) \<and> mset (sort_Slice lt xs) = mset xs"
proof -
  let ?acc = "foldl (\<lambda>acc x. insert_back lt x acc) [] xs"
  have "sorted_wrt (\<ge>) (map key ?acc) \<and> mset ?acc = mset xs"
    by (induction xs rule: rev_induct) (simp_all add: insert_back_sorted [of lt key, OF assms])
  then show ?thesis by (simp add: sort_Slice_def rev_map [symmetric] sorted_wrt_rev)
qed

text \<open>
  The three groupings of \<open>analytics.go\<close> differ in the key and in the struct they fill.
  The locale is what they share; \<open>perf\<close> is the struct literal of the range loop.
\<close>

locale grouping =
  fixes key :: "Record \<Rightarrow> 'k :: linorder"
    and perf :: "'k \<Rightarrow> FunnelCounts \<Rightarrow> 'p"
    and pkey :: "'p \<Rightarrow> 'k"
    and lt :: "'p \<Rightarrow> 'p \<Rightarrow> bool"
    and by_key :: "'k list \<Rightarrow> Record list \<Rightarrow> 'p list"
  assumes pkey_perf: "pkey (perf k f) = k"
    and lt_iff: "lt p q \<longleftrightarrow> pkey p < pkey q"
    and by_key_eq: "by_key iter rs =
      sort_Slice lt (map (\<lambda>(k, g). perf k (Funnel g)) (range_groups (group_records key rs) iter))"
begin

definition reference :: "Record list \<Rightarrow> 'p list" where
  "reference rs = map (\<lambda>k. perf k (Funnel (filter (\<lambda>r. key r = k) rs)))
     (sorted_list_of_set (key ` set rs))"

lemma by_key_reference:
  assumes "distinct iter" and "set iter = key ` set rs"
  shows "by_key iter rs = reference rs"
proof -
  let ?p = "\<lambda>k. perf k (Funnel (filter (\<lambda>r. key r = k) rs))"
  have "range_groups (group_records key rs) iter = map (\<lambda>k. (k, filter (\<lambda>r. key r = k) rs)) iter"
    using assms(2) by (subst range_groups_eq) (auto simp: group_records_eq)
  then have eq: "by_key iter rs = sort_Slice lt (map ?p iter)"
    by (simp add: by_key_eq comp_def)
  let ?out = "by_key iter rs"
  have sorted: "sorted (map pkey ?out)" and ms: "mset ?out = mset (map ?p iter)"
    using sort_Slice_sorted [of lt pkey, OF lt_iff] by (simp_all add: eq)
  from arg_cong [OF ms, of "image_mset pkey"]
  have "mset (map pkey ?out) = mset iter" by (simp add: multiset.map_comp comp_def pkey_perf)
  with sorted assms have keys: "map pkey ?out = sorted_list_of_set (key ` set rs)"
    by (metis distinct_sorted_list_of_set finite_imageI finite_set mset_eq_imp_distinct_iff mset_eq_setD
        set_sorted_list_of_set sorted_distinct_set_unique sorted_sorted_list_of_set)
  have "x = ?p (pkey x)" if "x \<in> set ?out" for x
  proof -
    from that mset_eq_setD [OF ms] have "x \<in> ?p ` set iter" by simp
    then show ?thesis by (auto simp: pkey_perf)
  qed
  then have "?out = map ?p (map pkey ?out)" by (simp add: map_idI comp_def)
  then show ?thesis by (simp add: keys reference_def)
qed

text \<open>Every record is in exactly one group, so a counter of the groups adds up.\<close>

lemma reached_groups:
  assumes "finite K" and "key ` set rs \<subseteq> K"
  shows "(\<Sum>k\<in>K. reached s (filter (\<lambda>r. key r = k) rs)) = reached s rs"
  using assms(2)
proof (induction rs)
  case (Cons r rs)
  have "(\<Sum>k\<in>K. reached s (filter (\<lambda>r. key r = k) (r # rs))) =
    (\<Sum>k\<in>K. (if k = key r then if HasStage r s then 1 else 0 else 0)) +
    (\<Sum>k\<in>K. reached s (filter (\<lambda>r. key r = k) rs))"
    by (subst sum.distrib [symmetric]) (rule sum.cong, auto)
  with Cons assms(1) show ?case by simp
qed simp

lemma reference_total:
  assumes "\<And>k f. cnt (perf k f) = cnt' f" and "\<And>rs. cnt' (Funnel rs) = reached s rs"
  shows "sum_list (map cnt (reference rs)) = reached s rs"
proof -
  have "sum_list (map cnt (reference rs)) =
    (\<Sum>k\<in>key ` set rs. reached s (filter (\<lambda>r. key r = k) rs))"
    by (simp add: reference_def assms comp_def sum_list_distinct_conv_sum_set)
  then show ?thesis by (simp add: reached_groups)
qed

end

section \<open>The three groupings\<close>

record ResumeVersionPerformance =
  rvp_Variant :: string
  rvp_Version :: int
  rvp_Submitted :: int
  rvp_ResponseRate :: Rate
  rvp_InterviewRate :: Rate
  rvp_OfferCount :: int

record SourcePerformance =
  sp_Source :: string
  sp_Submitted :: int
  sp_ResponseRate :: Rate
  sp_InterviewRate :: Rate
  sp_OfferCount :: int

record RolePerformance =
  rp_Role :: string
  rp_Submitted :: int
  rp_ResponseRate :: Rate
  rp_InterviewRate :: Rate
  rp_OfferCount :: int

text \<open>The struct type \<open>key\<close> of \<open>ByResumeVersion\<close>, ordered by variant and then version.\<close>

datatype VersionKey = VersionKey (vk_variant: string) (vk_version: int)

instantiation VersionKey :: linorder
begin

definition less_VersionKey :: "VersionKey \<Rightarrow> VersionKey \<Rightarrow> bool" where
  "a < b \<longleftrightarrow> (if vk_variant a \<noteq> vk_variant b then vk_variant a < vk_variant b else vk_version a < vk_version b)"

definition less_eq_VersionKey :: "VersionKey \<Rightarrow> VersionKey \<Rightarrow> bool" where
  "a \<le> b \<longleftrightarrow> a = b \<or> a < (b :: VersionKey)"

instance
proof
  fix a b c :: VersionKey
  show "a < b \<longleftrightarrow> a \<le> b \<and> \<not> b \<le> a"
    by (auto simp: less_VersionKey_def less_eq_VersionKey_def split: if_splits)
  show "a \<le> a" by (simp add: less_eq_VersionKey_def)
  show "a \<le> b \<Longrightarrow> b \<le> c \<Longrightarrow> a \<le> c"
    by (auto simp: less_VersionKey_def less_eq_VersionKey_def split: if_splits)
  show "a \<le> b \<Longrightarrow> b \<le> a \<Longrightarrow> a = b"
    by (auto simp: less_VersionKey_def less_eq_VersionKey_def split: if_splits)
  show "a \<le> b \<or> b \<le> a"
    by (cases a; cases b) (auto simp: less_VersionKey_def less_eq_VersionKey_def)
qed

end

definition version_key :: "Record \<Rightarrow> VersionKey" where
  "version_key r = VersionKey (rec_ResumeVariant r) (rec_ResumeVersion r)"

definition version_performance :: "VersionKey \<Rightarrow> FunnelCounts \<Rightarrow> ResumeVersionPerformance" where
  "version_performance k f =
     \<lparr>rvp_Variant = vk_variant k, rvp_Version = vk_version k, rvp_Submitted = f_Submitted f,
      rvp_ResponseRate = computeRate (f_Responded f) (f_Submitted f),
      rvp_InterviewRate = computeRate (f_Interview f) (f_Submitted f),
      rvp_OfferCount = f_Offer f\<rparr>"

definition version_less :: "ResumeVersionPerformance \<Rightarrow> ResumeVersionPerformance \<Rightarrow> bool" where
  "version_less a b =
     (if rvp_Variant a \<noteq> rvp_Variant b then rvp_Variant a < rvp_Variant b
      else rvp_Version a < rvp_Version b)"

definition ByResumeVersion :: "VersionKey list \<Rightarrow> Record list \<Rightarrow> ResumeVersionPerformance list" where
  "ByResumeVersion iter records =
     sort_Slice version_less
       (map (\<lambda>(k, grp). version_performance k (Funnel grp))
         (range_groups (group_records version_key records) iter))"

definition source_performance :: "string \<Rightarrow> FunnelCounts \<Rightarrow> SourcePerformance" where
  "source_performance k f =
     \<lparr>sp_Source = k, sp_Submitted = f_Submitted f,
      sp_ResponseRate = computeRate (f_Responded f) (f_Submitted f),
      sp_InterviewRate = computeRate (f_Interview f) (f_Submitted f),
      sp_OfferCount = f_Offer f\<rparr>"

definition BySource :: "string list \<Rightarrow> Record list \<Rightarrow> SourcePerformance list" where
  "BySource iter records =
     sort_Slice (\<lambda>a b. sp_Source a < sp_Source b)
       (map (\<lambda>(k, grp). source_performance k (Funnel grp))
         (range_groups (group_records rec_Source records) iter))"

definition role_performance :: "string \<Rightarrow> FunnelCounts \<Rightarrow> RolePerformance" where
  "role_performance k f =
     \<lparr>rp_Role = k, rp_Submitted = f_Submitted f,
      rp_ResponseRate = computeRate (f_Responded f) (f_Submitted f),
      rp_InterviewRate = computeRate (f_Interview f) (f_Submitted f),
      rp_OfferCount = f_Offer f\<rparr>"

definition ByRole :: "string list \<Rightarrow> Record list \<Rightarrow> RolePerformance list" where
  "ByRole iter records =
     sort_Slice (\<lambda>a b. rp_Role a < rp_Role b)
       (map (\<lambda>(k, grp). role_performance k (Funnel grp))
         (range_groups (group_records rec_Role records) iter))"

interpretation versions: grouping version_key version_performance
    "\<lambda>p. VersionKey (rvp_Variant p) (rvp_Version p)" version_less ByResumeVersion
  by unfold_locales (auto simp: version_performance_def version_less_def less_VersionKey_def ByResumeVersion_def)

interpretation sources: grouping rec_Source source_performance sp_Source
    "\<lambda>a b. sp_Source a < sp_Source b" BySource
  by unfold_locales (auto simp: source_performance_def BySource_def)

interpretation roles: grouping rec_Role role_performance rp_Role
    "\<lambda>a b. rp_Role a < rp_Role b" ByRole
  by unfold_locales (auto simp: role_performance_def ByRole_def)

text \<open>
  C35. The performance of resume versions does not depend on the order in which Go ranges
  over the map of groups: for every order, the result is one entry per version that occurs,
  sorted by variant and then by version number, each filled from the funnel of exactly the
  records of that version.
\<close>

theorem ByResumeVersion_correct:
  assumes "distinct iter" and "set iter = version_key ` set rs"
  shows "ByResumeVersion iter rs =
     map (\<lambda>k. version_performance k (Funnel (filter (\<lambda>r. version_key r = k) rs)))
       (sorted_list_of_set (version_key ` set rs))"
  using versions.by_key_reference [OF assms] by (simp add: versions.reference_def)

text \<open>
  The groupings by version, source and role account for every record: whatever the
  order in which the maps are ranged over, the submitted and the offer counts of the
  groups add up to those of the funnel over all records.
\<close>

theorem groupings_account:
  assumes "distinct ivs" and "set ivs = version_key ` set rs"
    and "distinct iss" and "set iss = rec_Source ` set rs"
    and "distinct irs" and "set irs = rec_Role ` set rs"
  shows "sum_list (map rvp_Submitted (ByResumeVersion ivs rs)) = f_Submitted (Funnel rs) \<and>
    sum_list (map sp_Submitted (BySource iss rs)) = f_Submitted (Funnel rs) \<and>
    sum_list (map rp_Submitted (ByRole irs rs)) = f_Submitted (Funnel rs) \<and>
    sum_list (map rvp_OfferCount (ByResumeVersion ivs rs)) = f_Offer (Funnel rs) \<and>
    sum_list (map sp_OfferCount (BySource iss rs)) = f_Offer (Funnel rs) \<and>
    sum_list (map rp_OfferCount (ByRole irs rs)) = f_Offer (Funnel rs)"
  unfolding versions.by_key_reference [OF assms(1,2)] sources.by_key_reference [OF assms(3,4)]
    roles.by_key_reference [OF assms(5,6)] Funnel_fields
  by (intro conjI versions.reference_total [of _ f_Submitted] sources.reference_total [of _ f_Submitted]
      roles.reference_total [of _ f_Submitted] versions.reference_total [of _ f_Offer]
      sources.reference_total [of _ f_Offer] roles.reference_total [of _ f_Offer])
    (simp_all add: version_performance_def source_performance_def role_performance_def Funnel_fields)

text \<open>Two outcome records of different versions, for the witnesses.\<close>

definition record_a :: Record where
  "record_a = AppendStage (zeroRecord\<lparr>rec_ResumeVariant := ''a'', rec_ResumeVersion := 2\<rparr>) StageSubmitted zeroTime"

definition record_b :: Record where
  "record_b = AppendStage (AppendStage
     (zeroRecord\<lparr>rec_ResumeVariant := ''b'', rec_ResumeVersion := 1, rec_Source := ''x'',
        rec_JobScore := 95\<rparr>) StageSubmitted zeroTime) StageResponded zeroTime"

lemma example_records [simp]:
  "version_key record_a = VersionKey ''a'' 2" "version_key record_b = VersionKey ''b'' 1"
  "rec_Source record_a = []" "rec_Source record_b = ''x''"
  "rec_Role record_a = []" "rec_Role record_b = []"
  "rec_JobScore record_a = 0" "rec_JobScore record_b = 95"
  "HasStage record_a s \<longleftrightarrow> s = StageSubmitted"
  "HasStage record_b s \<longleftrightarrow> s = StageSubmitted \<or> s = StageResponded"
  by (auto simp: record_a_def record_b_def version_key_def AppendStage_eq zeroRecord_def HasStage_iff)

lemma example_order [simp]:
  "sorted_list_of_set {VersionKey ''b'' 1, VersionKey ''a'' 2} = [VersionKey ''a'' 2, VersionKey ''b'' 1]"
proof -
  have lt: "VersionKey ''a'' 2 < VersionKey ''b'' 1"
    by (simp add: less_VersionKey_def)
  then have "sorted [VersionKey ''a'' 2, VersionKey ''b'' 1]" by simp
  moreover have "set [VersionKey ''a'' 2, VersionKey ''b'' 1] = {VersionKey ''b'' 1, VersionKey ''a'' 2}" by auto
  ultimately show ?thesis by (metis distinct_length_2_or_more distinct_singleton lt less_irrefl
    sorted_list_of_set.idem_if_sorted_distinct)
qed

theorem rates_correct_witness:
  "ResponseRate [record_b, record_b] = \<lparr>rt_Numerator = 2, rt_Denominator = 2, rt_Value = 1\<rparr>"
  using rates_correct [of "[record_b, record_b]"] float64_int [of 1] by (simp add: exact_rate_def)

theorem ByResumeVersion_correct_witness:
  "map (\<lambda>p. (rvp_Variant p, rvp_Submitted p)) (ByResumeVersion [VersionKey ''b'' 1, VersionKey ''a'' 2] [record_b, record_a, record_b]) =
     [(''a'', 1), (''b'', 2)]"
  by (subst ByResumeVersion_correct) (auto simp: version_performance_def Funnel_eq insert_commute)

theorem groupings_account_witness:
  "sum_list (map rvp_Submitted (ByResumeVersion [VersionKey ''b'' 1, VersionKey ''a'' 2] [record_b, record_a])) = 2 \<and>
   sum_list (map sp_Submitted (BySource [[], ''x''] [record_b, record_a])) = 2"
  using groupings_account [of "[VersionKey ''b'' 1, VersionKey ''a'' 2]" "[record_b, record_a]" "[[], ''x'']" "[[]]"]
  by (simp add: Funnel_eq insert_commute)

section \<open>Recommendations\<close>

record OutcomeRecommendation =
  rcm_Subject :: string
  rcm_Finding :: string
  rcm_Suggestion :: string
  rcm_SupportingRate :: Rate

definition low_response_recommendation :: "ResumeVersionPerformance \<Rightarrow> OutcomeRecommendation" where
  "low_response_recommendation v =
     \<lparr>rcm_Subject = ''resume:'' @ rvp_Variant v @ '':v'' @ strconv_Itoa (rvp_Version v),
      rcm_Finding = ''response rate below overall average'',
      rcm_Suggestion = ''review this resume version's content for this role/variant before continuing to use it as-is'',
      rcm_SupportingRate = rvp_ResponseRate v\<rparr>"

fun Recommend_loop :: "Rate \<Rightarrow> int \<Rightarrow> ResumeVersionPerformance list \<Rightarrow> OutcomeRecommendation list \<Rightarrow> OutcomeRecommendation list" where
  "Recommend_loop overall minSubmissions [] out = out"
| "Recommend_loop overall minSubmissions (v # vs) out =
     (if rvp_Submitted v < minSubmissions then Recommend_loop overall minSubmissions vs out
      else if rt_Value (rvp_ResponseRate v) < rt_Value overall
      then Recommend_loop overall minSubmissions vs (out @ [low_response_recommendation v])
      else Recommend_loop overall minSubmissions vs out)"

definition RecommendLowPerformingResumeVersions ::
    "VersionKey list \<Rightarrow> Record list \<Rightarrow> int \<Rightarrow> OutcomeRecommendation list" where
  "RecommendLowPerformingResumeVersions iter records minSubmissions =
     (let overall = ResponseRate records;
          perVersion = ByResumeVersion iter records
      in Recommend_loop overall minSubmissions perVersion [])"

lemma Recommend_loop_eq:
  "Recommend_loop overall m vs out = out @ map low_response_recommendation
     (filter (\<lambda>v. m \<le> rvp_Submitted v \<and> rt_Value (rvp_ResponseRate v) < rt_Value overall) vs)"
  by (induction vs arbitrary: out) auto

text \<open>Rates of at most \<open>2^17\<close> records are far enough apart for doubles to tell them apart.\<close>

lemma exact_rate_frac:
  assumes "0 \<le> n" "n \<le> 2 ^ 17" "0 \<le> d" "d \<le> 2 ^ 17"
  obtains p q where "exact_rate n d = of_int p / of_int q" "0 \<le> p" "p \<le> 2 ^ 17" "1 \<le> q" "q \<le> 2 ^ 17"
proof (cases "d = 0")
  case True
  show ?thesis by (rule that [of 0 1]) (simp_all add: exact_rate_def True)
next
  case False
  show ?thesis by (rule that [of n d]) (use assms False in \<open>simp_all add: exact_rate_def\<close>)
qed

lemma float64_less_iff:
  fixes a b c d :: int
  assumes a: "0 \<le> a" "a \<le> 2 ^ 17" and b: "1 \<le> b" "b \<le> 2 ^ 17"
    and c: "0 \<le> c" "c \<le> 2 ^ 17" and d: "1 \<le> d" "d \<le> 2 ^ 17"
  defines "x \<equiv> of_int a / of_int b" and "y \<equiv> of_int c / of_int d"
  shows "float64 x < float64 y \<longleftrightarrow> x < y"
proof
  show "float64 x < float64 y \<Longrightarrow> x < y" using float64_mono [of y x] by linarith
  assume lt: "x < y"
  have bd: "(1 :: rat) \<le> of_int b" "(1 :: rat) \<le> of_int d" using b d by simp_all
  have "of_int a * (of_int d :: rat) < of_int c * of_int b"
    using lt bd by (simp add: x_def y_def field_simps)
  then have "a * d + 1 \<le> c * b" by (metis of_int_less_iff of_int_mult zless_imp_add1_zle)
  then have "rat_of_int 1 \<le> of_int (c * b - a * d)" by (simp only: of_int_le_iff)
  then have num: "(1 :: rat) \<le> of_int (c * b - a * d)" by (simp only: of_int_1)
  have "b * d \<le> 2 ^ 17 * 2 ^ 17" using b d by (intro mult_mono) auto
  then have "rat_of_int (b * d) \<le> rat_of_int (2 ^ 17 * 2 ^ 17)" by (simp only: of_int_le_iff)
  then have den: "of_int (b * d) \<le> (2 :: rat) ^ 34" by simp
  have "y - x = of_int (c * b - a * d) / of_int (b * d)"
    using bd by (simp add: x_def y_def field_simps)
  also have "\<dots> \<ge> 1 / 2 ^ 34"
    using num den bd by (intro frac_le) (auto simp: mult_pos_pos)
  finally have gap: "1 / 2 ^ 34 \<le> y - x" .
  have "rat_of_int a \<le> rat_of_int (2 ^ 17)" "rat_of_int c \<le> rat_of_int (2 ^ 17)"
    using a c by (simp_all only: of_int_le_iff)
  then have "x \<le> 2 ^ 17 / 1" "y \<le> 2 ^ 17 / 1"
    unfolding x_def y_def using a c bd by (intro frac_le; simp)+
  moreover have "0 \<le> x" "0 \<le> y" using a b c d by (simp_all add: x_def y_def)
  ultimately have err: "\<bar>float64 x - x\<bar> \<le> 1 / 2 ^ 36" "\<bar>float64 y - y\<bar> \<le> 1 / 2 ^ 36"
    using float64_error [of x] float64_error [of y] by simp_all
  have "float64 x \<le> x + 1 / 2 ^ 36" "y - 1 / 2 ^ 36 \<le> float64 y"
    using err by (simp_all only: abs_le_iff) linarith+
  moreover have "(1 :: rat) / 2 ^ 36 + 1 / 2 ^ 36 < 1 / 2 ^ 34" by simp
  ultimately show "float64 x < float64 y" using gap by linarith
qed

lemma rate_less_iff:
  assumes "int (length rs) \<le> 2 ^ 17" and "int (length g) \<le> 2 ^ 17"
  shows "rt_Value (computeRate (reached s g) (reached t g)) < rt_Value (computeRate (reached s rs) (reached t rs)) \<longleftrightarrow>
    exact_rate (reached s g) (reached t g) < exact_rate (reached s rs) (reached t rs)"
proof -
  have b: "0 \<le> reached u g" "reached u g \<le> 2 ^ 17" "0 \<le> reached u rs" "reached u rs \<le> 2 ^ 17" for u
    using assms reached_bounds [of u g] reached_bounds [of u rs] by linarith+
  obtain p q where pq: "exact_rate (reached s g) (reached t g) = of_int p / of_int q"
    "0 \<le> p" "p \<le> 2 ^ 17" "1 \<le> q" "q \<le> 2 ^ 17"
    by (rule exact_rate_frac [of "reached s g" "reached t g"]) (use b in auto)
  obtain p' q' where pq': "exact_rate (reached s rs) (reached t rs) = of_int p' / of_int q'"
    "0 \<le> p'" "p' \<le> 2 ^ 17" "1 \<le> q'" "q' \<le> 2 ^ 17"
    by (rule exact_rate_frac [of "reached s rs" "reached t rs"]) (use b in auto)
  have "rt_Value (computeRate (reached s g) (reached t g)) = float64 (of_int p / of_int q)"
    "rt_Value (computeRate (reached s rs) (reached t rs)) = float64 (of_int p' / of_int q')"
    using assms by (simp_all add: rate_value pq(1) pq'(1))
  with float64_less_iff [OF pq(2-5) pq'(2-5)] show ?thesis by (simp add: pq(1) pq'(1))
qed

text \<open>
  C34. The recommendations are exact: for at most \<open>2^17\<close> records, and whatever the order of
  the map, a resume version is flagged if and only if it has at least the required number
  of submissions and its response rate, as an exact fraction, is strictly below the overall
  one.  No version is flagged, or spared, because of the rounding of a double.  The output
  is in the order of the versions.
\<close>

theorem Recommend_exact:
  assumes "distinct iter" and "set iter = version_key ` set rs" and "int (length rs) \<le> 2 ^ 17"
  shows "RecommendLowPerformingResumeVersions iter rs m =
     map (\<lambda>k. low_response_recommendation
          (version_performance k (Funnel (filter (\<lambda>r. version_key r = k) rs))))
       (filter (\<lambda>k. let g = filter (\<lambda>r. version_key r = k) rs in
           m \<le> reached StageSubmitted g \<and>
           exact_rate (reached StageResponded g) (reached StageSubmitted g) <
             exact_rate (reached StageResponded rs) (reached StageSubmitted rs))
         (sorted_list_of_set (version_key ` set rs)))"
proof -
  have "int (length (filter P rs)) \<le> 2 ^ 17" for P
    using length_filter_le [of P rs] assms(3) by linarith
  from rate_less_iff [OF assms(3) this] show ?thesis
    unfolding RecommendLowPerformingResumeVersions_def Let_def Recommend_loop_eq
      versions.by_key_reference [OF assms(1,2)] versions.reference_def filter_map map_map append_Nil
      comp_def ResponseRate_def
    by (simp add: version_performance_def Funnel_fields)
qed

lemma nat_Itoa_2: "nat_Itoa 2 = ''2''"
  by code_simp

theorem Recommend_exact_witness:
  "map rcm_Subject (RecommendLowPerformingResumeVersions [VersionKey ''b'' 1, VersionKey ''a'' 2] [record_b, record_a, record_b] 1) =
     [''resume:a:v2'']"
  by (subst Recommend_exact)
    (auto simp: nat_Itoa_2 exact_rate_def Let_def insert_commute low_response_recommendation_def
      version_performance_def strconv_Itoa_def)

section \<open>Score calibration\<close>

record ScoreBucket =
  sb_MinScore :: int
  sb_MaxScore :: int
  sb_Count :: int
  sb_ResponseRate :: Rate
  sb_InterviewRate :: Rate
  sb_OfferCount :: int

definition zeroRate :: Rate where
  "zeroRate = \<lparr>rt_Numerator = 0, rt_Denominator = 0, rt_Value = 0\<rparr>"

definition defaultScoreBuckets :: "ScoreBucket list" where
  "defaultScoreBuckets =
     (let buckets = map (\<lambda>i. \<lparr>sb_MinScore = int i * 10, sb_MaxScore = int i * 10 + 9, sb_Count = 0,
            sb_ResponseRate = zeroRate, sb_InterviewRate = zeroRate, sb_OfferCount = 0\<rparr>) [0..<10]
      in buckets[9 := (buckets ! 9)\<lparr>sb_MaxScore := 100\<rparr>])"

text \<open>The index of a record: Go's truncating division, then the two clamps.\<close>

definition bucket_index :: "Record \<Rightarrow> int" where
  "bucket_index r =
     (let idx = rec_JobScore r sdiv 10;
          idx = if idx > 9 then 9 else idx;
          idx = if idx < 0 then 0 else idx
      in idx)"

definition group_by_score :: "nat \<Rightarrow> Record list \<Rightarrow> Record list list" where
  "group_by_score n records =
     foldl (\<lambda>grouped r. grouped[nat (bucket_index r) := grouped ! nat (bucket_index r) @ [r]])
       (replicate n []) records"

definition fill_bucket :: "ScoreBucket \<Rightarrow> Record list \<Rightarrow> ScoreBucket" where
  "fill_bucket b grp =
     (let f = Funnel grp
      in b\<lparr>sb_Count := int (length grp),
           sb_ResponseRate := computeRate (f_Responded f) (f_Submitted f),
           sb_InterviewRate := computeRate (f_Interview f) (f_Submitted f),
           sb_OfferCount := f_Offer f\<rparr>)"

definition ScoreCalibration :: "Record list \<Rightarrow> ScoreBucket list" where
  "ScoreCalibration records =
     (let buckets = defaultScoreBuckets;
          grouped = group_by_score (length buckets) records
      in foldl (\<lambda>buckets i. buckets[i := fill_bucket (buckets ! i) (grouped ! i)]) buckets
           [0..<length grouped])"

lemma bucket_index_range: "0 \<le> bucket_index r \<and> bucket_index r \<le> 9"
  by (simp add: bucket_index_def Let_def)

lemma group_by_score_eq:
  assumes "10 \<le> n"
  shows "group_by_score n rs = map (\<lambda>i. filter (\<lambda>r. bucket_index r = int i) rs) [0..<n]"
proof (induction rs rule: rev_induct)
  case Nil
  show ?case by (simp add: group_by_score_def map_replicate_const)
next
  case (snoc r rs)
  let ?i = "nat (bucket_index r)"
  have i: "?i < n" "int ?i = bucket_index r" using assms bucket_index_range [of r] by auto
  have "group_by_score n (rs @ [r]) = (group_by_score n rs)[?i := group_by_score n rs ! ?i @ [r]]"
    by (simp add: group_by_score_def)
  also have "\<dots> = map (\<lambda>i. filter (\<lambda>r. bucket_index r = int i) (rs @ [r])) [0..<n]"
    unfolding snoc using i by (intro nth_equalityI) (auto simp: nth_list_update)
  finally show ?case .
qed

lemma foldl_update_all:
  "foldl (\<lambda>b i. b[i := f i (b ! i)]) bs [0..<n] =
     map (\<lambda>i. if i < n then f i (bs ! i) else bs ! i) [0..<length bs]"
proof (induction n)
  case 0
  show ?case by (simp add: map_nth)
next
  case (Suc n)
  then show ?case by (auto intro!: nth_equalityI simp: nth_list_update less_Suc_eq)
qed

text \<open>The scores of a bucket: the inclusive range of the struct, open at the two ends.\<close>

definition in_bucket :: "nat \<Rightarrow> int \<Rightarrow> bool" where
  "in_bucket i score \<longleftrightarrow>
     (i = 0 \<or> 10 * int i \<le> score) \<and> (i = 9 \<or> score \<le> 10 * int i + 9)"

lemma bucket_index_iff: "i < 10 \<Longrightarrow> bucket_index r = int i \<longleftrightarrow> in_bucket i (rec_JobScore r)"
  by (cases "0 \<le> rec_JobScore r")
    (auto simp: bucket_index_def in_bucket_def Let_def signed_divide_int_def sgn_if)

text \<open>
  Score calibration partitions the records into ten buckets.  Bucket \<open>i\<close> has the range
  \<open>10 i .. 10 i + 9\<close> (100 is in the last one), and is filled from exactly the records whose
  score is in it, a score below 0 falling into the first bucket and one above 100 into the
  last; the counts of the buckets add up to the number of records.  No score makes the
  index leave the slice.
\<close>

theorem ScoreCalibration_correct:
  "ScoreCalibration rs =
     map (\<lambda>i. fill_bucket
          \<lparr>sb_MinScore = 10 * int i, sb_MaxScore = (if i = 9 then 100 else 10 * int i + 9),
           sb_Count = 0, sb_ResponseRate = zeroRate, sb_InterviewRate = zeroRate, sb_OfferCount = 0\<rparr>
          (filter (\<lambda>r. in_bucket i (rec_JobScore r)) rs)) [0..<10] \<and>
   sum_list (map sb_Count (ScoreCalibration rs)) = int (length rs)"
proof -
  let ?b = "\<lambda>i. \<lparr>sb_MinScore = 10 * int i, sb_MaxScore = (if i = 9 then 100 else 10 * int i + 9),
    sb_Count = 0, sb_ResponseRate = zeroRate, sb_InterviewRate = zeroRate, sb_OfferCount = 0\<rparr>"
  have d: "defaultScoreBuckets = map ?b [0..<10]"
    by (intro nth_equalityI) (auto simp: defaultScoreBuckets_def Let_def nth_list_update)
  have "filter (\<lambda>r. bucket_index r = int i) rs = filter (\<lambda>r. in_bucket i (rec_JobScore r)) rs" if "i < 10" for i
    using bucket_index_iff [OF that] by simp
  then have eq: "ScoreCalibration rs =
      map (\<lambda>i. fill_bucket (?b i) (filter (\<lambda>r. in_bucket i (rec_JobScore r)) rs)) [0..<10]"
    unfolding ScoreCalibration_def Let_def d foldl_update_all [where f = "\<lambda>i b. fill_bucket b (_ i)"]
    by (simp add: foldl_update_all [where f = "\<lambda>i b. fill_bucket b (group_by_score 10 rs ! i)"] group_by_score_eq)
  have "sum_list (map sb_Count (ScoreCalibration rs)) =
      (\<Sum>i\<leftarrow>[0..<10]. int (length (filter (\<lambda>r. in_bucket i (rec_JobScore r)) rs)))"
    by (simp add: eq comp_def fill_bucket_def Let_def)
  also have "\<dots> = int (length rs)"
  proof (induction rs)
    case (Cons r rs)
    have "(\<Sum>i\<leftarrow>[0..<10]. if in_bucket i (rec_JobScore r) then 1 else 0 :: int) = 1"
      by (simp add: upt_rec in_bucket_def)
    moreover have "(\<Sum>i\<leftarrow>[0..<10]. int (length (filter (\<lambda>r. in_bucket i (rec_JobScore r)) (r # rs)))) =
        (\<Sum>i\<leftarrow>[0..<10]. if in_bucket i (rec_JobScore r) then 1 else 0) +
        (\<Sum>i\<leftarrow>[0..<10]. int (length (filter (\<lambda>r. in_bucket i (rec_JobScore r)) rs)))"
      by (subst sum_list_addf [symmetric]) (rule arg_cong [where f = sum_list], auto)
    ultimately show ?case using Cons by simp
  qed simp
  finally show ?thesis using eq by blast
qed

end
