(* ===== verification/HttpServer.thy ===== *)
theory HttpServer
  imports Config
begin

text \<open>
  \<open>internal/httpserver/server.go\<close>: the health endpoint.  A response writer is modelled with
  the rule of \<open>net/http\<close> that makes the order of the calls matter: \<open>WriteHeader\<close> sends the
  headers as they are at that moment, and only once; what is set later is not sent.  The
  dispatch of requests to the registered patterns is the library's.
\<close>

section \<open>A response writer\<close>

type_synonym http_header = "string \<rightharpoonup> string list"

record http_world =
  hw_header :: http_header
  hw_sent :: "(int \<times> http_header) option"
  hw_body :: string
  hw_writeErr :: error
  hw_log :: "log_record list"

definition Header_Set :: "string \<Rightarrow> string \<Rightarrow> (http_world, unit) state" where
  "Header_Set key v = State (\<lambda>w. ((), w\<lparr>hw_header := (hw_header w)(key \<mapsto> [v])\<rparr>))"

definition WriteHeader :: "int \<Rightarrow> (http_world, unit) state" where
  "WriteHeader code = State (\<lambda>w.
     ((), if hw_sent w = None then w\<lparr>hw_sent := Some (code, hw_header w)\<rparr> else w))"

definition StatusOK :: int where "StatusOK = 200"

text \<open>Writing a body sends the headers with the status 200 when they were not sent yet.\<close>

definition Write :: "string \<Rightarrow> (http_world, error) state" where
  "Write p = do {
     _ \<leftarrow> WriteHeader StatusOK;
     State (\<lambda>w. (hw_writeErr w, if hw_writeErr w = None then w\<lparr>hw_body := hw_body w @ p\<rparr> else w))
   }"

section \<open>The server\<close>

record healthResponse =
  health_Status :: string

text \<open>
  \<open>encoding/json\<close> on the struct.  The one value ever encoded is \<open>ok\<close>, so the escapes of
  the library are left out: they concern characters that it does not have.
\<close>

definition json_string :: "string \<Rightarrow> string" where
  "json_string s = CHR 0x22 # s @ [CHR 0x22]"

definition json_health :: "healthResponse \<Rightarrow> string" where
  "json_health r = ''{'' @ json_string ''status'' @ '':'' @ json_string (health_Status r) @ ''}''"

definition write_log :: "log_record \<Rightarrow> (http_world, unit) state" where
  "write_log r = State (\<lambda>w. ((), w\<lparr>hw_log := hw_log w @ [r]\<rparr>))"

type_synonym http_handler = "(http_world, unit) state"

record Server =
  srv_logger :: Logger
  srv_mux :: "(string \<times> http_handler) list"

definition handleHealthz :: "Server \<Rightarrow> http_handler" where
  "handleHealthz s = do {
     _ \<leftarrow> Header_Set ''Content-Type'' ''application/json'';
     _ \<leftarrow> WriteHeader StatusOK;
     err \<leftarrow> Write (json_health \<lparr>health_Status = ''ok''\<rparr> @ [CHR 0x0A]);
     case err of
       Some e \<Rightarrow> slog_Log write_log (srv_logger s) LevelError ''failed to encode health response''
         [(''error'', Error_msg e)]
     | None \<Rightarrow> ret ()
   }"

definition routes :: "Server \<Rightarrow> Server" where
  "routes s = s\<lparr>srv_mux := srv_mux s @ [(''GET /healthz'', handleHealthz s)]\<rparr>"

definition server_New :: "Logger \<Rightarrow> Server" where
  "server_New logger = routes \<lparr>srv_logger = logger, srv_mux = []\<rparr>"

definition server_Handler :: "Server \<Rightarrow> (string \<times> http_handler) list" where
  "server_Handler s = srv_mux s"

subsection \<open>Properties\<close>

lemma json_health_ok: "json_health \<lparr>health_Status = ''ok''\<rparr>
    = [CHR ''{'', CHR 0x22] @ ''status'' @ [CHR 0x22, CHR '':'', CHR 0x22] @ ''ok'' @ [CHR 0x22, CHR ''}'']"
  by (simp add: json_health_def json_string_def)

text \<open>
  The health endpoint is the only route.  On a fresh response it answers 200 with the
  JSON content type, whether or not the body can be written: the headers are complete before
  the status line is sent.  The body is the JSON object with the status \<open>ok\<close> and a line end;
  if it cannot be written, the error is logged, whatever the level of the logger, and a response that has
  already been started keeps its status and headers.
\<close>

theorem handleHealthz_correct:
  "map fst (server_Handler (server_New logger)) = [''GET /healthz'']
   \<and> run_state (snd (hd (server_Handler (server_New logger)))) w = ((),
      w\<lparr>hw_header := (hw_header w)(''Content-Type'' \<mapsto> [''application/json'']),
        hw_sent := (case hw_sent w of
            None \<Rightarrow> Some (200, (hw_header w)(''Content-Type'' \<mapsto> [''application/json'']))
          | Some sent \<Rightarrow> Some sent),
        hw_body := (case hw_writeErr w of
            None \<Rightarrow> hw_body w @ [CHR ''{'', CHR 0x22] @ ''status'' @ [CHR 0x22, CHR '':'', CHR 0x22] @ ''ok''
              @ [CHR 0x22, CHR ''}'', CHR 0x0A]
          | Some _ \<Rightarrow> hw_body w),
        hw_log := (case hw_writeErr w of
            None \<Rightarrow> hw_log w
          | Some e \<Rightarrow> hw_log w @ [(LevelError, ''failed to encode health response'', [(''error'', Error_msg e)])])\<rparr>)"
  by (cases "hw_writeErr w"; cases "hw_sent w")
     (simp_all add: server_Handler_def server_New_def routes_def handleHealthz_def json_health_ok Header_Set_def
        WriteHeader_def Write_def StatusOK_def write_log_def)

end
