(* ===== verification/App.thy ===== *)
theory App
  imports HttpServer
begin

text \<open>
  The wiring of the service: \<open>internal/storage/postgres/postgres.go\<close>,
  \<open>internal/app/app.go\<close> and \<open>cmd/api/main.go\<close>.  The SQL driver and the HTTP server
  are arguments: what they do is a step on a world the caller chooses.  The goroutine and
  the \<open>select\<close> of \<open>run\<close> are one argument as well, the event that \<open>select\<close> receives: the
  context is done, or the serving goroutine sent an error.  The standard output, where the
  logger of the application writes, is the argument \<open>out\<close>.
\<close>

section \<open>The connection pool\<close>

record ('w, 'c) sqlpkg =
  sql_Open :: "string \<Rightarrow> ('w, goerror + 'c) state"
  sql_Ping :: "'c \<Rightarrow> ('w, error) state"
  sql_Close :: "'c \<Rightarrow> ('w, error) state"

record 'c DB =
  db_conn :: 'c

definition postgres_Open :: "('w, 'c) sqlpkg \<Rightarrow> string \<Rightarrow> ('w, goerror + 'c DB) state" where
  "postgres_Open sql dsn =
     (if dsn = [] then ret (Inl (ErrorString ''postgres: dsn must not be empty''))
      else State_Monad.bind (sql_Open sql dsn) (\<lambda>r.
        case r of
          Inl err \<Rightarrow> ret (Inl (WrapError ''postgres: open: '' err))
        | Inr conn \<Rightarrow> State_Monad.bind (sql_Ping sql conn) (\<lambda>err.
            case err of
              Some err \<Rightarrow> State_Monad.bind (sql_Close sql conn) (\<lambda>_.
                ret (Inl (WrapError ''postgres: ping: '' err)))
            | None \<Rightarrow> ret (Inr \<lparr>db_conn = conn\<rparr>))))"

definition postgres_Close :: "('w, 'c) sqlpkg \<Rightarrow> 'c DB \<Rightarrow> ('w, error) state" where
  "postgres_Close sql d = sql_Close sql (db_conn d)"

definition postgres_Ping :: "('w, 'c) sqlpkg \<Rightarrow> 'c DB \<Rightarrow> ('w, error) state" where
  "postgres_Ping sql d = sql_Ping sql (db_conn d)"

definition postgres_Conn :: "'c DB \<Rightarrow> 'c" where
  "postgres_Conn d = db_conn d"

section \<open>The application\<close>

record http_Server =
  Addr :: string
  Handler :: "(string \<times> http_handler) list"

record 'c App =
  app_Config :: Config
  app_Logger :: Logger
  app_DB :: "'c DB option"
  app_Server :: http_Server

definition app_New :: "golib \<Rightarrow> ('w, 'c) sqlpkg \<Rightarrow> Config \<Rightarrow> ('w, goerror + 'c App) state" where
  "app_New lib sql cfg = (
     let logger = logging_New lib (cfg_LogLevel cfg)
     in State_Monad.bind
       (if cfg_DatabaseURL cfg \<noteq> []
        then State_Monad.bind (postgres_Open sql (cfg_DatabaseURL cfg)) (\<lambda>r.
          ret (case r of
                 Inl err \<Rightarrow> Inl (WrapError ''app: connect to postgres: '' err)
               | Inr db \<Rightarrow> Inr (Some db)))
        else ret (Inr None))
       (\<lambda>r. ret (case r of
             Inl err \<Rightarrow> Inl err
           | Inr db \<Rightarrow> Inr \<lparr>app_Config = cfg, app_Logger = logger, app_DB = db,
               app_Server = \<lparr>Addr = cfg_HTTPAddr cfg, Handler = server_Handler (server_New logger)\<rparr>\<rparr>)))"

definition app_Close :: "('w, 'c) sqlpkg \<Rightarrow> 'c App \<Rightarrow> ('w, error) state" where
  "app_Close sql a =
     (case app_DB a of Some db \<Rightarrow> postgres_Close sql db | None \<Rightarrow> ret None)"

datatype run_event = CtxDone | ErrCh goerror

text \<open>\<open>shutdown d\<close> is \<open>Server.Shutdown\<close> under a context that ends after \<open>d\<close> nanoseconds.\<close>

definition shutdownTimeout :: int where
  "shutdownTimeout = 10 * 1000000000"

definition run_api :: "golib \<Rightarrow> ('w, 'c) sqlpkg \<Rightarrow> (log_record \<Rightarrow> ('w, unit) state) \<Rightarrow> (int \<Rightarrow> ('w, error) state)
    \<Rightarrow> env \<Rightarrow> run_event \<Rightarrow> ('w, error) state" where
  "run_api lib sql out shutdown env event =
     (case Load env of
        Inl err \<Rightarrow> ret (Some err)
      | Inr cfg \<Rightarrow> State_Monad.bind (app_New lib sql cfg) (\<lambda>r.
          case r of
            Inl err \<Rightarrow> ret (Some err)
          | Inr application \<Rightarrow>
              do {
                _ \<leftarrow> slog_Log out (app_Logger application) LevelInfo ''starting careerpilot api''
                  [(''addr'', cfg_HTTPAddr cfg), (''env'', cfg_Env cfg)];
                err \<leftarrow> (case event of
                    CtxDone \<Rightarrow> do {
                      _ \<leftarrow> slog_Log out (app_Logger application) LevelInfo ''shutdown signal received'' [];
                      shutdown shutdownTimeout
                    }
                  | ErrCh err \<Rightarrow> ret (Some err));
                _ \<leftarrow> app_Close sql application;
                ret err
              }))"

text \<open>The exit status of the process.\<close>

definition main_exit :: "error \<Rightarrow> int" where
  "main_exit err = (case err of Some _ \<Rightarrow> 1 | None \<Rightarrow> 0)"

section \<open>Every connection pool is closed\<close>

text \<open>A log of the pools that were opened and closed, kept beside the world of any driver.\<close>

datatype 'c pool_event = Opened 'c | Closed 'c

definition logged_Open :: "('w, 'c) sqlpkg \<Rightarrow> string \<Rightarrow> ('w \<times> 'c pool_event list, goerror + 'c) state" where
  "logged_Open sql dsn = State (\<lambda>(w, log).
     case run_state (sql_Open sql dsn) w of
       (Inl err, w') \<Rightarrow> (Inl err, (w', log))
     | (Inr c, w') \<Rightarrow> (Inr c, (w', log @ [Opened c])))"

definition logged_Close :: "('w, 'c) sqlpkg \<Rightarrow> 'c \<Rightarrow> ('w \<times> 'c pool_event list, error) state" where
  "logged_Close sql c = State (\<lambda>(w, log).
     case run_state (sql_Close sql c) w of (err, w') \<Rightarrow> (err, (w', log @ [Closed c])))"

definition logged :: "('w, 'c) sqlpkg \<Rightarrow> ('w \<times> 'c pool_event list, 'c) sqlpkg" where
  "logged sql = \<lparr>sql_Open = logged_Open sql, sql_Ping = (\<lambda>c. on_fst (sql_Ping sql c)),
     sql_Close = logged_Close sql\<rparr>"

lemmas logged_defs = logged_def logged_Open_def logged_Close_def

lemma slog_on_fst: "slog_Log (on_fst \<circ> out) logger level msg attrs = on_fst (slog_Log out logger level msg attrs)"
  by (auto simp: slog_Log_def on_fst_def State_Monad.return_def fun_eq_iff)

lemma logged_app_New:
  assumes "run_state (app_New lib (logged sql) cfg) (w, log) = (r, (w', log'))"
  shows "(case r of
            Inl _ \<Rightarrow> log' = log \<or> (\<exists>c. log' = log @ [Opened c, Closed c])
          | Inr a \<Rightarrow> log' = log @ (case app_DB a of None \<Rightarrow> [] | Some db \<Rightarrow> [Opened (db_conn db)])) \<and>
         (cfg_DatabaseURL cfg = [] \<longrightarrow> log' = log \<and> w' = w)"
  using assms
  by (auto simp: app_New_def postgres_Open_def logged_defs Let_def split: if_splits sum.splits option.splits prod.splits)

text \<open>
  C38. No connection pool leaks: whatever the SQL driver answers and however the service
  ends (a bad configuration, a failed ping, a failing server, a shutdown), the pools
  \<open>run\<close> has opened are exactly those it has closed, at most one and in this order; without
  a database URL it never touches the driver.
\<close>

theorem run_closes_pool:
  assumes "run_state (run_api lib (logged sql) (on_fst \<circ> out) (on_fst \<circ> shutdown) env event) (w, []) = (err, (w', log))"
  shows "(log = [] \<or> (\<exists>c. log = [Opened c, Closed c])) \<and>
    (getEnv env ''CAREERPILOT_DATABASE_URL'' [] = [] \<longrightarrow> log = [])"
proof (cases "Load env")
  case (Inl e)
  with assms show ?thesis by (simp add: run_api_def)
next
  case (Inr cfg)
  then have url: "cfg_DatabaseURL cfg = getEnv env ''CAREERPILOT_DATABASE_URL'' []"
    by (auto simp: Load_def Let_def split: sum.splits if_splits)
  obtain r w1 log1 where n: "run_state (app_New lib (logged sql) cfg) (w, []) = (r, (w1, log1))"
    by (metis prod_cases3)
  from logged_app_New [OF n] assms Inr n url show ?thesis
    by (auto simp: run_api_def app_Close_def postgres_Close_def logged_defs slog_on_fst
        split: sum.splits option.splits run_event.splits prod.splits)
qed

text \<open>A driver whose pools open and do not answer a ping.\<close>

definition dead_sql :: "(unit, int) sqlpkg" where
  "dead_sql = \<lparr>sql_Open = (\<lambda>_. ret (Inr 7)), sql_Ping = (\<lambda>_. ret (Some DeadlineExceeded)),
     sql_Close = (\<lambda>_. ret None)\<rparr>"

definition plain_lib :: golib where
  "plain_lib = \<lparr>Sum256 = (\<lambda>s. s), UniLower = (\<lambda>s. s)\<rparr>"

theorem run_closes_pool_witness:
  "\<exists>err log. run_state (run_api plain_lib (logged dead_sql) (on_fst \<circ> (\<lambda>_. ret ())) (on_fst \<circ> (\<lambda>_. ret None))
       [''CAREERPILOT_DATABASE_URL'' \<mapsto> ''db''] CtxDone) ((), []) = (err, ((), log)) \<and>
     log = [Opened 7, Closed 7] \<and> main_exit err = 1"
proof -
  let ?run = "run_state (run_api plain_lib (logged dead_sql) (on_fst \<circ> (\<lambda>_. ret ())) (on_fst \<circ> (\<lambda>_. ret None))
    [''CAREERPILOT_DATABASE_URL'' \<mapsto> ''db''] CtxDone) ((), [])"
  have "?run = (Some (WrapError ''app: connect to postgres: '' (WrapError ''postgres: ping: '' DeadlineExceeded)),
      ((), [Opened 7, Closed 7]))"
    by (simp add: run_api_def Load_def loadLimits_def getEnvInt_def getEnv_def app_New_def
        postgres_Open_def logged_defs dead_sql_def Let_def)
  with run_closes_pool [OF this] show ?thesis by (simp add: main_exit_def)
qed

end
