(* ===== verification/Spec2Isabelle.thy ===== *)
theory Spec2Isabelle
  imports Notification RunnerCalls RunnerCompleted RunnerLifecycle RunnerErrors RedeemRace StartRace DiscoveryRuns DiscoveryFaults EvaluationCost DeepBudget Outcome App HttpServer
begin

text \<open>
  \<^bold>\<open>CareerPilot\<close> is a job-search assistant in Go: it discovers postings, has language
  models judge them, prepares applications with resumes built from verified claims, and
  drives a browser up to and including the submission, stopping for a human whenever
  something is uncertain.  This development models the packages under \<open>internal/\<close> and
  \<open>cmd/api\<close> and proves what makes each of them, and some of them together, correct.

  \<^bold>\<open>How the parts interact.\<close>  \<open>internal/scheduler\<close> runs tasks under a retry policy.  Its
  discovery task fetches postings and ingests them with \<open>internal/job\<close>; its evaluation task
  runs the job pipeline, which calls the models through the recorder of
  \<open>internal/modelprovider\<close> and turns their answers into scores.  \<open>internal/application\<close>
  takes a scored job through its lifecycle, with resumes of \<open>internal/resume\<close> and answers
  that rest on the claims of \<open>internal/candidate\<close>, to the safety gate; the runner of
  \<open>internal/browser\<close> fills the form and submits behind that gate, and hands over to a human
  with a recovery token that \<open>internal/notification\<close> delivers.  \<open>internal/outcome\<close> measures
  what came of it.  \<open>internal/config\<close>, \<open>storage/postgres\<close>, \<open>app\<close>, \<open>httpserver\<close> and
  \<open>cmd/api\<close> are the service around it.

  \<^bold>\<open>How the code is modelled.\<close>  Structs are records with the fields of the source, string
  enumerations are datatypes with a constructor for any other text, maps are maps or
  association lists, \<open>error\<close> is \<open>goerror option\<close> with the wrapping of the source.  A Go
  interface is a record of methods in the state monad over a world \<open>'w\<close> that the caller
  chooses, so a definition makes the calls of the code in their order, every error path
  included, over any implementation.  Where the tests of the repository bring an in-memory
  implementation it is a definition too, and the theorems that need a store with laws are
  about it.  The laws are stated once, as the assumptions of a locale, and each locale is
  interpreted on such an implementation.  What a function returns next to an error is kept
  when the code fills it in.

  \<^bold>\<open>The theories\<close>, in the order of their imports:
  \<^item> \<open>CP_Prelude\<close>: errors, the state monad with its Hoare, invariant and frame rules, the
    locale of a status machine; \<open>Faults\<close>: calls that may fail; \<open>Go_Lib\<close>: the parts of Go's library the source uses
    (strings, \<open>strconv\<close>, base64, hex, times, 64-bit arithmetic); \<open>Float64\<close>: \<open>float64\<close>.
  \<^item> \<open>Candidate\<close> (\<open>internal/candidate\<close>), \<open>Latex\<close> and \<open>Resume\<close> (\<open>internal/resume\<close>): what a
    generated version is made of, the page count, claim provenance, and the invariant of
    every version that \<open>Generate\<close>, \<open>Approve\<close> and \<open>Reject\<close> can yield.
  \<^item> \<open>ModelProvider\<close> (\<open>internal/modelprovider\<close>): every model call is audited.
  \<^item> \<open>Job\<close> and \<open>JobPipeline\<close> (\<open>internal/job\<close>): the decision of \<open>Ingest\<close>, when two postings
    share a fingerprint, the policy that turns model output into scores.  \<open>PipelineFaults\<close>:
    over every history of \<open>Process\<close> in which anything may fail, from which decoded answers the
    stored and returned scores come, and what the daily limit does not count; \<open>DeepBudget\<close>:
    that limit, day by day, over a store that keeps the dates of its evaluations.
  \<^item> \<open>Application\<close> (\<open>internal/application\<close>): the lifecycle table, the classification of
    answers, the gate, and \<open>prepared\<close>, the applications that the exported operations can
    produce, with the detours around the checks that a history took, which \<open>Transition\<close> allows.
  \<^item> \<open>Browser\<close>, \<open>Recovery\<close>, \<open>RedeemRace\<close>, \<open>Runner\<close> (\<open>internal/browser\<close>): drivers and
    sessions; tokens, whole and with their redemptions interleaved; the runner.
    \<open>RunnerCalls\<close> says which driver calls the runner makes and which results go with them,
    \<open>RunnerErrors\<close> what a caller can tell from a result when stores fail, \<open>RunnerStores\<close> what
    the runner leaves in the stores and how a session goes through the handoff.  \<open>RunnerInv\<close>
    carries an invariant through every helper, and \<open>RunnerSystem\<close> through every history of
    calls.  \<open>RunnerFaults\<close> lets any call of the environment fail, with or without having taken
    effect, and collects the histories in which that happens.  For all of them
    \<open>RunnerCompleted\<close> says who completes a session, \<open>RunnerStored\<close> what the stores hold and
    that no handoff is a dead end, \<open>RunnerBudget\<close> that the sessions of a day stay within the
    limit of \<open>Start\<close> and which submissions go around it, and
    \<open>RunnerLifecycle\<close> takes the session lifecycle of \<open>docs/BROWSER-RECOVERY.md\<close> as an abstract
    specification, with the one move of the runner that it does not have; \<open>StartRace\<close> lets calls of \<open>Start\<close> interleave, with faults as well.
    \<open>RunnerTests\<close> is the runner of \<open>runner_test.go\<close> over its in-memory stores.
  \<^item> \<open>Notification\<close> (\<open>internal/notification\<close>): saved before sent, also for the runner.
  \<^item> \<open>Scheduler\<close>, \<open>SchedulerTasks\<close> (\<open>internal/scheduler\<close>): the retry loop, health, the audit
    report, resume proposals, discovery and evaluation, with the jobs a discovery stores;
    \<open>DiscoveryRuns\<close> and \<open>EvaluationRuns\<close>: what running these tasks again does; \<open>DiscoveryFaults\<close>:
    which jobs are stored as duplicates, and of which, after every history of discovery runs
    with faults, and what the counts of a run say of the store; \<open>EvaluationCost\<close>: how many model calls a
    batch makes over all the attempts of the retry policy, whatever fails.
  \<^item> \<open>Outcome\<close> (\<open>internal/outcome\<close>): the history of a record, the funnel, rates, groupings,
    calibration and recommendations.
  \<^item> \<open>Config\<close>, \<open>App\<close>, \<open>HttpServer\<close>: configuration, wiring, the health endpoint.
  \<^item> This theory: what spans the model answers, the application, the gate and the runner.

  \<^bold>\<open>Parameters.\<close>  SHA-256 and the Unicode case tables (\<open>golib\<close>), \<open>encoding/json\<close> on the two
  model outputs (\<open>json_pkg\<close>), \<open>text/template\<close>, the operating system with \<open>latexmk\<close> and
  \<open>pdfinfo\<close>, the Playwright package, \<open>database/sql\<close>, clocks, identifiers and random bytes are
  arguments.  No theorem assumes that hashes do not collide unless it says so.

  \<^bold>\<open>Bounds.\<close>  Counters and limits are \<open>int\<close>, and \<open>wrap64\<close> stands where the source multiplies
  or increments values that may overflow.  The retry loop may run for ever, at the largest
  64-bit \<open>MaxRetries\<close> it does, and is a partial function; for every smaller limit its result
  is proved.  Rates are exact doubles for counts below \<open>2 ^ 53\<close>; the comparison of rates
  agrees with exact fractions up to \<open>2 ^ 17\<close> records, far more than one person applies for.
  Every other loop of the source ranges over a slice or a map and is structural recursion.

  \<^bold>\<open>Not modelled.\<close>  Contexts (passed on, never read), the line \<open>main\<close> logs before it exits, how
  \<open>slog\<close> prints a record, the goroutine of \<open>run\<close> beyond the one event its \<open>select\<close> receives, the dispatch of requests by \<open>net/http\<close>, the LaTeX
  template and the SQL migrations, which are not Go.  Concurrency is modelled where a claim
  of the code depends on it, for the redemption of tokens and the daily limit of \<open>Start\<close>;
  in the histories a call of the runner is one step.  A method of the Playwright driver that dereferences the
  page it has not opened panics in Go; the model records the panic and does not go into what
  becomes of the process.  The stores of the tests never fail;
  \<open>Faults\<close> makes any call fail by a plan: it works, it is refused and does nothing, or it takes
  place and its answer is lost, which the caller sees as the same error.  A call that takes
  place in part, or late, is not modelled.  The theorems that hold for every store, among
  them those on driver calls and error results, are stated for every store.
\<close>

section \<open>Properties that span components\<close>

subsection \<open>From a model's answer to a qualified application\<close>


definition sample_evaluation :: EvaluationOutput where
  "sample_evaluation = \<lparr>evo_Score = 90, evo_Recommendation = ''apply'', evo_Reasons = [], evo_Concerns = [],
     evo_MatchedSkills = [], evo_MissingSkills = [], evo_Confidence = ''high''\<rparr>"


text \<open>
  The confidence of the answer plays no part, although \<open>Score\<close> says that a score of 90 with
  low confidence should not be applied for automatically: such an answer qualifies.
\<close>

lemma low_confidence_qualifies:
  assumes "app_Status a = StatusDiscovered"
  shows "\<exists>ev. evo_Score ev = 90 \<and> score_Confidence (ApplyEvaluation ev) = ''low''
     \<and> Qualify a (ApplyEvaluation ev) = Inr (a\<lparr>app_Status := StatusQualified\<rparr>)"
proof (intro exI conjI)
  let ?ev = "sample_evaluation\<lparr>evo_Confidence := ''low''\<rparr>"
  show "score_Confidence (ApplyEvaluation ?ev) = ''low''"
    by (simp add: sample_evaluation_def ApplyEvaluation_def normalizeRecommendation_def normalizeConfidence_def Let_def)
  show "Qualify a (ApplyEvaluation ?ev) = Inr (a\<lparr>app_Status := StatusQualified\<rparr>)"
    using assms by (simp add: Qualify_Inr ApplyEvaluation_Recommendation sample_evaluation_def)
qed (simp add: sample_evaluation_def)

subsection \<open>From the safety gate to the submit button\<close>

text \<open>
  C1. The submit button is pressed once and behind the gate: over the in-memory
  application store and every driver, if \<open>Submit\<close> makes any call to the driver, given the
  result of the gate on an input whose duplicate flag comes from \<open>CheckDuplicate\<close>, then the
  first call is the submission, there is no second one, the store had no application for
  the job, the job and the resume were verified, no answer waited for review, the platform
  was neither unknown nor denied and the daily limit was not reached.
\<close>

theorem submission_behind_gate:
  assumes "run_state (CheckDuplicate fakeAppStore_ops (app_JobID a)) s = ((found, dup, None), s')"
    and "sgi_Application g = a" and "sgi_IsDuplicate g = dup"
    and "run_state (run_Submit lib (traced_rand rand_Read) (traced r)
        \<lparr>sub_Session = session, sub_GateResult = EvaluateSafetyGate g, sub_SubmitSelector = sel\<rparr>)
      (w, []) = (res, (w', calls))"
    and "calls \<noteq> []"
  shows "hd calls = CallSubmit sel \<and> (\<forall>x. CallSubmit x \<notin> set (tl calls))
    \<and> fas_byJobID s (app_JobID a) = None
    \<and> sgi_JobVerified g \<and> sgi_ResumeVerified g
    \<and> AnswerStatusReview \<notin> ans_Status ` set (app_Answers a)
    \<and> sgi_Platform g \<notin> {PlatformPolicyUnknown, PlatformPolicyDenied}
    \<and> (0 < sgi_DailyApplicationLimit g \<longrightarrow> sgi_ApplicationsSubmittedToday g < sgi_DailyApplicationLimit g)"
proof -
  let ?inp = "\<lparr>sub_Session = session, sub_GateResult = EvaluateSafetyGate g, sub_SubmitSelector = sel\<rparr>"
  from followsD [OF follows_Submit [of lib rand_Read r ?inp], of w "[]"] assms(4,5)
  have gate: "gate_Passed (EvaluateSafetyGate g)"
    and calls: "calls \<in> {[CallSubmit sel], CallSubmit sel # pause_calls}"
    by (auto simp: submit_results_def split: if_splits)
  from gate assms(3) have "\<not> dup" by (simp add: gate_Passed_iff)
  with assms(1) have "fas_byJobID s (app_JobID a) = None"
    by (auto simp: fake_apps.run_CheckDuplicate split: option.splits)
  with gate calls assms(2) show ?thesis by (auto simp: gate_Passed_iff)
qed

lemma traced_test_Submit:
  assumes "fd_SubmitErr (bw_driver w) = None" "fd_SubmitState (bw_driver w) = StateSubmitted" "gate_Passed g"
  shows "\<exists>res w'. run_state (run_Submit lib (traced_rand rnd) (traced (test_runner sample_limits t))
      \<lparr>sub_Session = s0\<lparr>sess_ExpiresAt := zeroTime\<rparr>, sub_GateResult = g, sub_SubmitSelector = sel\<rparr>) (w, [])
    = (res, (w', [CallSubmit sel]))"
  using assms
  by (simp add: run_Submit_def test_runner_simps run_isExpired_def saveSession_def IsExpired_def time_defs
      on_sessions_def on_driver_def fakeSessionStore_ops_def FakeDriver_Submit_def log_call_def Let_def)

theorem submission_behind_gate_witness:
  "\<forall>lib b. \<exists>res w' calls.
     run_state (CheckDuplicate fakeAppStore_ops (app_JobID zeroApplication)) newFakeAppStore
       = ((zeroApplication, False, None), newFakeAppStore)
     \<and> run_state (run_Submit lib (traced_rand (test_rand b)) (traced (test_runner sample_limits zeroTime))
         \<lparr>sub_Session = zeroSession, sub_GateResult = EvaluateSafetyGate (sample_gate zeroApplication),
          sub_SubmitSelector = ''#go''\<rparr>) (world_with (fake_driver [] StateSubmitted), []) = (res, (w', calls))
     \<and> calls = [CallSubmit ''#go''] \<and> fas_byJobID newFakeAppStore (app_JobID zeroApplication) = None"
proof (intro allI)
  fix lib b
  let ?w = "world_with (fake_driver [] StateSubmitted)"
  let ?g = "EvaluateSafetyGate (sample_gate zeroApplication)"
  have z: "zeroSession\<lparr>sess_ExpiresAt := zeroTime\<rparr> = zeroSession" by (simp add: zeroSession_def)
  have c: "run_state (CheckDuplicate fakeAppStore_ops (app_JobID zeroApplication)) newFakeAppStore
      = ((zeroApplication, False, None), newFakeAppStore)"
    by (simp add: fake_apps.run_CheckDuplicate newFakeAppStore_def)
  have gate: "gate_Passed ?g" by (simp add: gate_Passed_iff sample_gate_def zeroApplication_def)
  from traced_test_Submit [OF _ _ gate, of ?w lib "test_rand b" zeroTime zeroSession "''#go''"]
  obtain res w' where run: "run_state (run_Submit lib (traced_rand (test_rand b)) (traced (test_runner sample_limits zeroTime))
        \<lparr>sub_Session = zeroSession, sub_GateResult = ?g, sub_SubmitSelector = ''#go''\<rparr>) (?w, [])
      = (res, (w', [CallSubmit ''#go'']))"
    by (auto simp: world_with_def fake_driver_def z)
  from submission_behind_gate [OF c _ _ run] c run
  show "\<exists>res w' calls.
     run_state (CheckDuplicate fakeAppStore_ops (app_JobID zeroApplication)) newFakeAppStore
       = ((zeroApplication, False, None), newFakeAppStore)
     \<and> run_state (run_Submit lib (traced_rand (test_rand b)) (traced (test_runner sample_limits zeroTime))
         \<lparr>sub_Session = zeroSession, sub_GateResult = ?g, sub_SubmitSelector = ''#go''\<rparr>) (?w, []) = (res, (w', calls))
     \<and> calls = [CallSubmit ''#go''] \<and> fas_byJobID newFakeAppStore (app_JobID zeroApplication) = None"
    by (simp add: sample_gate_def)
qed

end
